(* ===== verification/Prelude.thy ===== *)
theory Prelude
  imports Main "HOL-Library.Word" "HOL-Library.AList"
begin

text \<open>
  Shared vocabulary of the development: bytes and their relation to characters, the
  state-and-failure programs in which the stateful C++ code is written, the generic
  reachability machinery for the event-driven parts, and a few facts on lists.
\<close>

section \<open>Bytes and strings\<close>

text \<open>
  A \<^verbatim>\<open>uint8_t\<close> is an \<open>8 word\<close>, a \<^verbatim>\<open>std::vector<uint8_t>\<close> a list of them, and a
  \<^verbatim>\<open>std::string\<close> a HOL \<open>string\<close>: a list of 8-bit characters, zero bytes included.
\<close>

type_synonym byte = "8 word"
type_synonym bytes = "byte list"
type_synonym u32 = "32 word"
type_synonym i64 = "64 word"

named_theorems prog_simps "equations that run programs of the state-and-failure monad"
named_theorems preserves_intros "rules that show that a program preserves a predicate"

definition byte_of_char :: "char \<Rightarrow> byte" where
  "byte_of_char c = of_nat (of_char c)"

definition char_of_byte :: "byte \<Rightarrow> char" where
  "char_of_byte b = char_of (unat b)"

lemma char_of_byte_of_char [simp]: "char_of_byte (byte_of_char c) = c"
proof -
  have "(of_char c :: nat) mod 256 = of_char c" by (rule of_char_mod_256)
  then show ?thesis
    by (simp add: char_of_byte_def byte_of_char_def unat_of_nat)
qed

lemma byte_of_char_of_byte [simp]: "byte_of_char (char_of_byte b) = b"
proof -
  have "unat b < 2 ^ LENGTH(8)" by (rule unsigned_less)
  then have "unat b < 256" by simp
  then show ?thesis
    by (simp add: char_of_byte_def byte_of_char_def)
qed

lemma map_char_of_byte_of_char [simp]: "map char_of_byte (map byte_of_char s) = s"
  by (simp add: map_idI)

lemma map_byte_of_char_of_byte [simp]: "map byte_of_char (map char_of_byte bs) = bs"
  by (simp add: map_idI)

text \<open>A \<^verbatim>\<open>const char*\<close> ends at its first zero byte.\<close>

definition c_str :: "string \<Rightarrow> string" where
  "c_str s = takeWhile (\<lambda>c. c \<noteq> CHR 0x00) s"

definition nul_free :: "string \<Rightarrow> bool" where
  "nul_free s \<longleftrightarrow> CHR 0x00 \<notin> set s"

lemma c_str_nul_free [simp]: "nul_free s \<Longrightarrow> c_str s = s"
  unfolding c_str_def nul_free_def by (rule takeWhile_eq_all_conv [THEN iffD2]) metis

lemma nul_free_c_str [simp]: "nul_free (c_str s)"
  by (auto simp: c_str_def nul_free_def dest: set_takeWhileD)

lemma c_str_nul [simp]: "nul_free s \<Longrightarrow> c_str (s @ CHR 0x00 # t) = s"
  by (induction s) (auto simp: c_str_def nul_free_def)

section \<open>Programs that read and write a state and may fail\<close>

text \<open>
  A C++ statement that can throw maps a state to a fault or a value, and to the state it
  leaves behind: the effects that happened before an exception stay.
\<close>

type_synonym ('f, 's, 'a) prog = "'s \<Rightarrow> ('f + 'a) \<times> 's"

definition ret :: "'a \<Rightarrow> ('f, 's, 'a) prog" where
  "ret x s = (Inr x, s)"

definition throw :: "'f \<Rightarrow> ('f, 's, 'a) prog" where
  "throw e s = (Inl e, s)"

definition bnd :: "('f, 's, 'a) prog \<Rightarrow> ('a \<Rightarrow> ('f, 's, 'b) prog) \<Rightarrow> ('f, 's, 'b) prog" where
  "bnd m f s = (case m s of (Inl e, s') \<Rightarrow> (Inl e, s') | (Inr x, s') \<Rightarrow> f x s')"

definition gets :: "('s \<Rightarrow> 'a) \<Rightarrow> ('f, 's, 'a) prog" where
  "gets f s = (Inr (f s), s)"

definition modify :: "('s \<Rightarrow> 's) \<Rightarrow> ('f, 's, unit) prog" where
  "modify f s = (Inr (), f s)"

definition lift_res :: "'f + 'a \<Rightarrow> ('f, 's, 'a) prog" where
  "lift_res r s = (r, s)"

text \<open>A range-based \<^verbatim>\<open>for\<close> loop that collects one value per element.\<close>

fun for_each :: "'a list \<Rightarrow> ('a \<Rightarrow> ('f, 's, 'b) prog) \<Rightarrow> ('f, 's, 'b list) prog" where
  "for_each [] f = ret []"
| "for_each (x # xs) f = bnd (f x) (\<lambda>y. bnd (for_each xs f) (\<lambda>ys. ret (y # ys)))"

lemma ret_run [prog_simps]: "ret x s = (Inr x, s)"
  by (simp add: ret_def)

lemma throw_run [prog_simps]: "throw e s = (Inl e, s)"
  by (simp add: throw_def)

lemma gets_run [prog_simps]: "gets f s = (Inr (f s), s)"
  by (simp add: gets_def)

lemma modify_run [prog_simps]: "modify f s = (Inr (), f s)"
  by (simp add: modify_def)

lemma lift_res_run [prog_simps]: "lift_res r s = (r, s)"
  by (simp add: lift_res_def)

lemma bnd_Inr [prog_simps]: "m s = (Inr x, s') \<Longrightarrow> bnd m f s = f x s'"
  by (simp add: bnd_def)

lemma bnd_Inl [prog_simps]: "m s = (Inl e, s') \<Longrightarrow> bnd m f s = (Inl e, s')"
  by (simp add: bnd_def)

lemma bnd_ret [simp]: "bnd (ret x) f = f x"
  by (rule ext) (simp add: prog_simps)

lemma bnd_throw [simp]: "bnd (throw e) f = throw e"
  by (rule ext) (simp add: prog_simps)

lemma bnd_ret_right [simp]: "bnd m ret = m"
  by (rule ext) (simp add: bnd_def prog_simps split: prod.split sum.split)

lemma snd_bnd_ret [simp]: "snd (bnd m (\<lambda>x. ret (f x)) s) = snd (m s)"
  by (simp add: bnd_def prog_simps split: prod.split sum.split)

lemma bnd_assoc: "bnd (bnd m f) g = bnd m (\<lambda>x. bnd (f x) g)"
  by (rule ext) (simp add: bnd_def split: prod.split sum.split)

text \<open>Running a collecting loop none of whose iterations fails or touches the state.\<close>

lemma for_each_pure:
  "(\<And>x. x \<in> set xs \<Longrightarrow> f x s = (Inr (g x), s)) \<Longrightarrow> for_each xs f s = (Inr (map g xs), s)"
  by (induction xs) (simp_all add: prog_simps)

subsection \<open>Predicates that a program preserves\<close>

definition preserves :: "('s \<Rightarrow> bool) \<Rightarrow> ('f, 's, 'a) prog \<Rightarrow> bool" where
  "preserves I m \<longleftrightarrow> (\<forall>s. I s \<longrightarrow> I (snd (m s)))"

lemma preservesI: "(\<And>s. I s \<Longrightarrow> I (snd (m s))) \<Longrightarrow> preserves I m"
  by (simp add: preserves_def)

lemma preservesD: "preserves I m \<Longrightarrow> I s \<Longrightarrow> I (snd (m s))"
  by (simp add: preserves_def)

lemma preserves_ret [preserves_intros]: "preserves I (ret x)"
  by (simp add: preserves_def ret_def)

lemma preserves_throw [preserves_intros]: "preserves I (throw e)"
  by (simp add: preserves_def throw_def)

lemma preserves_gets [preserves_intros]: "preserves I (gets f)"
  by (simp add: preserves_def gets_def)

lemma preserves_lift_res [preserves_intros]: "preserves I (lift_res r)"
  by (simp add: preserves_def lift_res_def)

lemma preserves_modify: "(\<And>s. I s \<Longrightarrow> I (f s)) \<Longrightarrow> preserves I (modify f)"
  by (simp add: preserves_def modify_def)

lemma preserves_bnd [preserves_intros]:
  "preserves I m \<Longrightarrow> (\<And>x. preserves I (f x)) \<Longrightarrow> preserves I (bnd m f)"
  by (auto simp: preserves_def bnd_def split: prod.splits sum.splits)

lemma preserves_if [preserves_intros]:
  "(b \<Longrightarrow> preserves I m) \<Longrightarrow> (\<not> b \<Longrightarrow> preserves I n) \<Longrightarrow> preserves I (if b then m else n)"
  by simp

lemma preserves_case_sum [preserves_intros]:
  "(\<And>e. r = Inl e \<Longrightarrow> preserves I (f e)) \<Longrightarrow> (\<And>x. r = Inr x \<Longrightarrow> preserves I (g x))
    \<Longrightarrow> preserves I (case r of Inl e \<Rightarrow> f e | Inr x \<Rightarrow> g x)"
  by (simp split: sum.split)

lemma preserves_case_option [preserves_intros]:
  "(r = None \<Longrightarrow> preserves I f) \<Longrightarrow> (\<And>x. r = Some x \<Longrightarrow> preserves I (g x))
    \<Longrightarrow> preserves I (case r of None \<Rightarrow> f | Some x \<Rightarrow> g x)"
  by (simp split: option.split)

lemma preserves_for_each [preserves_intros]:
  "(\<And>x. x \<in> set xs \<Longrightarrow> preserves I (f x)) \<Longrightarrow> preserves I (for_each xs f)"
  by (induction xs) (auto intro!: preserves_intros)

text \<open>A program keeps a part of the state when no run changes it.\<close>

definition keeps :: "('s \<Rightarrow> 'b) \<Rightarrow> ('f, 's, 'a) prog \<Rightarrow> bool" where
  "keeps p m \<longleftrightarrow> (\<forall>s. p (snd (m s)) = p s)"

lemma keepsD: "keeps p m \<Longrightarrow> p (snd (m s)) = p s"
  by (simp add: keeps_def)

lemma keeps_iff_preserves: "keeps p m \<longleftrightarrow> (\<forall>c. preserves (\<lambda>s. p s = c) m)"
  by (auto simp: keeps_def preserves_def)

end
