(* ===== verification/Codes.thy ===== *)
theory Codes
  imports Prelude
begin

text \<open>
  \<^verbatim>\<open>include/codes.hpp\<close>: the 32-bit error codes shared by client and server, their category
  and number, their printed names, and \<^verbatim>\<open>std::expected\<close> over them. The faults that end a
  handler (thrown exceptions, and undefined behaviour as an outcome of its own) are declared
  here too, since one of them carries an error code.
\<close>

section \<open>Error codes\<close>

unbundle bit_operations_syntax

datatype error_code = ErrorCode (code_value: u32)

text \<open>\<^verbatim>\<open>ErrorCode()\<close>, \<^verbatim>\<open>clear\<close>, and the observers.\<close>

definition ErrorCode_default :: error_code where
  "ErrorCode_default = ErrorCode 1"

definition category :: "error_code \<Rightarrow> u32" where
  "category e = code_value e AND 0xF0000000"

definition code :: "error_code \<Rightarrow> u32" where
  "code e = code_value e AND 0x0FFFFFFF"

definition ok :: "error_code \<Rightarrow> bool" where
  "ok e \<longleftrightarrow> code_value e = 1"

definition clear :: "error_code \<Rightarrow> error_code" where
  "clear e = ErrorCode 1"

definition Category_Base :: u32 where "Category_Base = 0x00000000"
definition Category_Auth :: u32 where "Category_Auth = 0x10000000"
definition Category_Message :: u32 where "Category_Message = 0x20000000"
definition Category_Friends :: u32 where "Category_Friends = 0x30000000"
definition Category_User :: u32 where "Category_User = 0x40000000"

lemmas category_defs = Category_Base_def Category_Auth_def Category_Message_def
  Category_Friends_def Category_User_def

definition makeCode :: "u32 \<Rightarrow> u32 \<Rightarrow> error_code" where
  "makeCode c n = ErrorCode (c OR n)"

text \<open>The named codes of the namespaces \<^verbatim>\<open>Error::Base\<close>, \<^verbatim>\<open>Auth\<close>, \<^verbatim>\<open>Friends\<close> and \<^verbatim>\<open>User\<close>.\<close>

definition Unknown :: error_code where "Unknown = ErrorCode 0"
definition OK :: error_code where "OK = ErrorCode 1"

definition LoginExists :: error_code where
  "LoginExists = makeCode Category_Auth 1"
definition IncorrectCredentials :: error_code where
  "IncorrectCredentials = makeCode Category_Auth 2"
definition NonAuthorized :: error_code where
  "NonAuthorized = makeCode Category_Auth 3"
definition TokenExpired :: error_code where
  "TokenExpired = makeCode Category_Auth 4"

definition AlreadyFriends :: error_code where
  "AlreadyFriends = makeCode Category_Friends 1"
definition AlreadySent :: error_code where
  "AlreadySent = makeCode Category_Friends 2"
definition RequestToYourself :: error_code where
  "RequestToYourself = makeCode Category_Friends 3"
definition AcceptNonExistentRequest :: error_code where
  "AcceptNonExistentRequest = makeCode Category_Friends 4"
definition AcceptRequestToYourself :: error_code where
  "AcceptRequestToYourself = makeCode Category_Friends 5"
definition RejectNonExistentRequest :: error_code where
  "RejectNonExistentRequest = makeCode Category_Friends 6"
definition RejectRequestToYourself :: error_code where
  "RejectRequestToYourself = makeCode Category_Friends 7"
definition NotFriends :: error_code where
  "NotFriends = makeCode Category_Friends 8"

definition NotFound :: error_code where
  "NotFound = makeCode Category_User 1"

lemmas code_defs = Unknown_def OK_def LoginExists_def IncorrectCredentials_def
  NonAuthorized_def TokenExpired_def AlreadyFriends_def AlreadySent_def RequestToYourself_def
  AcceptNonExistentRequest_def AcceptRequestToYourself_def RejectNonExistentRequest_def
  RejectRequestToYourself_def NotFriends_def NotFound_def makeCode_def category_defs

text \<open>All declared codes, in the order of the source.\<close>

definition declared_codes :: "error_code list" where
  "declared_codes = [Unknown, OK, LoginExists, IncorrectCredentials, NonAuthorized, TokenExpired,
     AlreadyFriends, AlreadySent, RequestToYourself, AcceptNonExistentRequest,
     AcceptRequestToYourself, RejectNonExistentRequest, RejectRequestToYourself, NotFriends,
     NotFound]"

section \<open>Printing\<close>

definition categoryName :: "u32 \<Rightarrow> string" where
  "categoryName c =
    (if c = Category_Base then ''Base''
     else if c = Category_Auth then ''Auth''
     else if c = Category_Message then ''Message''
     else if c = Category_Friends then ''Friends''
     else if c = Category_User then ''User''
     else ''Unknown'')"

definition codeName :: "error_code \<Rightarrow> string" where
  "codeName e =
    (if code_value e = code_value OK then ''OK''
     else if code_value e = code_value Unknown then ''Unknown''
     else if code_value e = code_value LoginExists then ''LoginExists''
     else if code_value e = code_value IncorrectCredentials then ''IncorrectCredentials''
     else if code_value e = code_value NonAuthorized then ''NonAuthorized''
     else if code_value e = code_value TokenExpired then ''NonAuthorized''
     else if code_value e = code_value AlreadyFriends then ''AlreadyFriends''
     else if code_value e = code_value AlreadySent then ''AlreadySent''
     else if code_value e = code_value RequestToYourself then ''RequestToYourself''
     else if code_value e = code_value AcceptNonExistentRequest then ''AcceptNonExistentRequest''
     else if code_value e = code_value AcceptRequestToYourself then ''AcceptRequestToYourself''
     else if code_value e = code_value RejectNonExistentRequest then ''RejectNonExistentRequest''
     else if code_value e = code_value RejectRequestToYourself then ''RejectRequestToYourself''
     else if code_value e = code_value NotFriends then ''NotFriends''
     else if code_value e = code_value NotFound then ''NotFound''
     else ''Unknown'')"

text \<open>
  The messages shown to the user are Russian; the literals are their UTF-8 bytes, as the
  compiler stores them.
\<close>

definition utf8 :: "nat list \<Rightarrow> string" where
  "utf8 ns = map char_of ns"

definition codeErrorText :: "error_code \<Rightarrow> string" where
  "codeErrorText e =
    (if code_value e = code_value OK then ''OK''
     else if code_value e = code_value Unknown then
       utf8 [208, 157, 208, 181, 208, 184, 208, 183, 208, 178, 208, 181, 209, 129, 209, 130,
       208, 189, 208, 176, 209, 143, 32, 208, 190, 209, 136, 208, 184, 208, 177, 208, 186,
       208, 176]
     else if code_value e = code_value LoginExists then
       utf8 [208, 155, 208, 190, 208, 179, 208, 184, 208, 189, 32, 209, 131, 208, 182, 208, 181,
       32, 209, 129, 209, 131, 209, 137, 208, 181, 209, 129, 209, 130, 208, 178, 209, 131,
       208, 181, 209, 130, 33]
     else if code_value e = code_value IncorrectCredentials then
       utf8 [208, 157, 208, 181, 208, 178, 208, 181, 209, 128, 208, 189, 208, 190, 32, 208, 178,
       208, 178, 208, 181, 208, 180, 208, 181, 208, 189, 209, 139, 32, 208, 180, 208, 176,
       208, 189, 208, 189, 209, 139, 208, 181, 33]
     else if code_value e = code_value NonAuthorized then
       utf8 [208, 146, 209, 139, 32, 208, 189, 208, 181, 32, 208, 176, 208, 178, 209, 130, 208,
       190, 209, 128, 208, 184, 208, 183, 208, 190, 208, 178, 208, 176, 208, 189, 209,
       139, 33]
     else if code_value e = code_value TokenExpired then
       utf8 [208, 161, 209, 128, 208, 190, 208, 186, 32, 208, 182, 208, 184, 208, 183, 208, 189,
       208, 184, 32, 209, 130, 208, 190, 208, 186, 208, 181, 208, 189, 208, 176, 32, 208,
       184, 209, 129, 209, 130, 208, 181, 208, 186, 33]
     else if code_value e = code_value AlreadyFriends then
       utf8 [208, 146, 209, 139, 32, 209, 131, 208, 182, 208, 181, 32, 208, 180, 209, 128, 209,
       131, 208, 183, 209, 140, 209, 143, 33]
     else if code_value e = code_value AlreadySent then
       utf8 [208, 151, 208, 176, 208, 191, 209, 128, 208, 190, 209, 129, 32, 208, 178, 32, 208,
       180, 209, 128, 209, 131, 208, 183, 209, 140, 209, 143, 32, 209, 131, 208, 182, 208,
       181, 32, 208, 177, 209, 139, 208, 187, 32, 208, 190, 209, 130, 208, 191, 209, 128,
       208, 176, 208, 178, 208, 187, 208, 181, 208, 189, 33]
     else if code_value e = code_value RequestToYourself then
       utf8 [208, 157, 208, 181, 208, 187, 209, 140, 208, 183, 209, 143, 32, 208, 190, 209, 130,
       208, 191, 209, 128, 208, 176, 208, 178, 208, 184, 209, 130, 209, 140, 32, 208, 183,
       208, 176, 208, 191, 209, 128, 208, 190, 209, 129, 32, 209, 129, 208, 176, 208, 188,
       208, 190, 208, 188, 209, 131, 32, 209, 129, 208, 181, 208, 177, 208, 181, 33]
     else if code_value e = code_value AcceptNonExistentRequest then
       utf8 [208, 157, 208, 181, 208, 178, 208, 190, 208, 183, 208, 188, 208, 190, 208, 182,
       208, 189, 208, 190, 32, 208, 191, 209, 128, 208, 184, 208, 189, 209, 143, 209, 130,
       209, 140, 32, 208, 189, 208, 181, 209, 129, 209, 131, 209, 137, 208, 181, 209, 129,
       209, 130, 208, 178, 209, 131, 209, 142, 209, 137, 208, 184, 208, 185, 32, 208, 183,
       208, 176, 208, 191, 209, 128, 208, 190, 209, 129, 33]
     else if code_value e = code_value AcceptRequestToYourself then
       utf8 [208, 157, 208, 181, 208, 187, 209, 140, 208, 183, 209, 143, 32, 208, 191, 209, 128,
       208, 184, 208, 189, 209, 143, 209, 130, 209, 140, 32, 208, 183, 208, 176, 208, 191,
       209, 128, 208, 190, 209, 129, 32, 208, 189, 208, 176, 32, 208, 180, 209, 128, 209,
       131, 208, 182, 208, 177, 209, 131, 32, 209, 129, 208, 176, 208, 188, 208, 190, 208,
       188, 209, 131, 32, 209, 129, 208, 181, 208, 177, 208, 181, 33]
     else if code_value e = code_value RejectNonExistentRequest then
       utf8 [208, 157, 208, 181, 208, 187, 209, 140, 208, 183, 209, 143, 32, 208, 190, 209, 130,
       208, 178, 208, 181, 209, 128, 208, 179, 208, 189, 209, 131, 209, 130, 209, 140, 32,
       208, 189, 208, 181, 209, 129, 209, 131, 209, 137, 208, 181, 209, 129, 209, 130,
       208, 178, 209, 131, 209, 142, 209, 137, 208, 184, 208, 185, 32, 208, 183, 208, 176,
       208, 191, 209, 128, 208, 190, 209, 129, 33]
     else if code_value e = code_value RejectRequestToYourself then
       utf8 [208, 157, 208, 181, 208, 187, 209, 140, 208, 183, 209, 143, 32, 208, 190, 209, 130,
       208, 178, 208, 181, 209, 128, 208, 179, 208, 189, 209, 131, 209, 130, 209, 140, 32,
       208, 183, 208, 176, 208, 191, 209, 128, 208, 190, 209, 129, 32, 208, 189, 208, 176,
       32, 208, 180, 209, 128, 209, 131, 208, 182, 208, 177, 209, 131, 32, 209, 129, 208,
       176, 208, 188, 208, 190, 208, 188, 209, 131, 32, 209, 129, 208, 181, 208, 177, 208,
       181, 33]
     else if code_value e = code_value NotFriends then
       utf8 [208, 146, 209, 139, 32, 208, 189, 208, 181, 32, 208, 180, 209, 128, 209, 131, 208,
       183, 209, 140, 209, 143, 33]
     else if code_value e = code_value NotFound then
       utf8 [208, 159, 208, 190, 208, 187, 209, 140, 208, 183, 208, 190, 208, 178, 208, 176,
       209, 130, 208, 181, 208, 187, 209, 140, 32, 208, 189, 208, 181, 32, 208, 189, 208,
       176, 208, 185, 208, 180, 208, 181, 208, 189, 33]
     else utf8 [208, 157, 208, 181, 208, 184, 208, 183, 208, 178, 208, 181, 209, 129, 209, 130,
       208, 189, 209, 139, 208, 185, 32, 208, 186, 208, 190, 208, 180, 32, 208, 190, 209,
       136, 208, 184, 208, 177, 208, 186, 208, 184, 33])"

definition toString :: "error_code \<Rightarrow> string" where
  "toString e = categoryName (category e) @ ''.'' @ codeName e"

section \<open>Faults and expected values\<close>

text \<open>
  What can end a handler other than by returning: the exceptions the code throws itself,
  those of \<^verbatim>\<open>std::expected::value\<close>, of SQLiteCpp, of Boost and of \<^verbatim>\<open>std::filesystem\<close>, and undefined
  behaviour.
\<close>

datatype fault =
    RuntimeError string
  | InvalidArgument string
  | BadExpectedAccess error_code
  | SQLiteException string
  | FilesystemError string
  | SystemError string
  | Undefined string

text \<open>\<^verbatim>\<open>std::expected<T, ErrorCode>\<close> is \<open>error_code + 'a\<close>, the error on the left.\<close>

type_synonym 'a expected = "error_code + 'a"

fun has_value :: "'a expected \<Rightarrow> bool" where
  "has_value (Inl e) = False"
| "has_value (Inr x) = True"

fun expected_value :: "'a expected \<Rightarrow> (fault, 's, 'a) prog" where
  "expected_value (Inl e) = throw (BadExpectedAccess e)"
| "expected_value (Inr x) = ret x"

text \<open>\<^verbatim>\<open>error()\<close> of an expected that holds a value has no defined result.\<close>

fun expected_error :: "'a expected \<Rightarrow> (fault, 's, error_code) prog" where
  "expected_error (Inl e) = ret e"
| "expected_error (Inr x) = throw (Undefined ''expected::error with a value'')"

lemma preserves_expected_value [preserves_intros]: "preserves I (expected_value r)"
  by (cases r) (auto intro: preserves_intros)

lemma preserves_expected_error [preserves_intros]: "preserves I (expected_error r)"
  by (cases r) (auto intro: preserves_intros)

section \<open>Properties of the codes\<close>

lemma ok_iff: "ok e \<longleftrightarrow> e = OK"
  by (cases e) (simp add: ok_def OK_def)

lemma ok_OK [simp]: "ok OK"
  by (simp add: ok_iff)

lemma OK_clear [simp]: "clear e = OK"
  by (simp add: clear_def OK_def)

lemma codes_not_OK [simp]:
  "LoginExists \<noteq> OK" "IncorrectCredentials \<noteq> OK" "NonAuthorized \<noteq> OK" "TokenExpired \<noteq> OK"
  "AlreadyFriends \<noteq> OK" "AlreadySent \<noteq> OK" "RequestToYourself \<noteq> OK"
  "AcceptNonExistentRequest \<noteq> OK" "AcceptRequestToYourself \<noteq> OK"
  "RejectNonExistentRequest \<noteq> OK" "RejectRequestToYourself \<noteq> OK" "NotFriends \<noteq> OK"
  "NotFound \<noteq> OK"
  by (simp_all add: code_defs)

lemmas codes_not_OK_sym [simp] = codes_not_OK [symmetric]

lemma codes_not_ok [simp]:
  "\<not> ok LoginExists" "\<not> ok IncorrectCredentials" "\<not> ok NonAuthorized" "\<not> ok TokenExpired"
  "\<not> ok AlreadyFriends" "\<not> ok AlreadySent" "\<not> ok RequestToYourself"
  "\<not> ok AcceptNonExistentRequest" "\<not> ok AcceptRequestToYourself"
  "\<not> ok RejectNonExistentRequest" "\<not> ok RejectRequestToYourself" "\<not> ok NotFriends"
  "\<not> ok NotFound"
  by (simp_all add: ok_iff)

text \<open>The category and the number of a made code can be read back.\<close>

lemma category_code_split: "code_value e = category e OR code e"
proof -
  have full: "(0xF0000000 :: u32) OR 0x0FFFFFFF = -1" by simp
  show ?thesis
    by (simp only: category_def code_def bit.conj_disj_distrib [symmetric] full and.right_neutral)
qed

lemma makeCode_category:
  assumes "c AND 0x0FFFFFFF = 0" and "n AND 0xF0000000 = 0"
  shows "category (makeCode c n) = c" and "code (makeCode c n) = n"
proof -
  have full: "(0xF0000000 :: u32) OR 0x0FFFFFFF = -1" by simp
  have "c = (c AND 0xF0000000) OR (c AND 0x0FFFFFFF)"
    by (simp only: bit.conj_disj_distrib [symmetric] full and.right_neutral)
  then show "category (makeCode c n) = c"
    using assms by (simp add: category_def makeCode_def bit.conj_disj_distrib2)
  have "n = (n AND 0xF0000000) OR (n AND 0x0FFFFFFF)"
    by (simp only: bit.conj_disj_distrib [symmetric] full and.right_neutral)
  then show "code (makeCode c n) = n"
    using assms by (simp add: code_def makeCode_def bit.conj_disj_distrib2)
qed

lemma toString_declared:
  "map toString declared_codes =
    [''Base.Unknown'', ''Base.OK'', ''Auth.LoginExists'', ''Auth.IncorrectCredentials'',
     ''Auth.NonAuthorized'', ''Auth.NonAuthorized'', ''Friends.AlreadyFriends'',
     ''Friends.AlreadySent'', ''Friends.RequestToYourself'',
     ''Friends.AcceptNonExistentRequest'', ''Friends.AcceptRequestToYourself'',
     ''Friends.RejectNonExistentRequest'', ''Friends.RejectRequestToYourself'',
     ''Friends.NotFriends'', ''User.NotFound'']"
  by (simp add: declared_codes_def toString_def category_def categoryName_def codeName_def
      code_defs)

text \<open>
  The texts are told apart by their length and one byte, so that the proof does not compare
  them byte by byte.
\<close>

lemma distinct_by_key: "distinct (map (k \<circ> f) xs) \<Longrightarrow> distinct (map f xs)"
  by (metis distinct_map map_map)

lemma distinct_codeErrorText: "distinct (map codeErrorText declared_codes)"
  by (rule distinct_by_key [where k = "\<lambda>s. (length s, map of_char (take 1 (drop 5 s)) :: nat list)"])
    (simp add: declared_codes_def codeErrorText_def code_defs utf8_def)

end
