(* ===== verification/Wire.thy ===== *)
theory Wire
  imports Codes
begin

text \<open>
  The primitive packers of \<^verbatim>\<open>include/messages.hpp\<close>: length-prefixed byte strings, 32-bit
  numbers in network order, 64-bit numbers byte by byte. A reader takes the offset and the
  body and returns the value with the new offset, or the exception it throws. Offsets are
  \<open>nat\<close>: every one that is ever formed is at most the size of a vector plus \<open>2 ^ 32 + 4\<close>,
  which a 64-bit \<^verbatim>\<open>size_t\<close> holds.
\<close>

section \<open>Host and network byte order\<close>

datatype byte_order = LittleEndian | BigEndian

text \<open>The four bytes of a \<^verbatim>\<open>uint32_t\<close> in memory, lowest address first, and their value.\<close>

fun mem_of_u32 :: "byte_order \<Rightarrow> u32 \<Rightarrow> bytes" where
  "mem_of_u32 LittleEndian w =
     [ucast w, ucast (drop_bit 8 w), ucast (drop_bit 16 w), ucast (drop_bit 24 w)]"
| "mem_of_u32 BigEndian w =
     [ucast (drop_bit 24 w), ucast (drop_bit 16 w), ucast (drop_bit 8 w), ucast w]"

fun u32_of_mem :: "byte_order \<Rightarrow> bytes \<Rightarrow> u32" where
  "u32_of_mem LittleEndian bs =
     ucast (bs ! 0) OR push_bit 8 (ucast (bs ! 1)) OR push_bit 16 (ucast (bs ! 2))
       OR push_bit 24 (ucast (bs ! 3))"
| "u32_of_mem BigEndian bs =
     push_bit 24 (ucast (bs ! 0)) OR push_bit 16 (ucast (bs ! 1)) OR push_bit 8 (ucast (bs ! 2))
       OR ucast (bs ! 3)"

text \<open>\<^verbatim>\<open>htonl\<close> and \<^verbatim>\<open>ntohl\<close> swap the bytes on a little-endian host only.\<close>

definition byteswap32 :: "u32 \<Rightarrow> u32" where
  "byteswap32 w = u32_of_mem BigEndian (mem_of_u32 LittleEndian w)"

fun htonl :: "byte_order \<Rightarrow> u32 \<Rightarrow> u32" where
  "htonl LittleEndian w = byteswap32 w"
| "htonl BigEndian w = w"

fun ntohl :: "byte_order \<Rightarrow> u32 \<Rightarrow> u32" where
  "ntohl LittleEndian w = byteswap32 w"
| "ntohl BigEndian w = w"

text \<open>
  What \<^verbatim>\<open>htonl\<close> followed by \<^verbatim>\<open>memcpy\<close> stores, and what \<^verbatim>\<open>memcpy\<close> followed by
  \<^verbatim>\<open>ntohl\<close> reads, on every host: the big-endian bytes.
\<close>

definition net_bytes :: "u32 \<Rightarrow> bytes" where
  "net_bytes w = [ucast (drop_bit 24 w), ucast (drop_bit 16 w), ucast (drop_bit 8 w), ucast w]"

definition net_u32 :: "bytes \<Rightarrow> u32" where
  "net_u32 bs = push_bit 24 (ucast (bs ! 0)) OR push_bit 16 (ucast (bs ! 1))
     OR push_bit 8 (ucast (bs ! 2)) OR ucast (bs ! 3)"

section \<open>Reading a body\<close>

text \<open>
  The three ways in which the code reads a vector of bytes. None of them tests its bounds: an
  access outside the vector is undefined, and that is an outcome here.
\<close>

definition memcpy_from :: "bytes \<Rightarrow> nat \<Rightarrow> nat \<Rightarrow> fault + bytes" where
  "memcpy_from body offset n =
    (if offset + n > length body then Inl (Undefined ''memcpy past the end of the body'')
     else Inr (take n (drop offset body)))"

definition iterator_range :: "bytes \<Rightarrow> nat \<Rightarrow> nat \<Rightarrow> fault + bytes" where
  "iterator_range body lo hi =
    (if hi < lo \<or> hi > length body
     then Inl (Undefined ''iterator past the end of the body'')
     else Inr (take (hi - lo) (drop lo body)))"

definition byte_at :: "bytes \<Rightarrow> nat \<Rightarrow> fault + byte" where
  "byte_at body i =
    (if i \<ge> length body then Inl (Undefined ''index past the end of the body'') else Inr (body ! i))"

section \<open>Packing and unpacking\<close>

definition pack :: "bytes \<Rightarrow> bytes \<Rightarrow> bytes" where
  "pack body data = body @ net_bytes (of_nat (length data)) @ data"

type_synonym 'a reader = "nat \<Rightarrow> bytes \<Rightarrow> fault + 'a \<times> nat"

definition unpackBytes :: "bytes reader" where
  "unpackBytes offset body =
    (if offset + 4 > length body then Inl (RuntimeError ''unpack: out of bounds'')
     else
       (case memcpy_from body offset 4 of
          Inl f \<Rightarrow> Inl f
        | Inr mem \<Rightarrow>
            (let len = unat (net_u32 mem);
                 offset1 = offset + 4
             in if offset1 + len > length body
                then Inl (RuntimeError ''unpack: out of bounds reading value'')
                else
                  (case iterator_range body offset1 (offset1 + len) of
                     Inl f \<Rightarrow> Inl f
                   | Inr val \<Rightarrow> Inr (val, offset1 + length val)))))"

definition unpack :: "string reader" where
  "unpack offset body =
    (if offset + 4 > length body then Inl (RuntimeError ''unpack: out of bounds'')
     else
       (case memcpy_from body offset 4 of
          Inl f \<Rightarrow> Inl f
        | Inr mem \<Rightarrow>
            (let len = unat (net_u32 mem);
                 offset1 = offset + 4
             in if offset1 + len > length body
                then Inl (RuntimeError ''unpack: out of bounds reading value'')
                else
                  (case iterator_range body offset1 (offset1 + len) of
                     Inl f \<Rightarrow> Inl f
                   | Inr chars \<Rightarrow>
                       (let val = map char_of_byte chars
                        in Inr (val, offset1 + length val))))))"

definition stringToBytes :: "string \<Rightarrow> bytes" where
  "stringToBytes str = map byte_of_char str"

definition pack_ui32 :: "bytes \<Rightarrow> u32 \<Rightarrow> bytes" where
  "pack_ui32 body value = body @ net_bytes value"

definition unpack_ui32 :: "u32 reader" where
  "unpack_ui32 offset body =
    (if offset + 4 > length body then Inl (RuntimeError ''unpack: out of bounds'')
     else
       (case memcpy_from body offset 4 of
          Inl f \<Rightarrow> Inl f
        | Inr mem \<Rightarrow> Inr (net_u32 mem, offset + 4)))"

text \<open>
  \<^verbatim>\<open>value >> (8 * i)\<close> on a signed value is an arithmetic shift; the mask and the cast keep
  the low byte. The loops run over \<open>i = 7, \<dots>, 0\<close> and \<open>i = 0, \<dots>, 7\<close>.
\<close>

definition pack_i64 :: "bytes \<Rightarrow> i64 \<Rightarrow> bytes" where
  "pack_i64 body value =
     fold (\<lambda>i b. b @ [ucast (signed_drop_bit (8 * i) value AND 0xFF)]) (rev [0..<8]) body"

fun shift_in :: "bytes \<Rightarrow> nat \<Rightarrow> nat list \<Rightarrow> i64 \<Rightarrow> fault + i64" where
  "shift_in body offset [] v = Inr v"
| "shift_in body offset (i # is) v =
     (case byte_at body (offset + i) of
        Inl f \<Rightarrow> Inl f
      | Inr b \<Rightarrow> shift_in body offset is (push_bit 8 v OR ucast b))"

definition unpack_i64 :: "i64 reader" where
  "unpack_i64 offset body =
    (if offset + 8 > length body then Inl (RuntimeError ''unpack: out of bounds'')
     else
       (case shift_in body offset [0..<8] 0 of
          Inl f \<Rightarrow> Inl f
        | Inr v \<Rightarrow> Inr (v, offset + 8)))"

section \<open>Reads stay inside the body\<close>

text \<open>The tests of the readers come before every access, so that no access is undefined.\<close>

definition bounds_fault :: "fault \<Rightarrow> bool" where
  "bounds_fault f \<longleftrightarrow>
     f \<in> {RuntimeError ''unpack: out of bounds'', RuntimeError ''unpack: out of bounds reading value''}"

lemma bounds_fault_runtime: "bounds_fault f \<Longrightarrow> \<exists>m. f = RuntimeError m"
  by (auto simp: bounds_fault_def)

lemma shift_in_run:
  "\<forall>i \<in> set is. offset + i < length body \<Longrightarrow>
    shift_in body offset is v = Inr (fold (\<lambda>i v. push_bit 8 v OR ucast (body ! (offset + i))) is v)"
  by (induction "is" arbitrary: v) (simp_all add: byte_at_def)

lemma unpackBytes_run:
  "unpackBytes offset body =
    (if offset + 4 > length body then Inl (RuntimeError ''unpack: out of bounds'')
     else if offset + 4 + unat (net_u32 (take 4 (drop offset body))) > length body
     then Inl (RuntimeError ''unpack: out of bounds reading value'')
     else Inr (take (unat (net_u32 (take 4 (drop offset body)))) (drop (offset + 4) body),
       offset + 4 + unat (net_u32 (take 4 (drop offset body)))))"
  by (simp add: unpackBytes_def memcpy_from_def iterator_range_def Let_def)

lemma unpack_eq_unpackBytes:
  "unpack offset body = map_sum id (map_prod (map char_of_byte) id) (unpackBytes offset body)"
  by (simp add: unpack_def unpackBytes_def memcpy_from_def iterator_range_def Let_def)

lemma unpack_ui32_run:
  "unpack_ui32 offset body =
    (if offset + 4 > length body then Inl (RuntimeError ''unpack: out of bounds'')
     else Inr (net_u32 (take 4 (drop offset body)), offset + 4))"
  by (simp add: unpack_ui32_def memcpy_from_def)

lemma unpack_i64_run:
  "unpack_i64 offset body =
    (if offset + 8 > length body then Inl (RuntimeError ''unpack: out of bounds'')
     else Inr (fold (\<lambda>i v. push_bit 8 v OR ucast (body ! (offset + i))) [0..<8] 0, offset + 8))"
  by (simp add: unpack_i64_def shift_in_run del: upt_Suc)

text \<open>The readers, from whatever offset.\<close>

lemma unpackBytes_bounds:
  "case unpackBytes offset body of Inl f \<Rightarrow> bounds_fault f
    | Inr (v, offset') \<Rightarrow> offset' = offset + 4 + length v \<and> offset' \<le> length body"
  by (simp add: unpackBytes_run bounds_fault_def)

lemma unpack_bounds:
  "case unpack offset body of Inl f \<Rightarrow> bounds_fault f
    | Inr (v, offset') \<Rightarrow> offset' = offset + 4 + length v \<and> offset' \<le> length body"
  by (simp add: unpack_eq_unpackBytes unpackBytes_run bounds_fault_def)

lemma unpack_ui32_bounds:
  "case unpack_ui32 offset body of Inl f \<Rightarrow> bounds_fault f
    | Inr (v, offset') \<Rightarrow> offset' = offset + 4 \<and> offset' \<le> length body"
  by (simp add: unpack_ui32_run bounds_fault_def)

lemma unpack_i64_bounds:
  "case unpack_i64 offset body of Inl f \<Rightarrow> bounds_fault f
    | Inr (v, offset') \<Rightarrow> offset' = offset + 8 \<and> offset' \<le> length body"
  by (simp add: unpack_i64_run bounds_fault_def del: upt_Suc)

section \<open>Byte order and number facts\<close>

lemma length_net_bytes [simp]: "length (net_bytes w) = 4"
  by (simp add: net_bytes_def)

lemma net_u32_net_bytes [simp]: "net_u32 (net_bytes w) = w"
proof (rule bit_word_eqI)
  fix n assume "n < LENGTH(32)"
  then consider "n < 8" | "8 \<le> n \<and> n < 16" | "16 \<le> n \<and> n < 24" | "24 \<le> n \<and> n < 32"
    by fastforce
  then show "bit (net_u32 (net_bytes w)) n = bit w n"
    by cases (auto simp: net_u32_def net_bytes_def bit_simps)
qed

lemma length_4_conv: "length bs = 4 \<longleftrightarrow> (\<exists>a b c d. bs = [a, b, c, d])"
  by (auto simp: length_Suc_conv numeral_eq_Suc)

lemma byte_bit_high [simp]: "8 \<le> m \<Longrightarrow> \<not> bit (b :: byte) m"
  using bit_imp_le_length [of b m] by fastforce

lemma net_bytes_net_u32 [simp]:
  assumes "length bs = 4"
  shows "net_bytes (net_u32 bs) = bs"
proof -
  obtain a b c d where bs: "bs = [a, b, c, d]" using assms by (auto simp: length_4_conv)
  have "ucast (drop_bit 24 (net_u32 bs)) = a" "ucast (drop_bit 16 (net_u32 bs)) = b"
    "ucast (drop_bit 8 (net_u32 bs)) = c" "ucast (net_u32 bs) = d"
    by (rule bit_word_eqI, simp add: net_u32_def bs bit_simps)+
  then show ?thesis by (simp add: net_bytes_def bs)
qed

lemma net_bytes_inj [simp]: "net_bytes v = net_bytes w \<longleftrightarrow> v = w"
  by (metis net_u32_net_bytes)

lemma net_u32_mem: "net_u32 bs = u32_of_mem BigEndian bs"
  by (simp add: net_u32_def)

lemma net_bytes_mem: "net_bytes w = mem_of_u32 BigEndian w"
  by (simp add: net_bytes_def)

text \<open>The bytes of a swapped word, read back to front, are those of the word.\<close>

lemma mem_little_rev: "mem_of_u32 LittleEndian w = rev (mem_of_u32 BigEndian w)"
  by simp

lemma byteswap32_net: "byteswap32 w = net_u32 (rev (net_bytes w))"
  by (simp add: byteswap32_def net_u32_mem net_bytes_def)

lemma net_bytes_byteswap: "net_bytes (byteswap32 w) = rev (net_bytes w)"
  by (simp add: byteswap32_net)

lemma mem_htonl: "mem_of_u32 h (htonl h w) = net_bytes w"
proof (cases h)
  case LittleEndian
  have "mem_of_u32 LittleEndian (byteswap32 w) = rev (net_bytes (byteswap32 w))"
    by (simp add: net_bytes_mem)
  with LittleEndian show ?thesis by (simp only: htonl.simps net_bytes_byteswap rev_rev_ident)
next
  case BigEndian
  then show ?thesis by (simp add: net_bytes_mem)
qed

lemma ntohl_mem:
  assumes "length bs = 4"
  shows "ntohl h (u32_of_mem h bs) = net_u32 bs"
proof (cases h)
  case LittleEndian
  obtain a b c d where bs: "bs = [a, b, c, d]" using assms by (auto simp: length_4_conv)
  have "u32_of_mem LittleEndian bs = net_u32 (rev bs)"
    by (simp add: net_u32_def bs ac_simps)
  then show ?thesis using LittleEndian assms by (simp add: byteswap32_net)
next
  case BigEndian
  then show ?thesis by (simp add: net_u32_mem)
qed

lemma stringToBytes_inverse [simp]: "map char_of_byte (stringToBytes s) = s"
  by (simp only: stringToBytes_def map_char_of_byte_of_char)

lemma stringToBytes_of_bytes [simp]: "stringToBytes (map char_of_byte bs) = bs"
  by (simp only: stringToBytes_def map_byte_of_char_of_byte)

lemma length_stringToBytes [simp]: "length (stringToBytes s) = length s"
  by (simp add: stringToBytes_def)

section \<open>Round trips of the primitives\<close>

definition fits32 :: "nat \<Rightarrow> bool" where
  "fits32 n \<longleftrightarrow> n < 2 ^ 32"

lemma unat_of_nat_fits32 [simp]: "fits32 n \<Longrightarrow> unat (of_nat n :: u32) = n"
  by (simp add: fits32_def unat_of_nat)

lemma fits32_unat [simp]: "fits32 (unat (w :: u32))"
proof -
  have "unat w < 2 ^ LENGTH(32)" by (rule unsigned_less)
  then show ?thesis by (simp add: fits32_def)
qed

text \<open>What the packers append.\<close>

definition enc_bytes :: "bytes \<Rightarrow> bytes" where
  "enc_bytes data = net_bytes (of_nat (length data)) @ data"

definition enc_i64 :: "i64 \<Rightarrow> bytes" where
  "enc_i64 v = map (\<lambda>i. ucast (drop_bit (8 * (7 - i)) v)) [0..<8]"

lemma pack_append: "pack body data = body @ enc_bytes data"
  by (simp add: pack_def enc_bytes_def)

lemma length_enc_i64 [simp]: "length (enc_i64 v) = 8"
  by (simp add: enc_i64_def)

lemma byte_signed_drop:
  assumes "i \<le> 7"
  shows "(ucast (signed_drop_bit (8 * i) v AND 0xFF) :: byte)
    = ucast (drop_bit (8 * i) (v :: i64))"
proof -
  have mask: "(0xFF :: i64) = mask 8" by (simp add: mask_eq_exp_minus_1)
  show ?thesis
  proof (rule bit_word_eqI)
    fix n assume n: "n < LENGTH(8)"
    then have "8 * i + n < 64" using assms by simp
    with n show "bit (ucast (signed_drop_bit (8 * i) v AND 0xFF) :: byte) n =
        bit (ucast (drop_bit (8 * i) v) :: byte) n"
      by (auto simp: mask bit_simps)
  qed
qed

lemma fold_append_map: "fold (\<lambda>x b. b @ [f x]) xs body = body @ map f xs"
  by (induction xs arbitrary: body) simp_all

lemma pack_i64_append: "pack_i64 body v = body @ enc_i64 v"
proof -
  have idx: "rev [0..<8] = map (\<lambda>i. 7 - i) [0..<8 :: nat]" by code_simp
  have "map (\<lambda>i. ucast (signed_drop_bit (8 * i) v AND 0xFF) :: byte) (rev [0..<8]) = enc_i64 v"
    unfolding idx enc_i64_def by (simp add: byte_signed_drop del: upt_Suc)
  then show ?thesis by (simp only: pack_i64_def fold_append_map)
qed

text \<open>Reading \<open>k\<close> of the eight bytes gives the upper \<open>8 * k\<close> bits of the number.\<close>

lemma shift_in_byte: "push_bit 8 (drop_bit 8 x) OR ucast (ucast x :: byte) = (x :: i64)"
  by (rule bit_word_eqI) (auto simp: bit_simps)

lemma unpack_i64_prefix:
  assumes "\<And>i. i < 8 \<Longrightarrow> f i = ucast (drop_bit (8 * (7 - i)) (v :: i64))" and "k \<le> 8"
  shows "fold (\<lambda>i w. push_bit 8 w OR ucast (f i :: byte)) [0..<k] 0 = drop_bit (64 - 8 * k) v"
  using assms(2)
proof (induction k)
  case 0
  have "drop_bit 64 v = 0" by (rule bit_word_eqI) (simp add: bit_simps)
  then show ?case by simp
next
  case (Suc k)
  let ?d = "8 * (7 - k)"
  have d: "64 - 8 * k = ?d + 8" "64 - 8 * Suc k = ?d" using Suc.prems by simp_all
  have "drop_bit (64 - 8 * k) v = drop_bit 8 (drop_bit ?d v)"
    by (simp only: d drop_bit_drop_bit add.commute)
  then have "fold (\<lambda>i w. push_bit 8 w OR ucast (f i)) [0..<Suc k] 0
      = push_bit 8 (drop_bit 8 (drop_bit ?d v)) OR ucast (ucast (drop_bit ?d v) :: byte)"
    using Suc assms(1) [of k] by simp
  also have "\<dots> = drop_bit (64 - 8 * Suc k) v" by (simp only: shift_in_byte d)
  finally show ?case .
qed

lemma unpack_i64_enc:
  "unpack_i64 (length pre) (pre @ enc_i64 v @ post) = Inr (v, length pre + length (enc_i64 v))"
proof -
  have "(pre @ enc_i64 v @ post) ! (length pre + i) = ucast (drop_bit (8 * (7 - i)) v)"
    if "i < 8" for i
    using that by (simp add: nth_append enc_i64_def)
  from unpack_i64_prefix [where f = "\<lambda>i. (pre @ enc_i64 v @ post) ! (length pre + i)"
      and k = 8 and v = v, OF this]
  show ?thesis by (simp add: unpack_i64_run)
qed

lemma unpackBytes_enc:
  "fits32 (length data) \<Longrightarrow>
    unpackBytes (length pre) (pre @ enc_bytes data @ post)
      = Inr (data, length pre + length (enc_bytes data))"
  by (simp add: unpackBytes_run enc_bytes_def Let_def)

lemma unpack_enc:
  "fits32 (length str) \<Longrightarrow>
    unpack (length pre) (pre @ enc_bytes (stringToBytes str) @ post)
      = Inr (str, length pre + length (enc_bytes (stringToBytes str)))"
  by (simp add: unpack_eq_unpackBytes unpackBytes_enc)

lemma unpack_ui32_enc:
  "unpack_ui32 (length pre) (pre @ net_bytes w @ post) = Inr (w, length pre + length (net_bytes w))"
  by (simp add: unpack_ui32_run)

text \<open>Conversely, what a successful read consumed is the encoding of what it returned.\<close>

lemma unpackBytes_sound:
  assumes "unpackBytes (length pre) (pre @ s) = Inr (data, off)"
  shows "\<exists>post. s = enc_bytes data @ post \<and> fits32 (length data)
    \<and> off = length pre + length (enc_bytes data)"
proof -
  let ?n = "unat (net_u32 (take 4 s))"
  have four: "length (take 4 s) = 4" and fit: "4 + ?n \<le> length s"
    and data: "data = take ?n (drop 4 s)" and off: "off = length pre + 4 + ?n"
    using assms unfolding unpackBytes_run Let_def by (simp_all split: if_splits)
  have len: "length data = ?n" using fit data by simp
  then have "of_nat (length data) = net_u32 (take 4 s)" by simp
  then have "net_bytes (of_nat (length data)) = take 4 s" using four by simp
  moreover have "s = take 4 s @ take ?n (drop 4 s) @ drop ?n (drop 4 s)"
    by (simp only: append_take_drop_id)
  ultimately have "s = enc_bytes data @ drop ?n (drop 4 s)"
    by (simp only: enc_bytes_def data append_assoc)
  then show ?thesis using len off by (auto simp: enc_bytes_def)
qed

lemma unpack_ui32_sound:
  assumes "unpack_ui32 (length pre) (pre @ s) = Inr (w, off)"
  shows "\<exists>post. s = net_bytes w @ post \<and> off = length pre + length (net_bytes w)"
proof -
  have "length (take 4 s) = 4" "w = net_u32 (take 4 s)" "off = length pre + 4"
    using assms by (auto simp: unpack_ui32_run split: if_splits)
  then show ?thesis by (metis append_take_drop_id length_net_bytes net_bytes_net_u32)
qed

end
