(* ===== verification/Crypto.thy ===== *)
theory Crypto
  imports Wire
begin

text \<open>
  What the program takes from outside (clock, UUID generator, OpenSSL, the limits of SQLite
  and of the file system) as one record of parameters, and \<^verbatim>\<open>include/crypto.hpp\<close> over it.
\<close>

section \<open>Environment\<close>

text \<open>
  Every reading of the clock, every UUID and every block of random bytes is numbered, so two
  readings may differ. An OpenSSL cipher context is given by the calls made on it: the
  functions take the key, the initialisation vector and the data fed so far.
\<close>

record env =
  clock :: "nat \<Rightarrow> int"
  uuid :: "nat \<Rightarrow> string"
  SHA256 :: "bytes \<Rightarrow> bytes"
  RAND_bytes :: "nat \<Rightarrow> nat \<Rightarrow> bytes option"
  EVP_CTX_new :: bool
  EVP_EncryptInit :: "bytes \<Rightarrow> bytes \<Rightarrow> bool"
  EVP_EncryptUpdate :: "bytes \<Rightarrow> bytes \<Rightarrow> bytes \<Rightarrow> bytes option"
  EVP_EncryptFinal :: "bytes \<Rightarrow> bytes \<Rightarrow> bytes \<Rightarrow> bytes option"
  EVP_DecryptInit :: "bytes \<Rightarrow> bytes \<Rightarrow> bool"
  EVP_DecryptUpdate :: "bytes \<Rightarrow> bytes \<Rightarrow> bytes \<Rightarrow> bytes option"
  EVP_DecryptFinal :: "bytes \<Rightarrow> bytes \<Rightarrow> bytes \<Rightarrow> bytes option"
  max_variables :: nat
  can_write :: "string \<Rightarrow> bool"
  can_read :: "string \<Rightarrow> bool"

section \<open>Digest\<close>

definition hex_digit :: "nat \<Rightarrow> char" where
  "hex_digit n = ''0123456789abcdef'' ! n"

text \<open>\<^verbatim>\<open>std::hex << std::setw(2) << std::setfill('0')\<close> of a byte.\<close>

definition hex_byte :: "byte \<Rightarrow> string" where
  "hex_byte b = [hex_digit (unat b div 16), hex_digit (unat b mod 16)]"

definition SHA256_DIGEST_LENGTH :: nat where
  "SHA256_DIGEST_LENGTH = 32"

definition sha256 :: "env \<Rightarrow> string \<Rightarrow> string" where
  "sha256 E input =
     concat (map hex_byte (take SHA256_DIGEST_LENGTH (SHA256 E (stringToBytes input))))"

section \<open>Cipher\<close>

definition SERVER_KEY :: bytes where
  "SERVER_KEY = replicate 32 0x42"

text \<open>
  The library takes the length of its input as an \<^verbatim>\<open>int\<close>; a \<^verbatim>\<open>size_t\<close> is converted, and a
  negative length fails.
\<close>

definition int_of_size :: "nat \<Rightarrow> int" where
  "int_of_size n = sint (of_nat n :: u32)"

text \<open>
  The state of \<^verbatim>\<open>encryptAES\<close> is the number of random blocks drawn. Writing more than the
  output vector holds would be undefined.
\<close>

definition encryptAES :: "env \<Rightarrow> bytes \<Rightarrow> bytes \<Rightarrow> (fault, nat, bytes) prog" where
  "encryptAES E plaintext key =
    (if length key \<noteq> 32 then throw (InvalidArgument ''Key must be 32 bytes for AES-256'')
     else
      bnd (gets (\<lambda>k. RAND_bytes E k 16)) (\<lambda>random. bnd (modify Suc) (\<lambda>_.
      case random of
        None \<Rightarrow> throw (RuntimeError ''Failed to generate IV using RAND_bytes'')
      | Some iv \<Rightarrow>
        (if \<not> EVP_CTX_new E then throw (RuntimeError ''Failed to create cipher context'')
         else if \<not> EVP_EncryptInit E key iv
         then throw (RuntimeError ''Failed to initialize encryption'')
         else if int_of_size (length plaintext) < 0 then throw (RuntimeError ''Encryption failed'')
         else
          let input = take (nat (int_of_size (length plaintext))) plaintext in
          case EVP_EncryptUpdate E key iv input of
            None \<Rightarrow> throw (RuntimeError ''Encryption failed'')
          | Some out1 \<Rightarrow>
            (case EVP_EncryptFinal E key iv input of
              None \<Rightarrow> throw (RuntimeError ''Finalization failed'')
            | Some out2 \<Rightarrow>
                if length out1 + length out2 > length plaintext + 16
                then throw (Undefined ''write past the end of the ciphertext'')
                else ret (iv @ out1 @ out2))))))"

definition decryptAES :: "env \<Rightarrow> bytes \<Rightarrow> bytes \<Rightarrow> fault + bytes" where
  "decryptAES E ciphertext_with_iv key =
    (if length key \<noteq> 32 then Inl (InvalidArgument ''Key must be 32 bytes for AES-256'')
     else if length ciphertext_with_iv < 16
     then Inl (InvalidArgument ''Ciphertext too short: less than 16 bytes for IV'')
     else
      let iv = take 16 ciphertext_with_iv;
          ciphertext = drop 16 ciphertext_with_iv
      in
        if \<not> EVP_CTX_new E then Inl (RuntimeError ''Failed to create cipher context'')
        else if \<not> EVP_DecryptInit E key iv
        then Inl (RuntimeError ''Failed to initialize decryption'')
        else if int_of_size (length ciphertext) < 0 then Inl (RuntimeError ''Decryption failed'')
        else
          let input = take (nat (int_of_size (length ciphertext))) ciphertext in
          case EVP_DecryptUpdate E key iv input of
            None \<Rightarrow> Inl (RuntimeError ''Decryption failed'')
          | Some out1 \<Rightarrow>
            (case EVP_DecryptFinal E key iv input of
              None \<Rightarrow> Inl (RuntimeError
                ''Decryption finalization failed - wrong key or corrupted data'')
            | Some out2 \<Rightarrow>
                if length out1 + length out2 > length ciphertext
                then Inl (Undefined ''write past the end of the plaintext'')
                else Inr (out1 @ out2)))"

section \<open>Contracts of the libraries\<close>

text \<open>\<^verbatim>\<open>SHA256\<close> writes 32 bytes.\<close>

definition sha_contract :: "env \<Rightarrow> bool" where
  "sha_contract E \<longleftrightarrow> (\<forall>m. length (SHA256 E m) = 32)"

text \<open>\<^verbatim>\<open>RAND_bytes\<close> fills the buffer it is given, or fails.\<close>

definition rand_contract :: "env \<Rightarrow> bool" where
  "rand_contract E \<longleftrightarrow> (\<forall>k n bs. RAND_bytes E k n = Some bs \<longrightarrow> length bs = n)"

text \<open>
  AES-256-CBC with padding under a 32-byte key and a 16-byte vector: encryption adds 1
  to 16 bytes of padding, and decryption of an encryption gives the input back. The lengths are
  of type \<^verbatim>\<open>int\<close> there, so this holds where that of the output fits.
\<close>

definition evp_contract :: "env \<Rightarrow> bool" where
  "evp_contract E \<longleftrightarrow> EVP_CTX_new E \<and>
    (\<forall>key iv. length key = 32 \<and> length iv = 16 \<longrightarrow>
      EVP_EncryptInit E key iv \<and> EVP_DecryptInit E key iv \<and>
      (\<forall>pt. length pt + 16 < 2 ^ 31 \<longrightarrow> (\<exists>o1 o2 p1 p2.
         EVP_EncryptUpdate E key iv pt = Some o1 \<and> EVP_EncryptFinal E key iv pt = Some o2 \<and>
         length pt < length (o1 @ o2) \<and> length (o1 @ o2) \<le> length pt + 16 \<and>
         EVP_DecryptUpdate E key iv (o1 @ o2) = Some p1 \<and>
         EVP_DecryptFinal E key iv (o1 @ o2) = Some p2 \<and> p1 @ p2 = pt)))"

section \<open>Properties\<close>

lemma hex_digit_props:
  assumes "n < 16"
  shows "hex_digit n \<noteq> CHR 0x00" and "m < 16 \<Longrightarrow> hex_digit m = hex_digit n \<longleftrightarrow> m = n"
proof -
  have d: "distinct ''0123456789abcdef''" and nul: "CHR 0x00 \<notin> set ''0123456789abcdef''"
    by simp_all
  have len: "length ''0123456789abcdef'' = 16" by simp
  show "hex_digit n \<noteq> CHR 0x00" unfolding hex_digit_def
    using nul assms len by (metis nth_mem)
  show "m < 16 \<Longrightarrow> hex_digit m = hex_digit n \<longleftrightarrow> m = n" unfolding hex_digit_def
    using d assms len by (metis nth_eq_iff_index_eq)
qed

lemma unat_byte_less: "unat (b :: byte) < 256"
proof -
  have "unat b < 2 ^ LENGTH(8)" by (rule unsigned_less)
  then show ?thesis by simp
qed

lemma hex_byte_inj: "hex_byte a = hex_byte b \<longleftrightarrow> a = b"
proof
  assume eq: "hex_byte a = hex_byte b"
  have "unat a div 16 < 16" "unat b div 16 < 16" using unat_byte_less [of a] unat_byte_less [of b]
    by simp_all
  moreover have "unat a mod 16 < 16" "unat b mod 16 < 16" by simp_all
  ultimately have "unat a div 16 = unat b div 16" "unat a mod 16 = unat b mod 16"
    using eq hex_digit_props(2) by (auto simp: hex_byte_def)
  then have "unat a = unat b" by (metis div_mult_mod_eq)
  then show "a = b" by (simp add: word_unat_eq_iff)
qed simp

lemma hex_bytes_inj: "concat (map hex_byte xs) = concat (map hex_byte ys) \<longleftrightarrow> xs = ys"
proof (induction xs arbitrary: ys)
  case Nil
  then show ?case by (cases ys) (simp_all add: hex_byte_def)
next
  case (Cons x xs)
  have len: "length (hex_byte b) = 2" for b by (simp add: hex_byte_def)
  show ?case
    by (cases ys) (simp_all add: len Cons.IH hex_byte_inj append_eq_append_conv,
      simp add: hex_byte_def)
qed

lemma sha256_length: "sha_contract E \<Longrightarrow> length (sha256 E m) = 64"
proof -
  have "length (concat (map hex_byte bs)) = 2 * length bs" for bs
    by (induction bs) (simp_all add: hex_byte_def)
  then show "sha_contract E \<Longrightarrow> length (sha256 E m) = 64"
    by (simp add: sha256_def sha_contract_def SHA256_DIGEST_LENGTH_def)
qed

lemma sha256_no_nul: "CHR 0x00 \<notin> set (sha256 E m)"
proof -
  have "CHR 0x00 \<notin> set (hex_byte b)" for b
  proof -
    have "unat b div 16 < 16" "unat b mod 16 < 16" using unat_byte_less [of b] by simp_all
    from this [THEN hex_digit_props(1), THEN not_sym] show ?thesis by (simp add: hex_byte_def)
  qed
  then show ?thesis by (auto simp: sha256_def)
qed

lemma sha256_eq_iff:
  assumes "sha_contract E"
  shows "sha256 E m = sha256 E n \<longleftrightarrow> SHA256 E (stringToBytes m) = SHA256 E (stringToBytes n)"
proof -
  have "length (SHA256 E x) \<le> SHA256_DIGEST_LENGTH" for x
    using assms by (simp add: sha_contract_def SHA256_DIGEST_LENGTH_def)
  then show ?thesis by (simp add: sha256_def hex_bytes_inj)
qed

lemma int_of_size_small:
  assumes "n < 2 ^ 31"
  shows "int_of_size n = int n"
proof -
  have "sint (of_nat n :: u32) = signed_take_bit 31 (int n)"
    by (simp add: sint_sbintrunc' signed_of_nat)
  also have "\<dots> = int n" using assms by (intro signed_take_bit_int_eq_self) simp_all
  finally show ?thesis by (simp add: int_of_size_def)
qed

lemma encryptAES_run:
  assumes "evp_contract E" and "rand_contract E" and "length key = 32"
    and "RAND_bytes E k 16 = Some iv" and "length pt + 16 < 2 ^ 31"
  shows "\<exists>o1 o2. encryptAES E pt key k = (Inr (iv @ o1 @ o2), Suc k) \<and>
    EVP_EncryptUpdate E key iv pt = Some o1 \<and> EVP_EncryptFinal E key iv pt = Some o2"
proof -
  have iv: "length iv = 16" using assms(2,4) by (auto simp: rand_contract_def)
  with assms(1,3,5) obtain o1 o2 where
    "EVP_CTX_new E" "EVP_EncryptInit E key iv" "EVP_EncryptUpdate E key iv pt = Some o1"
    "EVP_EncryptFinal E key iv pt = Some o2" "length o1 + length o2 \<le> length pt + 16"
    unfolding evp_contract_def by (metis length_append)
  then show ?thesis
    using assms(3-5) by (simp add: encryptAES_def prog_simps int_of_size_small)
qed

lemma decrypt_encrypt:
  assumes "evp_contract E" and "rand_contract E" and "length key = 32"
    and "RAND_bytes E k 16 = Some iv" and "length pt + 16 < 2 ^ 31"
  shows "\<exists>ct. encryptAES E pt key k = (Inr ct, Suc k) \<and> decryptAES E ct key = Inr pt"
proof -
  from assms obtain o1 o2 where enc: "encryptAES E pt key k = (Inr (iv @ o1 @ o2), Suc k)"
    and o1: "EVP_EncryptUpdate E key iv pt = Some o1"
    and o2: "EVP_EncryptFinal E key iv pt = Some o2"
    using encryptAES_run [of E key k iv pt] by auto
  have iv: "length iv = 16" using assms(2,4) by (auto simp: rand_contract_def)
  with assms(1,3,5) o1 o2 obtain p1 p2 where
    facts: "EVP_CTX_new E" "EVP_DecryptInit E key iv" "length pt < length (o1 @ o2)"
    "length (o1 @ o2) \<le> length pt + 16"
    "EVP_DecryptUpdate E key iv (o1 @ o2) = Some p1"
    "EVP_DecryptFinal E key iv (o1 @ o2) = Some p2" and pt: "p1 @ p2 = pt"
    unfolding evp_contract_def by (metis option.inject)
  have "length p1 + length p2 < length (o1 @ o2)" using facts(3) pt by (metis length_append)
  moreover have "int_of_size (length (o1 @ o2)) = int (length (o1 @ o2))"
    using facts(4) assms(5) by (intro int_of_size_small) simp
  ultimately have "decryptAES E (iv @ o1 @ o2) key = Inr pt"
    using facts pt iv assms(3) by (simp add: decryptAES_def)
  with enc show ?thesis by blast
qed

end
