(* ===== verification/Files.thy ===== *)
theory Files
  imports Crypto
begin

text \<open>
  \<^verbatim>\<open>include/cast.hpp\<close>: reading and writing whole files. The file system is a map from path to
  content; a path is handed to the operating system as a C string. A stream that cannot be
  opened is not reported by the code.
\<close>

type_synonym files = "string \<Rightarrow> bytes option"

text \<open>
  The buffer has the size that \<^verbatim>\<open>std::filesystem::file_size\<close> gives, which throws for a file
  that does not exist; it stays zero when the stream cannot read.
\<close>

definition fileToBytes :: "env \<Rightarrow> string \<Rightarrow> (fault, files, bytes) prog" where
  "fileToBytes E file_name =
     bnd (gets (\<lambda>fs. fs (c_str file_name))) (\<lambda>file.
       case file of
         None \<Rightarrow> throw (FilesystemError file_name)
       | Some content \<Rightarrow>
           (let file_buffer = replicate (length content) 0
            in ret (if can_read E (c_str file_name) then content else file_buffer)))"

definition bytesToFile :: "env \<Rightarrow> string \<Rightarrow> bytes \<Rightarrow> (fault, files, unit) prog" where
  "bytesToFile E file_name bytes =
     modify (\<lambda>fs. if can_write E (c_str file_name) then fs(c_str file_name \<mapsto> bytes) else fs)"

lemma bytesToFile_run [prog_simps]:
  "bytesToFile E f bs fs = (Inr (), if can_write E (c_str f) then fs(c_str f \<mapsto> bs) else fs)"
  by (simp add: bytesToFile_def prog_simps)

lemma fileToBytes_missing: "fs (c_str f) = None \<Longrightarrow> fileToBytes E f fs = (Inl (FilesystemError f), fs)"
  by (simp add: fileToBytes_def prog_simps)

lemma fileToBytes_present:
  "fs (c_str f) = Some bs \<Longrightarrow> can_read E (c_str f) \<Longrightarrow> fileToBytes E f fs = (Inr bs, fs)"
  by (simp add: fileToBytes_def prog_simps)

text \<open>Reading never changes the file system.\<close>

lemma fileToBytes_state [simp]: "snd (fileToBytes E f fs) = fs"
  by (simp add: fileToBytes_def prog_simps bnd_def split: option.split)

lemma write_then_read:
  "can_write E (c_str f) \<Longrightarrow> can_read E (c_str f) \<Longrightarrow>
    bnd (bytesToFile E f bs) (\<lambda>_. fileToBytes E f) fs = (Inr bs, fs(c_str f \<mapsto> bs))"
  by (simp add: prog_simps fileToBytes_present)

end
