(* ===== verification/Serializer.thy ===== *)
theory Serializer
  imports Wire
begin

text \<open>
  The templates of \<^verbatim>\<open>include/messages.hpp\<close>: \<^verbatim>\<open>Serializer<T>\<close> for each \<open>T\<close> it dispatches on,
  the vector specialisation, \<^verbatim>\<open>serialize_tuple\<close> and \<^verbatim>\<open>deserialize_tuple\<close> over the tuple of
  a message's fields, and \<^verbatim>\<open>Serializable\<close>. The interface \<open>codec\<close> states what a writer
  and a reader of one type promise each other; tuples, vectors and nested messages of codecs
  are codecs again.
\<close>

section \<open>Serializer\<close>

type_synonym 'a writer = "bytes \<Rightarrow> 'a \<Rightarrow> bytes"

definition ser_string :: "string writer" where
  "ser_string body v = pack body (stringToBytes v)"

definition ser_bytes :: "bytes writer" where
  "ser_bytes body v = pack body v"

definition ser_bool :: "bool writer" where
  "ser_bool body v = ser_string body (if v then ''true'' else ''false'')"

definition ser_i64 :: "i64 writer" where
  "ser_i64 body v = pack_i64 body v"

definition ser_struct :: "('a \<Rightarrow> bytes) \<Rightarrow> 'a writer" where
  "ser_struct serialize_T body v = (let nested = serialize_T v in pack body nested)"

definition ser_error :: "error_code writer" where
  "ser_error body v = pack_ui32 body (code_value v)"

definition ser_vector :: "'a writer \<Rightarrow> 'a list writer" where
  "ser_vector ser body vec =
     fold (\<lambda>el b. ser b el) vec (body @ net_bytes (of_nat (length vec)))"

definition rd_string :: "string reader" where
  "rd_string offset body = unpack offset body"

definition rd_bytes :: "bytes reader" where
  "rd_bytes offset body = unpackBytes offset body"

definition rd_bool :: "bool reader" where
  "rd_bool offset body =
     (case rd_string offset body of Inl e \<Rightarrow> Inl e | Inr (str, off) \<Rightarrow> Inr (str = ''true'', off))"

definition rd_i64 :: "i64 reader" where
  "rd_i64 offset body = unpack_i64 offset body"

definition rd_struct :: "(bytes \<Rightarrow> fault + 'a) \<Rightarrow> 'a reader" where
  "rd_struct deserialize_T offset body =
     (case unpackBytes offset body of Inl e \<Rightarrow> Inl e
      | Inr (nested, off) \<Rightarrow>
          (case deserialize_T nested of Inl e \<Rightarrow> Inl e | Inr v \<Rightarrow> Inr (v, off)))"

definition rd_error :: "error_code reader" where
  "rd_error offset body =
     (case unpack_ui32 offset body of Inl e \<Rightarrow> Inl e | Inr (w, off) \<Rightarrow> Inr (ErrorCode w, off))"

text \<open>
  The vector reader copies the four bytes of the size without looking at the end of the
  body: past it, the copy is undefined. Then every element of the resized vector is read.
\<close>

fun rd_elems :: "'a reader \<Rightarrow> nat \<Rightarrow> 'a list reader" where
  "rd_elems rd 0 offset body = Inr ([], offset)"
| "rd_elems rd (Suc n) offset body =
     (case rd offset body of Inl e \<Rightarrow> Inl e
      | Inr (x, off) \<Rightarrow>
          (case rd_elems rd n off body of Inl e \<Rightarrow> Inl e
           | Inr (xs, off') \<Rightarrow> Inr (x # xs, off')))"

definition rd_vector :: "'a reader \<Rightarrow> 'a list reader" where
  "rd_vector rd offset body =
    (case memcpy_from body offset 4 of
       Inl f \<Rightarrow> Inl f
     | Inr mem \<Rightarrow> rd_elems rd (unat (net_u32 mem)) (offset + 4) body)"

section \<open>Tuples and messages\<close>

text \<open>
  A tuple of fields is a nested pair; the fold expressions of \<^verbatim>\<open>serialize_tuple\<close> and
  \<^verbatim>\<open>deserialize_tuple\<close> go through it from the left.
\<close>

fun ser_pair :: "'a writer \<Rightarrow> 'b writer \<Rightarrow> ('a \<times> 'b) writer" where
  "ser_pair s1 s2 body (x, y) = s2 (s1 body x) y"

definition rd_pair :: "'a reader \<Rightarrow> 'b reader \<Rightarrow> ('a \<times> 'b) reader" where
  "rd_pair r1 r2 offset body =
     (case r1 offset body of Inl e \<Rightarrow> Inl e
      | Inr (x, off) \<Rightarrow>
          (case r2 off body of Inl e \<Rightarrow> Inl e | Inr (y, off') \<Rightarrow> Inr ((x, y), off')))"

text \<open>
  \<^verbatim>\<open>Serializable::serialize\<close> starts from an empty body; \<^verbatim>\<open>Serializable::deserialize\<close> reads
  the fields from offset 0 and ignores what is left of the body.
\<close>

definition serialize :: "'a writer \<Rightarrow> 'a \<Rightarrow> bytes" where
  "serialize ser fields = ser [] fields"

definition deserialize :: "'a reader \<Rightarrow> ('a \<Rightarrow> 'r) \<Rightarrow> bytes \<Rightarrow> fault + 'r" where
  "deserialize rd obj body =
     (case rd 0 body of Inl e \<Rightarrow> Inl e | Inr (fields, off) \<Rightarrow> Inr (obj fields))"

section \<open>The codec interface\<close>

text \<open>
  A writer appends an encoding that does not depend on the body; the reader, wherever the
  encoding of a well-formed value stands in a body, returns the value and the offset behind.
\<close>

locale codec =
  fixes ser :: "'a writer"
    and rd :: "'a reader"
    and enc :: "'a \<Rightarrow> bytes"
    and wf :: "'a \<Rightarrow> bool"
  assumes ser_enc: "ser body x = body @ enc x"
    and rd_enc: "wf x \<Longrightarrow> rd (length pre) (pre @ enc x @ post) = Inr (x, length pre + length (enc x))"
begin

lemma serialize_enc: "serialize ser x = enc x"
  by (simp add: serialize_def ser_enc)

lemma deserialize_serialize:
  "wf x \<Longrightarrow> deserialize rd obj (serialize ser x @ junk) = Inr (obj x)"
  using rd_enc [of x "[]" junk] by (simp add: deserialize_def serialize_enc)

lemma ser_all: "fold (\<lambda>el b. ser b el) xs body = body @ concat (map enc xs)"
  by (induction xs arbitrary: body) (simp_all add: ser_enc)

lemma rd_elems_enc:
  "list_all wf xs \<Longrightarrow>
    rd_elems rd (length xs) (length pre) (pre @ concat (map enc xs) @ post)
      = Inr (xs, length pre + length (concat (map enc xs)))"
proof (induction xs arbitrary: pre)
  case Nil
  then show ?case by simp
next
  case (Cons x xs)
  then have "rd_elems rd (length xs) (length (pre @ enc x))
      ((pre @ enc x) @ concat (map enc xs) @ post)
      = Inr (xs, length (pre @ enc x) + length (concat (map enc xs)))"
    by (intro Cons.IH) simp
  with Cons.prems show ?case by (simp add: rd_enc)
qed

end

text \<open>
  A strict codec accepts nothing but encodings of well-formed values, whatever follows them.
\<close>

locale strict_codec = codec +
  assumes rd_sound: "rd (length pre) (pre @ s) = Inr (x, off) \<Longrightarrow>
    \<exists>post. s = enc x @ post \<and> wf x \<and> off = length pre + length (enc x)"
begin

lemma deserialize_iff:
  assumes "inj obj"
  shows "deserialize rd obj body = Inr (obj x)
    \<longleftrightarrow> wf x \<and> (\<exists>junk. body = serialize ser x @ junk)"
proof
  assume "deserialize rd obj body = Inr (obj x)"
  then obtain off where "rd 0 body = Inr (x, off)"
    using assms by (auto simp: deserialize_def inj_eq split: sum.splits)
  with rd_sound [of "[]" body x off] show "wf x \<and> (\<exists>junk. body = serialize ser x @ junk)"
    by (auto simp: serialize_enc)
next
  assume "wf x \<and> (\<exists>junk. body = serialize ser x @ junk)"
  then show "deserialize rd obj body = Inr (obj x)"
    by (auto simp: deserialize_serialize)
qed

lemma deserialize_accepts:
  "inj obj \<Longrightarrow> obj x = r \<Longrightarrow>
    deserialize rd obj body = Inr r \<longleftrightarrow> wf x \<and> (\<exists>junk. body = serialize ser x @ junk)"
  using deserialize_iff by blast

end

section \<open>Codecs of the field types\<close>

definition wf_string :: "string \<Rightarrow> bool" where
  "wf_string s \<longleftrightarrow> fits32 (length s)"

definition wf_bytes :: "bytes \<Rightarrow> bool" where
  "wf_bytes bs \<longleftrightarrow> fits32 (length bs)"

definition enc_string :: "string \<Rightarrow> bytes" where
  "enc_string s = enc_bytes (stringToBytes s)"

definition enc_error :: "error_code \<Rightarrow> bytes" where
  "enc_error e = net_bytes (code_value e)"

fun enc_pair :: "('a \<Rightarrow> bytes) \<Rightarrow> ('b \<Rightarrow> bytes) \<Rightarrow> 'a \<times> 'b \<Rightarrow> bytes" where
  "enc_pair e1 e2 (x, y) = e1 x @ e2 y"

definition enc_vector :: "('a \<Rightarrow> bytes) \<Rightarrow> 'a list \<Rightarrow> bytes" where
  "enc_vector e xs = net_bytes (of_nat (length xs)) @ concat (map e xs)"

definition wf_vector :: "('a \<Rightarrow> bool) \<Rightarrow> 'a list \<Rightarrow> bool" where
  "wf_vector w xs \<longleftrightarrow> fits32 (length xs) \<and> list_all w xs"

interpretation strings: strict_codec ser_string rd_string enc_string wf_string
proof unfold_locales
  fix pre s x off
  assume "rd_string (length pre) (pre @ s) = Inr (x, off)"
  then obtain data where "unpackBytes (length pre) (pre @ s) = Inr (data, off)"
    and "x = map char_of_byte data"
    by (auto simp: rd_string_def unpack_eq_unpackBytes map_sum_def split: sum.splits)
  with unpackBytes_sound [of pre s data off]
  show "\<exists>post. s = enc_string x @ post \<and> wf_string x \<and> off = length pre + length (enc_string x)"
    by (auto simp: enc_string_def wf_string_def)
qed (simp_all add: ser_string_def pack_append enc_string_def rd_string_def wf_string_def unpack_enc)

interpretation byte_vectors: strict_codec ser_bytes rd_bytes enc_bytes wf_bytes
proof unfold_locales
  fix pre s x off
  assume "rd_bytes (length pre) (pre @ s) = Inr (x, off)"
  with unpackBytes_sound [of pre s x off]
  show "\<exists>post. s = enc_bytes x @ post \<and> wf_bytes x \<and> off = length pre + length (enc_bytes x)"
    by (auto simp: rd_bytes_def wf_bytes_def)
qed (simp_all add: ser_bytes_def pack_append rd_bytes_def wf_bytes_def unpackBytes_enc)

interpretation numbers: codec ser_i64 rd_i64 enc_i64 "\<lambda>_. True"
  by unfold_locales (simp_all only: ser_i64_def rd_i64_def pack_i64_append unpack_i64_enc)

interpretation errors: strict_codec ser_error rd_error enc_error "\<lambda>_. True"
proof unfold_locales
  fix pre s x off
  assume "rd_error (length pre) (pre @ s) = Inr (x, off)"
  then have "unpack_ui32 (length pre) (pre @ s) = Inr (code_value x, off)"
    by (auto simp: rd_error_def split: sum.splits)
  from unpack_ui32_sound [OF this]
  show "\<exists>post. s = enc_error x @ post \<and> True \<and> off = length pre + length (enc_error x)"
    by (simp add: enc_error_def)
next
  fix x pre post
  show "rd_error (length pre) (pre @ enc_error x @ post)
      = Inr (x, length pre + length (enc_error x))"
    using unpack_ui32_enc [of pre "code_value x" post] by (simp add: rd_error_def enc_error_def)
qed (simp add: ser_error_def pack_ui32_def enc_error_def)

text \<open>A boolean travels as a word; reading accepts any string and takes it for false.\<close>

interpretation booleans: codec ser_bool rd_bool
  "\<lambda>b. enc_string (if b then ''true'' else ''false'')" "\<lambda>_. True"
proof unfold_locales
  fix x pre post
  have "wf_string ''true''" "wf_string ''false''" by (simp_all add: wf_string_def fits32_def)
  then show "rd_bool (length pre) (pre @ enc_string (if x then ''true'' else ''false'') @ post)
      = Inr (x, length pre + length (enc_string (if x then ''true'' else ''false'')))"
    by (simp add: rd_bool_def strings.rd_enc)
qed (simp add: ser_bool_def strings.ser_enc)

section \<open>Composition\<close>

lemma codec_pairI:
  assumes "codec s1 r1 e1 w1" and "codec s2 r2 e2 w2"
  shows "codec (ser_pair s1 s2) (rd_pair r1 r2) (enc_pair e1 e2) (pred_prod w1 w2)"
proof (unfold_locales, goal_cases)
  case (1 body x)
  show ?case
    by (cases x) (simp add: codec.ser_enc [OF assms(1)] codec.ser_enc [OF assms(2)])
next
  case (2 x pre post)
  obtain a b where x: "x = (a, b)" by force
  have "r1 (length pre) (pre @ e1 a @ e2 b @ post) = Inr (a, length pre + length (e1 a))"
    using codec.rd_enc [OF assms(1), of a] 2 x by simp
  moreover have "r2 (length (pre @ e1 a)) ((pre @ e1 a) @ e2 b @ post)
      = Inr (b, length (pre @ e1 a) + length (e2 b))"
    using codec.rd_enc [OF assms(2), of b "pre @ e1 a"] 2 x by simp
  ultimately show ?case by (simp add: rd_pair_def x)
qed

lemma strict_codec_pairI:
  assumes "strict_codec s1 r1 e1 w1" and "strict_codec s2 r2 e2 w2"
  shows "strict_codec (ser_pair s1 s2) (rd_pair r1 r2) (enc_pair e1 e2) (pred_prod w1 w2)"
proof (intro strict_codec.intro strict_codec_axioms.intro)
  show "codec (ser_pair s1 s2) (rd_pair r1 r2) (enc_pair e1 e2) (pred_prod w1 w2)"
    by (intro codec_pairI strict_codec.axioms(1) [OF assms(1)] strict_codec.axioms(1) [OF assms(2)])
next
  fix pre s x off
  assume "rd_pair r1 r2 (length pre) (pre @ s) = Inr (x, off)"
  then obtain a b mid where x: "x = (a, b)"
    and a: "r1 (length pre) (pre @ s) = Inr (a, mid)" and b: "r2 mid (pre @ s) = Inr (b, off)"
    by (auto simp: rd_pair_def split: sum.splits)
  from strict_codec.rd_sound [OF assms(1) a] obtain s' where s: "s = e1 a @ s'" and "w1 a"
    and mid: "mid = length (pre @ e1 a)" by auto
  from b have "r2 (length (pre @ e1 a)) ((pre @ e1 a) @ s') = Inr (b, off)"
    by (simp add: s mid)
  from strict_codec.rd_sound [OF assms(2) this] \<open>w1 a\<close>
  show "\<exists>post. s = enc_pair e1 e2 x @ post \<and> pred_prod w1 w2 x
      \<and> off = length pre + length (enc_pair e1 e2 x)"
    by (auto simp: s x)
qed

lemma codec_vectorI:
  assumes "codec s r e w"
  shows "codec (ser_vector s) (rd_vector r) (enc_vector e) (wf_vector w)"
proof (unfold_locales, goal_cases)
  case (1 body x)
  show ?case by (simp add: ser_vector_def enc_vector_def codec.ser_all [OF assms])
next
  case (2 xs pre post)
  let ?pre = "pre @ net_bytes (of_nat (length xs))"
  have "rd_elems r (length xs) (length ?pre) (?pre @ concat (map e xs) @ post)
      = Inr (xs, length ?pre + length (concat (map e xs)))"
    using 2 by (intro codec.rd_elems_enc [OF assms]) (simp add: wf_vector_def)
  with 2 show ?case by (simp add: rd_vector_def memcpy_from_def enc_vector_def wf_vector_def)
qed

lemma codec_structI:
  assumes "\<And>x. w x \<Longrightarrow> de (se x) = Inr x"
  shows "codec (ser_struct se) (rd_struct de) (\<lambda>x. enc_bytes (se x))
    (\<lambda>x. w x \<and> fits32 (length (se x)))"
  by unfold_locales
    (simp_all add: ser_struct_def rd_struct_def pack_append unpackBytes_enc assms)

section \<open>Checked readers\<close>

text \<open>
  A reader is checked when, whatever the bytes and the offset, it fails only with an exception of
  its own bounds tests, never with an access outside the body, and leaves the offset inside it.
\<close>

definition checked :: "'a reader \<Rightarrow> bool" where
  "checked rd \<longleftrightarrow> (\<forall>offset body. case rd offset body of
     Inl f \<Rightarrow> bounds_fault f | Inr (x, offset') \<Rightarrow> offset' \<le> length body)"

lemma checkedI:
  "(\<And>offset body. case rd offset body of
     Inl f \<Rightarrow> bounds_fault f | Inr (x, offset') \<Rightarrow> offset' \<le> length body) \<Longrightarrow> checked rd"
  by (simp add: checked_def)

lemma checkedD:
  assumes "checked rd"
  shows "rd offset body = Inl f \<Longrightarrow> bounds_fault f"
    and "rd offset body = Inr (x, offset') \<Longrightarrow> offset' \<le> length body"
  using assms unfolding checked_def by (auto split: sum.splits prod.splits)

lemma sum_case_mono:
  assumes "case r of Inl f \<Rightarrow> F f | Inr (x, y) \<Rightarrow> P x y"
    and "\<And>x y. P x y \<Longrightarrow> R x y"
  shows "case r of Inl f \<Rightarrow> F f | Inr (x, y) \<Rightarrow> R x y"
  using assms by (auto split: sum.splits)

lemma checked_deserialize: "checked rd \<Longrightarrow> deserialize rd obj body = Inl f \<Longrightarrow> bounds_fault f"
  by (auto simp: deserialize_def dest: checkedD split: sum.splits)

lemma checked_bytes: "checked rd_bytes"
  by (rule checkedI, rule sum_case_mono [OF unpackBytes_bounds [folded rd_bytes_def]]) auto

lemma checked_string: "checked rd_string"
  by (rule checkedI, rule sum_case_mono [OF unpack_bounds [folded rd_string_def]]) auto

lemma checked_error: "checked rd_error"
proof (rule checkedI)
  fix offset body
  show "case rd_error offset body of Inl f \<Rightarrow> bounds_fault f
      | Inr (x, offset') \<Rightarrow> offset' \<le> length body"
    using unpack_ui32_bounds [of offset body] by (auto simp: rd_error_def split: sum.splits)
qed

lemma checked_i64: "checked rd_i64"
  by (rule checkedI, rule sum_case_mono [OF unpack_i64_bounds [folded rd_i64_def]]) auto

lemma checked_pair: "checked r1 \<Longrightarrow> checked r2 \<Longrightarrow> checked (rd_pair r1 r2)"
  by (rule checkedI) (auto simp: rd_pair_def dest: checkedD split: sum.splits)

lemmas checked_intros = checked_pair checked_string checked_bytes checked_error checked_i64

text \<open>A vector reader is not: a body that ends before the size is read past its end.\<close>

lemma rd_vector_undefined:
  "length body < offset + 4 \<Longrightarrow>
    rd_vector rd offset body = Inl (Undefined ''memcpy past the end of the body'')"
  by (simp add: rd_vector_def memcpy_from_def)

end
