(* ===== verification/Messages.thy ===== *)
theory Messages
  imports Serializer
begin

text \<open>
  The message structs of \<^verbatim>\<open>include/messages.hpp\<close>: each as a record, with its
  \<^verbatim>\<open>serialize\<close> and \<^verbatim>\<open>deserialize\<close> over the tuple that \<^verbatim>\<open>fields()\<close> ties. Field names carry a
  prefix per struct; \<^verbatim>\<open>HistoryResponse::Entry\<close> is \<open>HistoryEntry\<close>.
\<close>

section \<open>The structs\<close>

record AuthRequest =
  areq_login :: string
  areq_password :: string

definition AuthRequest_serialize :: "AuthRequest \<Rightarrow> bytes" where
  "AuthRequest_serialize r =
     serialize (ser_pair ser_string ser_string)
       (areq_login r, areq_password r)"

definition AuthRequest_deserialize :: "bytes \<Rightarrow> fault + AuthRequest" where
  "AuthRequest_deserialize body =
     deserialize (rd_pair rd_string rd_string)
       (\<lambda>(a, b). \<lparr>areq_login = a, areq_password = b\<rparr>)
       body"

record LogoutRequest =
  lreq_old_token :: string

definition LogoutRequest_serialize :: "LogoutRequest \<Rightarrow> bytes" where
  "LogoutRequest_serialize r =
     serialize ser_string
       (lreq_old_token r)"

definition LogoutRequest_deserialize :: "bytes \<Rightarrow> fault + LogoutRequest" where
  "LogoutRequest_deserialize body =
     deserialize rd_string
       (\<lambda>a. \<lparr>lreq_old_token = a\<rparr>)
       body"

record AuthResponse =
  ares_token :: string
  ares_error :: error_code

definition AuthResponse_serialize :: "AuthResponse \<Rightarrow> bytes" where
  "AuthResponse_serialize r =
     serialize (ser_pair ser_string ser_error)
       (ares_token r, ares_error r)"

definition AuthResponse_deserialize :: "bytes \<Rightarrow> fault + AuthResponse" where
  "AuthResponse_deserialize body =
     deserialize (rd_pair rd_string rd_error)
       (\<lambda>(a, b). \<lparr>ares_token = a, ares_error = b\<rparr>)
       body"

record TokenVerifyRequest =
  tvreq_old_token :: string

definition TokenVerifyRequest_serialize :: "TokenVerifyRequest \<Rightarrow> bytes" where
  "TokenVerifyRequest_serialize r =
     serialize ser_string
       (tvreq_old_token r)"

definition TokenVerifyRequest_deserialize :: "bytes \<Rightarrow> fault + TokenVerifyRequest" where
  "TokenVerifyRequest_deserialize body =
     deserialize rd_string
       (\<lambda>a. \<lparr>tvreq_old_token = a\<rparr>)
       body"

record TokenVerifyResponse =
  tvres_error :: error_code

definition TokenVerifyResponse_serialize :: "TokenVerifyResponse \<Rightarrow> bytes" where
  "TokenVerifyResponse_serialize r =
     serialize ser_error
       (tvres_error r)"

definition TokenVerifyResponse_deserialize :: "bytes \<Rightarrow> fault + TokenVerifyResponse" where
  "TokenVerifyResponse_deserialize body =
     deserialize rd_error
       (\<lambda>a. \<lparr>tvres_error = a\<rparr>)
       body"

record ChatSendRequest =
  csreq_token :: string
  csreq_message :: string

definition ChatSendRequest_serialize :: "ChatSendRequest \<Rightarrow> bytes" where
  "ChatSendRequest_serialize r =
     serialize (ser_pair ser_string ser_string)
       (csreq_token r, csreq_message r)"

definition ChatSendRequest_deserialize :: "bytes \<Rightarrow> fault + ChatSendRequest" where
  "ChatSendRequest_deserialize body =
     deserialize (rd_pair rd_string rd_string)
       (\<lambda>(a, b). \<lparr>csreq_token = a, csreq_message = b\<rparr>)
       body"

record ChatIncoming =
  cin_sender_login :: string
  cin_message :: string

definition ChatIncoming_serialize :: "ChatIncoming \<Rightarrow> bytes" where
  "ChatIncoming_serialize r =
     serialize (ser_pair ser_string ser_string)
       (cin_sender_login r, cin_message r)"

definition ChatIncoming_deserialize :: "bytes \<Rightarrow> fault + ChatIncoming" where
  "ChatIncoming_deserialize body =
     deserialize (rd_pair rd_string rd_string)
       (\<lambda>(a, b). \<lparr>cin_sender_login = a, cin_message = b\<rparr>)
       body"

record ChatResponse =
  cres_error :: error_code

definition ChatResponse_serialize :: "ChatResponse \<Rightarrow> bytes" where
  "ChatResponse_serialize r =
     serialize ser_error
       (cres_error r)"

definition ChatResponse_deserialize :: "bytes \<Rightarrow> fault + ChatResponse" where
  "ChatResponse_deserialize body =
     deserialize rd_error
       (\<lambda>a. \<lparr>cres_error = a\<rparr>)
       body"

record FileUploadRequest =
  fureq_token :: string
  fureq_file_name :: string
  fureq_file_data :: bytes

definition FileUploadRequest_serialize :: "FileUploadRequest \<Rightarrow> bytes" where
  "FileUploadRequest_serialize r =
     serialize (ser_pair ser_string (ser_pair ser_string ser_bytes))
       (fureq_token r, fureq_file_name r, fureq_file_data r)"

definition FileUploadRequest_deserialize :: "bytes \<Rightarrow> fault + FileUploadRequest" where
  "FileUploadRequest_deserialize body =
     deserialize (rd_pair rd_string (rd_pair rd_string rd_bytes))
       (\<lambda>(a, b, c). \<lparr>fureq_token = a, fureq_file_name = b, fureq_file_data = c\<rparr>)
       body"

record FileUploadResponse =
  fures_error :: error_code

definition FileUploadResponse_serialize :: "FileUploadResponse \<Rightarrow> bytes" where
  "FileUploadResponse_serialize r =
     serialize ser_error
       (fures_error r)"

definition FileUploadResponse_deserialize :: "bytes \<Rightarrow> fault + FileUploadResponse" where
  "FileUploadResponse_deserialize body =
     deserialize rd_error
       (\<lambda>a. \<lparr>fures_error = a\<rparr>)
       body"

record FileDownloadRequest =
  fdreq_token :: string
  fdreq_file_name :: string

definition FileDownloadRequest_serialize :: "FileDownloadRequest \<Rightarrow> bytes" where
  "FileDownloadRequest_serialize r =
     serialize (ser_pair ser_string ser_string)
       (fdreq_token r, fdreq_file_name r)"

definition FileDownloadRequest_deserialize :: "bytes \<Rightarrow> fault + FileDownloadRequest" where
  "FileDownloadRequest_deserialize body =
     deserialize (rd_pair rd_string rd_string)
       (\<lambda>(a, b). \<lparr>fdreq_token = a, fdreq_file_name = b\<rparr>)
       body"

record FileDownloadResponse =
  fdres_file_data :: bytes
  fdres_error :: error_code

definition FileDownloadResponse_serialize :: "FileDownloadResponse \<Rightarrow> bytes" where
  "FileDownloadResponse_serialize r =
     serialize (ser_pair ser_bytes ser_error)
       (fdres_file_data r, fdres_error r)"

definition FileDownloadResponse_deserialize :: "bytes \<Rightarrow> fault + FileDownloadResponse" where
  "FileDownloadResponse_deserialize body =
     deserialize (rd_pair rd_bytes rd_error)
       (\<lambda>(a, b). \<lparr>fdres_file_data = a, fdres_error = b\<rparr>)
       body"

record FriendRequest =
  freq_token :: string
  freq_target_login :: string

definition FriendRequest_serialize :: "FriendRequest \<Rightarrow> bytes" where
  "FriendRequest_serialize r =
     serialize (ser_pair ser_string ser_string)
       (freq_token r, freq_target_login r)"

definition FriendRequest_deserialize :: "bytes \<Rightarrow> fault + FriendRequest" where
  "FriendRequest_deserialize body =
     deserialize (rd_pair rd_string rd_string)
       (\<lambda>(a, b). \<lparr>freq_token = a, freq_target_login = b\<rparr>)
       body"

record FriendResponse =
  fres_error :: error_code

definition FriendResponse_serialize :: "FriendResponse \<Rightarrow> bytes" where
  "FriendResponse_serialize r =
     serialize ser_error
       (fres_error r)"

definition FriendResponse_deserialize :: "bytes \<Rightarrow> fault + FriendResponse" where
  "FriendResponse_deserialize body =
     deserialize rd_error
       (\<lambda>a. \<lparr>fres_error = a\<rparr>)
       body"

record FriendListRequest =
  flreq_token :: string

definition FriendListRequest_serialize :: "FriendListRequest \<Rightarrow> bytes" where
  "FriendListRequest_serialize r =
     serialize ser_string
       (flreq_token r)"

definition FriendListRequest_deserialize :: "bytes \<Rightarrow> fault + FriendListRequest" where
  "FriendListRequest_deserialize body =
     deserialize rd_string
       (\<lambda>a. \<lparr>flreq_token = a\<rparr>)
       body"

record FriendListResponse =
  flres_friends :: "string list"
  flres_pending_incoming :: "string list"
  flres_error :: error_code

definition FriendListResponse_serialize :: "FriendListResponse \<Rightarrow> bytes" where
  "FriendListResponse_serialize r =
     serialize (ser_pair (ser_vector ser_string) (ser_pair (ser_vector ser_string) ser_error))
       (flres_friends r, flres_pending_incoming r, flres_error r)"

definition FriendListResponse_deserialize :: "bytes \<Rightarrow> fault + FriendListResponse" where
  "FriendListResponse_deserialize body =
     deserialize (rd_pair (rd_vector rd_string) (rd_pair (rd_vector rd_string) rd_error))
       (\<lambda>(a, b, c). \<lparr>flres_friends = a, flres_pending_incoming = b, flres_error = c\<rparr>)
       body"

record DirectMessageRequest =
  dmreq_token :: string
  dmreq_recipient_login :: string
  dmreq_message :: string

definition DirectMessageRequest_serialize :: "DirectMessageRequest \<Rightarrow> bytes" where
  "DirectMessageRequest_serialize r =
     serialize (ser_pair ser_string (ser_pair ser_string ser_string))
       (dmreq_token r, dmreq_recipient_login r, dmreq_message r)"

definition DirectMessageRequest_deserialize :: "bytes \<Rightarrow> fault + DirectMessageRequest" where
  "DirectMessageRequest_deserialize body =
     deserialize (rd_pair rd_string (rd_pair rd_string rd_string))
       (\<lambda>(a, b, c). \<lparr>dmreq_token = a, dmreq_recipient_login = b, dmreq_message = c\<rparr>)
       body"

record DirectMessageIncoming =
  dmin_sender_login :: string
  dmin_message :: string
  dmin_timestamp :: i64

definition DirectMessageIncoming_serialize :: "DirectMessageIncoming \<Rightarrow> bytes" where
  "DirectMessageIncoming_serialize r =
     serialize (ser_pair ser_string (ser_pair ser_string ser_i64))
       (dmin_sender_login r, dmin_message r, dmin_timestamp r)"

definition DirectMessageIncoming_deserialize :: "bytes \<Rightarrow> fault + DirectMessageIncoming" where
  "DirectMessageIncoming_deserialize body =
     deserialize (rd_pair rd_string (rd_pair rd_string rd_i64))
       (\<lambda>(a, b, c). \<lparr>dmin_sender_login = a, dmin_message = b, dmin_timestamp = c\<rparr>)
       body"

record DirectMessageResponse =
  dmres_error :: error_code

definition DirectMessageResponse_serialize :: "DirectMessageResponse \<Rightarrow> bytes" where
  "DirectMessageResponse_serialize r =
     serialize ser_error
       (dmres_error r)"

definition DirectMessageResponse_deserialize :: "bytes \<Rightarrow> fault + DirectMessageResponse" where
  "DirectMessageResponse_deserialize body =
     deserialize rd_error
       (\<lambda>a. \<lparr>dmres_error = a\<rparr>)
       body"

record ChatListRequest =
  clreq_token :: string

definition ChatListRequest_serialize :: "ChatListRequest \<Rightarrow> bytes" where
  "ChatListRequest_serialize r =
     serialize ser_string
       (clreq_token r)"

definition ChatListRequest_deserialize :: "bytes \<Rightarrow> fault + ChatListRequest" where
  "ChatListRequest_deserialize body =
     deserialize rd_string
       (\<lambda>a. \<lparr>clreq_token = a\<rparr>)
       body"

record ChatListEntry =
  cle_peer_login :: string
  cle_message :: string
  cle_timestamp :: i64

definition ChatListEntry_serialize :: "ChatListEntry \<Rightarrow> bytes" where
  "ChatListEntry_serialize r =
     serialize (ser_pair ser_string (ser_pair ser_string ser_i64))
       (cle_peer_login r, cle_message r, cle_timestamp r)"

definition ChatListEntry_deserialize :: "bytes \<Rightarrow> fault + ChatListEntry" where
  "ChatListEntry_deserialize body =
     deserialize (rd_pair rd_string (rd_pair rd_string rd_i64))
       (\<lambda>(a, b, c). \<lparr>cle_peer_login = a, cle_message = b, cle_timestamp = c\<rparr>)
       body"

record ChatListResponse =
  clres_chats :: "ChatListEntry list"
  clres_error :: error_code

definition ChatListResponse_serialize :: "ChatListResponse \<Rightarrow> bytes" where
  "ChatListResponse_serialize r =
     serialize (ser_pair (ser_vector (ser_struct ChatListEntry_serialize)) ser_error)
       (clres_chats r, clres_error r)"

definition ChatListResponse_deserialize :: "bytes \<Rightarrow> fault + ChatListResponse" where
  "ChatListResponse_deserialize body =
     deserialize (rd_pair (rd_vector (rd_struct ChatListEntry_deserialize)) rd_error)
       (\<lambda>(a, b). \<lparr>clres_chats = a, clres_error = b\<rparr>)
       body"

record HistoryRequest =
  hreq_token :: string
  hreq_peer_login :: string

definition HistoryRequest_serialize :: "HistoryRequest \<Rightarrow> bytes" where
  "HistoryRequest_serialize r =
     serialize (ser_pair ser_string ser_string)
       (hreq_token r, hreq_peer_login r)"

definition HistoryRequest_deserialize :: "bytes \<Rightarrow> fault + HistoryRequest" where
  "HistoryRequest_deserialize body =
     deserialize (rd_pair rd_string rd_string)
       (\<lambda>(a, b). \<lparr>hreq_token = a, hreq_peer_login = b\<rparr>)
       body"

record HistoryEntry =
  he_from_login :: string
  he_message :: string
  he_timestamp :: i64

definition HistoryEntry_serialize :: "HistoryEntry \<Rightarrow> bytes" where
  "HistoryEntry_serialize r =
     serialize (ser_pair ser_string (ser_pair ser_string ser_i64))
       (he_from_login r, he_message r, he_timestamp r)"

definition HistoryEntry_deserialize :: "bytes \<Rightarrow> fault + HistoryEntry" where
  "HistoryEntry_deserialize body =
     deserialize (rd_pair rd_string (rd_pair rd_string rd_i64))
       (\<lambda>(a, b, c). \<lparr>he_from_login = a, he_message = b, he_timestamp = c\<rparr>)
       body"

record HistoryResponse =
  hres_messages :: "HistoryEntry list"
  hres_error :: error_code

definition HistoryResponse_serialize :: "HistoryResponse \<Rightarrow> bytes" where
  "HistoryResponse_serialize r =
     serialize (ser_pair (ser_vector (ser_struct HistoryEntry_serialize)) ser_error)
       (hres_messages r, hres_error r)"

definition HistoryResponse_deserialize :: "bytes \<Rightarrow> fault + HistoryResponse" where
  "HistoryResponse_deserialize body =
     deserialize (rd_pair (rd_vector (rd_struct HistoryEntry_deserialize)) rd_error)
       (\<lambda>(a, b). \<lparr>hres_messages = a, hres_error = b\<rparr>)
       body"

text \<open>
  What a message needs to be sent whole: every string, byte vector, element count and nested
  message is shorter than \<open>2 ^ 32\<close>, the range of its length prefix.
\<close>

definition AuthRequest_wf :: "AuthRequest \<Rightarrow> bool" where
  "AuthRequest_wf r \<longleftrightarrow> wf_string (areq_login r)
     \<and> wf_string (areq_password r)"

definition LogoutRequest_wf :: "LogoutRequest \<Rightarrow> bool" where
  "LogoutRequest_wf r \<longleftrightarrow> wf_string (lreq_old_token r)"

definition AuthResponse_wf :: "AuthResponse \<Rightarrow> bool" where
  "AuthResponse_wf r \<longleftrightarrow> wf_string (ares_token r)"

definition TokenVerifyRequest_wf :: "TokenVerifyRequest \<Rightarrow> bool" where
  "TokenVerifyRequest_wf r \<longleftrightarrow> wf_string (tvreq_old_token r)"

definition ChatSendRequest_wf :: "ChatSendRequest \<Rightarrow> bool" where
  "ChatSendRequest_wf r \<longleftrightarrow> wf_string (csreq_token r)
     \<and> wf_string (csreq_message r)"

definition ChatIncoming_wf :: "ChatIncoming \<Rightarrow> bool" where
  "ChatIncoming_wf r \<longleftrightarrow> wf_string (cin_sender_login r)
     \<and> wf_string (cin_message r)"

definition FileUploadRequest_wf :: "FileUploadRequest \<Rightarrow> bool" where
  "FileUploadRequest_wf r \<longleftrightarrow> wf_string (fureq_token r)
     \<and> wf_string (fureq_file_name r)
     \<and> wf_bytes (fureq_file_data r)"

definition FileDownloadRequest_wf :: "FileDownloadRequest \<Rightarrow> bool" where
  "FileDownloadRequest_wf r \<longleftrightarrow> wf_string (fdreq_token r)
     \<and> wf_string (fdreq_file_name r)"

definition FileDownloadResponse_wf :: "FileDownloadResponse \<Rightarrow> bool" where
  "FileDownloadResponse_wf r \<longleftrightarrow> wf_bytes (fdres_file_data r)"

definition FriendRequest_wf :: "FriendRequest \<Rightarrow> bool" where
  "FriendRequest_wf r \<longleftrightarrow> wf_string (freq_token r)
     \<and> wf_string (freq_target_login r)"

definition FriendListRequest_wf :: "FriendListRequest \<Rightarrow> bool" where
  "FriendListRequest_wf r \<longleftrightarrow> wf_string (flreq_token r)"

definition FriendListResponse_wf :: "FriendListResponse \<Rightarrow> bool" where
  "FriendListResponse_wf r \<longleftrightarrow> wf_vector wf_string (flres_friends r)
     \<and> wf_vector wf_string (flres_pending_incoming r)"

definition DirectMessageRequest_wf :: "DirectMessageRequest \<Rightarrow> bool" where
  "DirectMessageRequest_wf r \<longleftrightarrow> wf_string (dmreq_token r)
     \<and> wf_string (dmreq_recipient_login r)
     \<and> wf_string (dmreq_message r)"

definition DirectMessageIncoming_wf :: "DirectMessageIncoming \<Rightarrow> bool" where
  "DirectMessageIncoming_wf r \<longleftrightarrow> wf_string (dmin_sender_login r)
     \<and> wf_string (dmin_message r)"

definition ChatListRequest_wf :: "ChatListRequest \<Rightarrow> bool" where
  "ChatListRequest_wf r \<longleftrightarrow> wf_string (clreq_token r)"

definition ChatListEntry_wf :: "ChatListEntry \<Rightarrow> bool" where
  "ChatListEntry_wf r \<longleftrightarrow> wf_string (cle_peer_login r)
     \<and> wf_string (cle_message r)"

definition ChatListResponse_wf :: "ChatListResponse \<Rightarrow> bool" where
  "ChatListResponse_wf r \<longleftrightarrow> wf_vector
       (\<lambda>x. ChatListEntry_wf x \<and> fits32 (length (ChatListEntry_serialize x))) (clres_chats r)"

definition HistoryRequest_wf :: "HistoryRequest \<Rightarrow> bool" where
  "HistoryRequest_wf r \<longleftrightarrow> wf_string (hreq_token r)
     \<and> wf_string (hreq_peer_login r)"

definition HistoryEntry_wf :: "HistoryEntry \<Rightarrow> bool" where
  "HistoryEntry_wf r \<longleftrightarrow> wf_string (he_from_login r)
     \<and> wf_string (he_message r)"

definition HistoryResponse_wf :: "HistoryResponse \<Rightarrow> bool" where
  "HistoryResponse_wf r \<longleftrightarrow> wf_vector
       (\<lambda>x. HistoryEntry_wf x \<and> fits32 (length (HistoryEntry_serialize x))) (hres_messages r)"

section \<open>Codecs of the field tuples\<close>

interpretation string_pair: strict_codec "ser_pair ser_string ser_string"
  "rd_pair rd_string rd_string" "enc_pair enc_string enc_string" "pred_prod wf_string wf_string"
  by (intro strict_codec_pairI strings.strict_codec_axioms)

interpretation string_triple: strict_codec "ser_pair ser_string (ser_pair ser_string ser_string)"
  "rd_pair rd_string (rd_pair rd_string rd_string)"
  "enc_pair enc_string (enc_pair enc_string enc_string)"
  "pred_prod wf_string (pred_prod wf_string wf_string)"
  by (intro strict_codec_pairI strings.strict_codec_axioms)

interpretation string_string_bytes: strict_codec
  "ser_pair ser_string (ser_pair ser_string ser_bytes)"
  "rd_pair rd_string (rd_pair rd_string rd_bytes)"
  "enc_pair enc_string (enc_pair enc_string enc_bytes)"
  "pred_prod wf_string (pred_prod wf_string wf_bytes)"
  by (intro strict_codec_pairI strings.strict_codec_axioms byte_vectors.strict_codec_axioms)

interpretation string_error: strict_codec "ser_pair ser_string ser_error"
  "rd_pair rd_string rd_error" "enc_pair enc_string enc_error" "pred_prod wf_string (\<lambda>_. True)"
  by (intro strict_codec_pairI strings.strict_codec_axioms errors.strict_codec_axioms)

interpretation bytes_error: strict_codec "ser_pair ser_bytes ser_error"
  "rd_pair rd_bytes rd_error" "enc_pair enc_bytes enc_error" "pred_prod wf_bytes (\<lambda>_. True)"
  by (intro strict_codec_pairI byte_vectors.strict_codec_axioms errors.strict_codec_axioms)

interpretation string_string_number: codec "ser_pair ser_string (ser_pair ser_string ser_i64)"
  "rd_pair rd_string (rd_pair rd_string rd_i64)"
  "enc_pair enc_string (enc_pair enc_string enc_i64)"
  "pred_prod wf_string (pred_prod wf_string (\<lambda>_. True))"
  by (intro codec_pairI strings.codec_axioms numbers.codec_axioms)

interpretation string_lists_error: codec
  "ser_pair (ser_vector ser_string) (ser_pair (ser_vector ser_string) ser_error)"
  "rd_pair (rd_vector rd_string) (rd_pair (rd_vector rd_string) rd_error)"
  "enc_pair (enc_vector enc_string) (enc_pair (enc_vector enc_string) enc_error)"
  "pred_prod (wf_vector wf_string) (pred_prod (wf_vector wf_string) (\<lambda>_. True))"
  by (intro codec_pairI codec_vectorI strings.codec_axioms errors.codec_axioms)

section \<open>Round trips\<close>

lemma AuthRequest_roundtrip:
  "AuthRequest_wf r \<Longrightarrow>
    AuthRequest_deserialize (AuthRequest_serialize r @ junk) = Inr r"
  unfolding AuthRequest_serialize_def AuthRequest_deserialize_def
    AuthRequest_wf_def
  by (subst string_pair.deserialize_serialize) simp_all

lemma LogoutRequest_roundtrip:
  "LogoutRequest_wf r \<Longrightarrow>
    LogoutRequest_deserialize (LogoutRequest_serialize r @ junk) = Inr r"
  unfolding LogoutRequest_serialize_def LogoutRequest_deserialize_def
    LogoutRequest_wf_def
  by (subst strings.deserialize_serialize) simp_all

lemma AuthResponse_roundtrip:
  "AuthResponse_wf r \<Longrightarrow>
    AuthResponse_deserialize (AuthResponse_serialize r @ junk) = Inr r"
  unfolding AuthResponse_serialize_def AuthResponse_deserialize_def
    AuthResponse_wf_def
  by (subst string_error.deserialize_serialize) simp_all

lemma TokenVerifyRequest_roundtrip:
  "TokenVerifyRequest_wf r \<Longrightarrow>
    TokenVerifyRequest_deserialize (TokenVerifyRequest_serialize r @ junk) = Inr r"
  unfolding TokenVerifyRequest_serialize_def TokenVerifyRequest_deserialize_def
    TokenVerifyRequest_wf_def
  by (subst strings.deserialize_serialize) simp_all

lemma TokenVerifyResponse_roundtrip:
  "TokenVerifyResponse_deserialize (TokenVerifyResponse_serialize r @ junk) = Inr r"
  unfolding TokenVerifyResponse_serialize_def TokenVerifyResponse_deserialize_def
  by (subst errors.deserialize_serialize) simp_all

lemma ChatSendRequest_roundtrip:
  "ChatSendRequest_wf r \<Longrightarrow>
    ChatSendRequest_deserialize (ChatSendRequest_serialize r @ junk) = Inr r"
  unfolding ChatSendRequest_serialize_def ChatSendRequest_deserialize_def
    ChatSendRequest_wf_def
  by (subst string_pair.deserialize_serialize) simp_all

lemma ChatIncoming_roundtrip:
  "ChatIncoming_wf r \<Longrightarrow>
    ChatIncoming_deserialize (ChatIncoming_serialize r @ junk) = Inr r"
  unfolding ChatIncoming_serialize_def ChatIncoming_deserialize_def
    ChatIncoming_wf_def
  by (subst string_pair.deserialize_serialize) simp_all

lemma ChatResponse_roundtrip:
  "ChatResponse_deserialize (ChatResponse_serialize r @ junk) = Inr r"
  unfolding ChatResponse_serialize_def ChatResponse_deserialize_def
  by (subst errors.deserialize_serialize) simp_all

lemma FileUploadRequest_roundtrip:
  "FileUploadRequest_wf r \<Longrightarrow>
    FileUploadRequest_deserialize (FileUploadRequest_serialize r @ junk) = Inr r"
  unfolding FileUploadRequest_serialize_def FileUploadRequest_deserialize_def
    FileUploadRequest_wf_def
  by (subst string_string_bytes.deserialize_serialize) simp_all

lemma FileUploadResponse_roundtrip:
  "FileUploadResponse_deserialize (FileUploadResponse_serialize r @ junk) = Inr r"
  unfolding FileUploadResponse_serialize_def FileUploadResponse_deserialize_def
  by (subst errors.deserialize_serialize) simp_all

lemma FileDownloadRequest_roundtrip:
  "FileDownloadRequest_wf r \<Longrightarrow>
    FileDownloadRequest_deserialize (FileDownloadRequest_serialize r @ junk) = Inr r"
  unfolding FileDownloadRequest_serialize_def FileDownloadRequest_deserialize_def
    FileDownloadRequest_wf_def
  by (subst string_pair.deserialize_serialize) simp_all

lemma FileDownloadResponse_roundtrip:
  "FileDownloadResponse_wf r \<Longrightarrow>
    FileDownloadResponse_deserialize (FileDownloadResponse_serialize r @ junk) = Inr r"
  unfolding FileDownloadResponse_serialize_def FileDownloadResponse_deserialize_def
    FileDownloadResponse_wf_def
  by (subst bytes_error.deserialize_serialize) simp_all

lemma FriendRequest_roundtrip:
  "FriendRequest_wf r \<Longrightarrow>
    FriendRequest_deserialize (FriendRequest_serialize r @ junk) = Inr r"
  unfolding FriendRequest_serialize_def FriendRequest_deserialize_def
    FriendRequest_wf_def
  by (subst string_pair.deserialize_serialize) simp_all

lemma FriendResponse_roundtrip:
  "FriendResponse_deserialize (FriendResponse_serialize r @ junk) = Inr r"
  unfolding FriendResponse_serialize_def FriendResponse_deserialize_def
  by (subst errors.deserialize_serialize) simp_all

lemma FriendListRequest_roundtrip:
  "FriendListRequest_wf r \<Longrightarrow>
    FriendListRequest_deserialize (FriendListRequest_serialize r @ junk) = Inr r"
  unfolding FriendListRequest_serialize_def FriendListRequest_deserialize_def
    FriendListRequest_wf_def
  by (subst strings.deserialize_serialize) simp_all

lemma FriendListResponse_roundtrip:
  "FriendListResponse_wf r \<Longrightarrow>
    FriendListResponse_deserialize (FriendListResponse_serialize r @ junk) = Inr r"
  unfolding FriendListResponse_serialize_def FriendListResponse_deserialize_def
    FriendListResponse_wf_def
  by (subst string_lists_error.deserialize_serialize) simp_all

lemma DirectMessageRequest_roundtrip:
  "DirectMessageRequest_wf r \<Longrightarrow>
    DirectMessageRequest_deserialize (DirectMessageRequest_serialize r @ junk) = Inr r"
  unfolding DirectMessageRequest_serialize_def DirectMessageRequest_deserialize_def
    DirectMessageRequest_wf_def
  by (subst string_triple.deserialize_serialize) simp_all

lemma DirectMessageIncoming_roundtrip:
  "DirectMessageIncoming_wf r \<Longrightarrow>
    DirectMessageIncoming_deserialize (DirectMessageIncoming_serialize r @ junk) = Inr r"
  unfolding DirectMessageIncoming_serialize_def DirectMessageIncoming_deserialize_def
    DirectMessageIncoming_wf_def
  by (subst string_string_number.deserialize_serialize) simp_all

lemma DirectMessageResponse_roundtrip:
  "DirectMessageResponse_deserialize (DirectMessageResponse_serialize r @ junk) = Inr r"
  unfolding DirectMessageResponse_serialize_def DirectMessageResponse_deserialize_def
  by (subst errors.deserialize_serialize) simp_all

lemma ChatListRequest_roundtrip:
  "ChatListRequest_wf r \<Longrightarrow>
    ChatListRequest_deserialize (ChatListRequest_serialize r @ junk) = Inr r"
  unfolding ChatListRequest_serialize_def ChatListRequest_deserialize_def
    ChatListRequest_wf_def
  by (subst strings.deserialize_serialize) simp_all

lemma ChatListEntry_roundtrip:
  "ChatListEntry_wf r \<Longrightarrow>
    ChatListEntry_deserialize (ChatListEntry_serialize r @ junk) = Inr r"
  unfolding ChatListEntry_serialize_def ChatListEntry_deserialize_def
    ChatListEntry_wf_def
  by (subst string_string_number.deserialize_serialize) simp_all

interpretation chat_entries: codec
  "ser_struct ChatListEntry_serialize" "rd_struct ChatListEntry_deserialize"
  "\<lambda>x. enc_bytes (ChatListEntry_serialize x)"
  "\<lambda>x. ChatListEntry_wf x \<and> fits32 (length (ChatListEntry_serialize x))"
  by (rule codec_structI) (use ChatListEntry_roundtrip [where junk = "[]"] in simp)

interpretation chat_entries_error: codec
  "ser_pair (ser_vector (ser_struct ChatListEntry_serialize)) ser_error"
  "rd_pair (rd_vector (rd_struct ChatListEntry_deserialize)) rd_error"
  "enc_pair (enc_vector (\<lambda>x. enc_bytes (ChatListEntry_serialize x))) enc_error"
  "pred_prod (wf_vector (\<lambda>x. ChatListEntry_wf x \<and> fits32 (length (ChatListEntry_serialize x))))
     (\<lambda>_. True)"
  by (intro codec_pairI codec_vectorI chat_entries.codec_axioms errors.codec_axioms)

lemma ChatListResponse_roundtrip:
  "ChatListResponse_wf r \<Longrightarrow>
    ChatListResponse_deserialize (ChatListResponse_serialize r @ junk) = Inr r"
  unfolding ChatListResponse_serialize_def ChatListResponse_deserialize_def
    ChatListResponse_wf_def
  by (subst chat_entries_error.deserialize_serialize) simp_all

lemma HistoryRequest_roundtrip:
  "HistoryRequest_wf r \<Longrightarrow>
    HistoryRequest_deserialize (HistoryRequest_serialize r @ junk) = Inr r"
  unfolding HistoryRequest_serialize_def HistoryRequest_deserialize_def
    HistoryRequest_wf_def
  by (subst string_pair.deserialize_serialize) simp_all

lemma HistoryEntry_roundtrip:
  "HistoryEntry_wf r \<Longrightarrow>
    HistoryEntry_deserialize (HistoryEntry_serialize r @ junk) = Inr r"
  unfolding HistoryEntry_serialize_def HistoryEntry_deserialize_def
    HistoryEntry_wf_def
  by (subst string_string_number.deserialize_serialize) simp_all

interpretation history_entries: codec
  "ser_struct HistoryEntry_serialize" "rd_struct HistoryEntry_deserialize"
  "\<lambda>x. enc_bytes (HistoryEntry_serialize x)"
  "\<lambda>x. HistoryEntry_wf x \<and> fits32 (length (HistoryEntry_serialize x))"
  by (rule codec_structI) (use HistoryEntry_roundtrip [where junk = "[]"] in simp)

interpretation history_entries_error: codec
  "ser_pair (ser_vector (ser_struct HistoryEntry_serialize)) ser_error"
  "rd_pair (rd_vector (rd_struct HistoryEntry_deserialize)) rd_error"
  "enc_pair (enc_vector (\<lambda>x. enc_bytes (HistoryEntry_serialize x))) enc_error"
  "pred_prod (wf_vector (\<lambda>x. HistoryEntry_wf x \<and> fits32 (length (HistoryEntry_serialize x))))
     (\<lambda>_. True)"
  by (intro codec_pairI codec_vectorI history_entries.codec_axioms errors.codec_axioms)

lemma HistoryResponse_roundtrip:
  "HistoryResponse_wf r \<Longrightarrow>
    HistoryResponse_deserialize (HistoryResponse_serialize r @ junk) = Inr r"
  unfolding HistoryResponse_serialize_def HistoryResponse_deserialize_def
    HistoryResponse_wf_def
  by (subst history_entries_error.deserialize_serialize) simp_all

section \<open>What the server accepts as a request\<close>

text \<open>
  The requests consist of strings and byte vectors only, so their codecs are strict: a body
  is accepted exactly when it starts with the serialization of the request it decodes to.
\<close>

lemma AuthRequest_accepts:
  "AuthRequest_deserialize body = Inr r
    \<longleftrightarrow> AuthRequest_wf r \<and> (\<exists>junk. body = AuthRequest_serialize r @ junk)"
  unfolding AuthRequest_serialize_def AuthRequest_deserialize_def
    AuthRequest_wf_def
  by (rule trans [OF string_pair.deserialize_accepts [where x = "(areq_login r, areq_password r)"]])
    (simp_all add: inj_def)

lemma LogoutRequest_accepts:
  "LogoutRequest_deserialize body = Inr r
    \<longleftrightarrow> LogoutRequest_wf r \<and> (\<exists>junk. body = LogoutRequest_serialize r @ junk)"
  unfolding LogoutRequest_serialize_def LogoutRequest_deserialize_def
    LogoutRequest_wf_def
  by (rule trans [OF strings.deserialize_accepts [where x = "(lreq_old_token r)"]])
    (simp_all add: inj_def)

lemma TokenVerifyRequest_accepts:
  "TokenVerifyRequest_deserialize body = Inr r
    \<longleftrightarrow> TokenVerifyRequest_wf r \<and> (\<exists>junk. body = TokenVerifyRequest_serialize r @ junk)"
  unfolding TokenVerifyRequest_serialize_def TokenVerifyRequest_deserialize_def
    TokenVerifyRequest_wf_def
  by (rule trans [OF strings.deserialize_accepts [where x = "(tvreq_old_token r)"]])
    (simp_all add: inj_def)

lemma ChatSendRequest_accepts:
  "ChatSendRequest_deserialize body = Inr r
    \<longleftrightarrow> ChatSendRequest_wf r \<and> (\<exists>junk. body = ChatSendRequest_serialize r @ junk)"
  unfolding ChatSendRequest_serialize_def ChatSendRequest_deserialize_def
    ChatSendRequest_wf_def
  by (rule trans [OF string_pair.deserialize_accepts [where x = "(csreq_token r, csreq_message r)"]])
    (simp_all add: inj_def)

lemma FileUploadRequest_accepts:
  "FileUploadRequest_deserialize body = Inr r
    \<longleftrightarrow> FileUploadRequest_wf r \<and> (\<exists>junk. body = FileUploadRequest_serialize r @ junk)"
  unfolding FileUploadRequest_serialize_def FileUploadRequest_deserialize_def
    FileUploadRequest_wf_def
  by (rule trans [OF string_string_bytes.deserialize_accepts [where x = "(fureq_token r, fureq_file_name r, fureq_file_data r)"]])
    (simp_all add: inj_def)

lemma FileDownloadRequest_accepts:
  "FileDownloadRequest_deserialize body = Inr r
    \<longleftrightarrow> FileDownloadRequest_wf r \<and> (\<exists>junk. body = FileDownloadRequest_serialize r @ junk)"
  unfolding FileDownloadRequest_serialize_def FileDownloadRequest_deserialize_def
    FileDownloadRequest_wf_def
  by (rule trans [OF string_pair.deserialize_accepts [where x = "(fdreq_token r, fdreq_file_name r)"]])
    (simp_all add: inj_def)

lemma FriendRequest_accepts:
  "FriendRequest_deserialize body = Inr r
    \<longleftrightarrow> FriendRequest_wf r \<and> (\<exists>junk. body = FriendRequest_serialize r @ junk)"
  unfolding FriendRequest_serialize_def FriendRequest_deserialize_def
    FriendRequest_wf_def
  by (rule trans [OF string_pair.deserialize_accepts [where x = "(freq_token r, freq_target_login r)"]])
    (simp_all add: inj_def)

lemma FriendListRequest_accepts:
  "FriendListRequest_deserialize body = Inr r
    \<longleftrightarrow> FriendListRequest_wf r \<and> (\<exists>junk. body = FriendListRequest_serialize r @ junk)"
  unfolding FriendListRequest_serialize_def FriendListRequest_deserialize_def
    FriendListRequest_wf_def
  by (rule trans [OF strings.deserialize_accepts [where x = "(flreq_token r)"]])
    (simp_all add: inj_def)

lemma DirectMessageRequest_accepts:
  "DirectMessageRequest_deserialize body = Inr r
    \<longleftrightarrow> DirectMessageRequest_wf r \<and> (\<exists>junk. body = DirectMessageRequest_serialize r @ junk)"
  unfolding DirectMessageRequest_serialize_def DirectMessageRequest_deserialize_def
    DirectMessageRequest_wf_def
  by (rule trans [OF string_triple.deserialize_accepts [where x = "(dmreq_token r, dmreq_recipient_login r, dmreq_message r)"]])
    (simp_all add: inj_def)

lemma ChatListRequest_accepts:
  "ChatListRequest_deserialize body = Inr r
    \<longleftrightarrow> ChatListRequest_wf r \<and> (\<exists>junk. body = ChatListRequest_serialize r @ junk)"
  unfolding ChatListRequest_serialize_def ChatListRequest_deserialize_def
    ChatListRequest_wf_def
  by (rule trans [OF strings.deserialize_accepts [where x = "(clreq_token r)"]])
    (simp_all add: inj_def)

lemma HistoryRequest_accepts:
  "HistoryRequest_deserialize body = Inr r
    \<longleftrightarrow> HistoryRequest_wf r \<and> (\<exists>junk. body = HistoryRequest_serialize r @ junk)"
  unfolding HistoryRequest_serialize_def HistoryRequest_deserialize_def
    HistoryRequest_wf_def
  by (rule trans [OF string_pair.deserialize_accepts [where x = "(hreq_token r, hreq_peer_login r)"]])
    (simp_all add: inj_def)

text \<open>
  A body that is not a request is refused by an exception of the bounds tests: no byte outside
  it is read.
\<close>

lemma AuthRequest_fault:
  "AuthRequest_deserialize body = Inl e \<Longrightarrow> bounds_fault e"
  unfolding AuthRequest_deserialize_def
  by (erule checked_deserialize [rotated]) (intro checked_intros)

lemma LogoutRequest_fault:
  "LogoutRequest_deserialize body = Inl e \<Longrightarrow> bounds_fault e"
  unfolding LogoutRequest_deserialize_def
  by (erule checked_deserialize [rotated]) (intro checked_intros)

lemma TokenVerifyRequest_fault:
  "TokenVerifyRequest_deserialize body = Inl e \<Longrightarrow> bounds_fault e"
  unfolding TokenVerifyRequest_deserialize_def
  by (erule checked_deserialize [rotated]) (intro checked_intros)

lemma ChatSendRequest_fault:
  "ChatSendRequest_deserialize body = Inl e \<Longrightarrow> bounds_fault e"
  unfolding ChatSendRequest_deserialize_def
  by (erule checked_deserialize [rotated]) (intro checked_intros)

lemma FileUploadRequest_fault:
  "FileUploadRequest_deserialize body = Inl e \<Longrightarrow> bounds_fault e"
  unfolding FileUploadRequest_deserialize_def
  by (erule checked_deserialize [rotated]) (intro checked_intros)

lemma FileDownloadRequest_fault:
  "FileDownloadRequest_deserialize body = Inl e \<Longrightarrow> bounds_fault e"
  unfolding FileDownloadRequest_deserialize_def
  by (erule checked_deserialize [rotated]) (intro checked_intros)

lemma FriendRequest_fault:
  "FriendRequest_deserialize body = Inl e \<Longrightarrow> bounds_fault e"
  unfolding FriendRequest_deserialize_def
  by (erule checked_deserialize [rotated]) (intro checked_intros)

lemma FriendListRequest_fault:
  "FriendListRequest_deserialize body = Inl e \<Longrightarrow> bounds_fault e"
  unfolding FriendListRequest_deserialize_def
  by (erule checked_deserialize [rotated]) (intro checked_intros)

lemma DirectMessageRequest_fault:
  "DirectMessageRequest_deserialize body = Inl e \<Longrightarrow> bounds_fault e"
  unfolding DirectMessageRequest_deserialize_def
  by (erule checked_deserialize [rotated]) (intro checked_intros)

lemma ChatListRequest_fault:
  "ChatListRequest_deserialize body = Inl e \<Longrightarrow> bounds_fault e"
  unfolding ChatListRequest_deserialize_def
  by (erule checked_deserialize [rotated]) (intro checked_intros)

lemma HistoryRequest_fault:
  "HistoryRequest_deserialize body = Inl e \<Longrightarrow> bounds_fault e"
  unfolding HistoryRequest_deserialize_def
  by (erule checked_deserialize [rotated]) (intro checked_intros)

end
