(* ===== verification/Protocol.thy ===== *)
theory Protocol
  imports Messages
begin

text \<open>
  \<^verbatim>\<open>include/protocol.hpp\<close> and \<^verbatim>\<open>include/literals.hpp\<close>: packet types, the 8-byte header in front
  of every body, and the blocking send and receive.
\<close>

section \<open>Packet types\<close>

text \<open>
  \<^verbatim>\<open>PacketType\<close> has the fixed underlying type \<^verbatim>\<open>uint32_t\<close>, so a cast from the network keeps
  every value; \<open>UNNAMED w\<close> stands for a value \<open>w\<close> without an enumerator.
\<close>

datatype packet_type =
    REGISTER | LOGIN | UPLOAD | DOWNLOAD | MESSAGE | RESULT
  | FRIEND_REQUEST | FRIEND_ACCEPT | FRIEND_REJECT | FRIEND_LIST
  | DIRECT_MESSAGE | CHAT_LIST | MESSAGE_HISTORY
  | TOKEN_VERIFY | LOGOUT
  | FRIEND_NEW_REQUEST | FRIEND_REQUEST_ACCEPTED | FRIEND_REQUEST_REJECTED
  | UNNAMED u32

fun u32_of_packet_type :: "packet_type \<Rightarrow> u32" where
  "u32_of_packet_type REGISTER = 1"
| "u32_of_packet_type LOGIN = 2"
| "u32_of_packet_type UPLOAD = 3"
| "u32_of_packet_type DOWNLOAD = 4"
| "u32_of_packet_type MESSAGE = 5"
| "u32_of_packet_type RESULT = 6"
| "u32_of_packet_type FRIEND_REQUEST = 7"
| "u32_of_packet_type FRIEND_ACCEPT = 8"
| "u32_of_packet_type FRIEND_REJECT = 9"
| "u32_of_packet_type FRIEND_LIST = 10"
| "u32_of_packet_type DIRECT_MESSAGE = 11"
| "u32_of_packet_type CHAT_LIST = 12"
| "u32_of_packet_type MESSAGE_HISTORY = 13"
| "u32_of_packet_type TOKEN_VERIFY = 14"
| "u32_of_packet_type LOGOUT = 15"
| "u32_of_packet_type FRIEND_NEW_REQUEST = 16"
| "u32_of_packet_type FRIEND_REQUEST_ACCEPTED = 17"
| "u32_of_packet_type FRIEND_REQUEST_REJECTED = 18"
| "u32_of_packet_type (UNNAMED w) = w"

text \<open>\<^verbatim>\<open>static_cast<PacketType>\<close> of a received number.\<close>

definition packet_type_of :: "u32 \<Rightarrow> packet_type" where
  "packet_type_of w =
    (if w = 1 then REGISTER else if w = 2 then LOGIN else if w = 3 then UPLOAD
     else if w = 4 then DOWNLOAD else if w = 5 then MESSAGE else if w = 6 then RESULT
     else if w = 7 then FRIEND_REQUEST else if w = 8 then FRIEND_ACCEPT
     else if w = 9 then FRIEND_REJECT else if w = 10 then FRIEND_LIST
     else if w = 11 then DIRECT_MESSAGE else if w = 12 then CHAT_LIST
     else if w = 13 then MESSAGE_HISTORY else if w = 14 then TOKEN_VERIFY
     else if w = 15 then LOGOUT else if w = 16 then FRIEND_NEW_REQUEST
     else if w = 17 then FRIEND_REQUEST_ACCEPTED else if w = 18 then FRIEND_REQUEST_REJECTED
     else UNNAMED w)"

fun packetTypeToString :: "packet_type \<Rightarrow> string" where
  "packetTypeToString REGISTER = ''REGISTER''"
| "packetTypeToString LOGIN = ''LOGIN''"
| "packetTypeToString UPLOAD = ''UPLOAD''"
| "packetTypeToString DOWNLOAD = ''DOWNLOAD''"
| "packetTypeToString MESSAGE = ''MESSAGE''"
| "packetTypeToString RESULT = ''RESULT''"
| "packetTypeToString FRIEND_REQUEST = ''FRIEND_REQUEST''"
| "packetTypeToString FRIEND_ACCEPT = ''FRIEND_ACCEPT''"
| "packetTypeToString FRIEND_REJECT = ''FRIEND_REJECT''"
| "packetTypeToString FRIEND_LIST = ''FRIEND_LIST''"
| "packetTypeToString DIRECT_MESSAGE = ''DIRECT_MESSAGE''"
| "packetTypeToString MESSAGE_HISTORY = ''MESSAGE_HISTORY''"
| "packetTypeToString TOKEN_VERIFY = ''TOKEN_VERIFY''"
| "packetTypeToString CHAT_LIST = ''CHAT_LIST''"
| "packetTypeToString LOGOUT = ''LOGOUT''"
| "packetTypeToString _ = ''UNKNOWN''"

text \<open>A type whose value a cast gives back: every enumerator, and the numbers without one.\<close>

definition proper_type :: "packet_type \<Rightarrow> bool" where
  "proper_type t \<longleftrightarrow> packet_type_of (u32_of_packet_type t) = t"

lemma u32_packet_type_of [simp]: "u32_of_packet_type (packet_type_of w) = w"
  by (simp add: packet_type_of_def)

lemma proper_type_of [simp]: "proper_type (packet_type_of w)"
  by (simp add: proper_type_def)

lemma proper_named [simp]: "(\<And>w. t \<noteq> UNNAMED w) \<Longrightarrow> proper_type t"
  by (cases t) (simp_all add: proper_type_def packet_type_of_def)

lemma packet_type_of_u32 [simp]: "proper_type t \<Longrightarrow> packet_type_of (u32_of_packet_type t) = t"
  by (simp add: proper_type_def)

section \<open>Frames\<close>

definition KB :: "64 word \<Rightarrow> 64 word" where
  "KB num = num * 1024"

definition MB :: "64 word \<Rightarrow> 64 word" where
  "MB num = num * 1024 * 1024"

text \<open>
  The packet that \<^verbatim>\<open>send_packet_sync\<close> and \<^verbatim>\<open>NetworkSession::send_packet\<close> build: type and
  length in network order, then the body.
\<close>

definition full_packet :: "packet_type \<Rightarrow> bytes \<Rightarrow> bytes" where
  "full_packet type body =
     net_bytes (u32_of_packet_type type) @ net_bytes (of_nat (length body)) @ body"

text \<open>What the receivers take from the 8 bytes of a header.\<close>

definition header_type :: "bytes \<Rightarrow> packet_type" where
  "header_type header = packet_type_of (net_u32 (take 4 header))"

definition header_length :: "bytes \<Rightarrow> u32" where
  "header_length header = net_u32 (take 4 (drop 4 header))"

lemma header_of_full_packet [simp]:
  "proper_type t \<Longrightarrow> header_type (take 8 (full_packet t body @ rest)) = t"
  "header_length (take 8 (full_packet t body @ rest)) = of_nat (length body)"
  "drop 8 (full_packet t body @ rest) = body @ rest"
  by (simp_all add: full_packet_def header_type_def header_length_def)

lemma length_full_packet [simp]: "length (full_packet t body) = 8 + length body"
  by (simp add: full_packet_def)

section \<open>Blocking transfer\<close>

text \<open>
  A blocking socket: the bytes the peer sends before it closes, the bytes written, and the
  message of the error that writing gives, if any.
\<close>

record blocking_socket =
  sock_in :: bytes
  sock_out :: bytes
  sock_write_error :: "string option"

definition send_packet_sync :: "packet_type \<Rightarrow> bytes \<Rightarrow> (fault, blocking_socket, unit) prog" where
  "send_packet_sync type body =
     bnd (gets sock_write_error) (\<lambda>error.
       case error of
         Some message \<Rightarrow> throw (RuntimeError (''Send failed: '' @ message))
       | None \<Rightarrow> modify (\<lambda>s. s\<lparr>sock_out := sock_out s @ full_packet type body\<rparr>))"

text \<open>\<^verbatim>\<open>boost::asio::read\<close> fills its whole buffer or ends with the end-of-file error.\<close>

definition read_exactly :: "nat \<Rightarrow> (fault, blocking_socket, bytes option) prog" where
  "read_exactly n =
     bnd (gets sock_in) (\<lambda>bs.
       if length bs < n then bnd (modify (\<lambda>s. s\<lparr>sock_in := []\<rparr>)) (\<lambda>_. ret None)
       else bnd (modify (\<lambda>s. s\<lparr>sock_in := drop n bs\<rparr>)) (\<lambda>_. ret (Some (take n bs))))"

text \<open>
  The header is read with an error code, the body without one: there the library throws
  itself, and the test of \<^verbatim>\<open>error\<close> after it sees the success of the header.
\<close>

definition recv_packet_sync :: "(fault, blocking_socket, packet_type \<times> bytes) prog" where
  "recv_packet_sync =
     bnd (read_exactly 8) (\<lambda>header.
       case header of
         None \<Rightarrow> throw (RuntimeError (''Recv failed: '' @ ''End of file''))
       | Some h \<Rightarrow>
           (let type = header_type h; len = header_length h in
            if ucast len > MB 10 then throw (RuntimeError ''packet too large'')
            else if len > 0 then
              bnd (read_exactly (unat len)) (\<lambda>body.
                case body of
                  None \<Rightarrow> throw (SystemError ''End of file'')
                | Some b \<Rightarrow> ret (type, b))
            else ret (type, [])))"

section \<open>Properties of the blocking transfer\<close>

lemma MB_10: "unat (MB 10) = 10485760"
  by (simp add: MB_def)

lemma too_large_iff: "ucast (len :: u32) > MB 10 \<longleftrightarrow> 10485760 < unat len"
proof -
  have "unat len < 2 ^ LENGTH(32)" by (rule unsigned_less)
  then have "unat (ucast len :: 64 word) = unat len"
    by (simp add: unsigned_ucast_eq take_bit_nat_eq_self)
  then show ?thesis by (simp add: word_less_nat_alt MB_10)
qed

lemma read_exactly_run:
  "read_exactly n s =
    (if length (sock_in s) < n then (Inr None, s\<lparr>sock_in := []\<rparr>)
     else (Inr (Some (take n (sock_in s))), s\<lparr>sock_in := drop n (sock_in s)\<rparr>))"
  by (simp add: read_exactly_def prog_simps)

lemma recv_after_header:
  assumes "length h = 8" and "sock_in s = h @ bs"
  shows "recv_packet_sync s =
    (if 10485760 < unat (header_length h)
     then (Inl (RuntimeError ''packet too large''), s\<lparr>sock_in := bs\<rparr>)
     else if length bs < unat (header_length h)
     then (Inl (SystemError ''End of file''), s\<lparr>sock_in := []\<rparr>)
     else (Inr (header_type h, take (unat (header_length h)) bs),
        s\<lparr>sock_in := drop (unat (header_length h)) bs\<rparr>))"
proof -
  have "read_exactly 8 s = (Inr (Some h), s\<lparr>sock_in := bs\<rparr>)"
    using assms by (simp add: read_exactly_run)
  then show ?thesis
    by (cases "header_length h = 0")
      (simp_all add: recv_packet_sync_def prog_simps Let_def too_large_iff read_exactly_run
        word_gt_0)
qed

lemma full_packet_split:
  "full_packet t body = (net_bytes (u32_of_packet_type t) @ net_bytes (of_nat (length body))) @ body"
  by (simp add: full_packet_def)

lemma header_fields [simp]:
  "proper_type t \<Longrightarrow> header_type (net_bytes (u32_of_packet_type t) @ net_bytes l) = t"
  "header_length (net_bytes (u32_of_packet_type t) @ net_bytes l) = l"
  by (simp_all add: header_type_def header_length_def)

lemma recv_sends:
  assumes "proper_type t" and "length body \<le> 10485760" and "sock_in s = full_packet t body @ rest"
  shows "recv_packet_sync s = (Inr (t, body), s\<lparr>sock_in := rest\<rparr>)"
proof -
  have "unat (of_nat (length body) :: u32) = length body"
    using assms(2) by (intro unat_of_nat_fits32) (simp add: fits32_def)
  then show ?thesis
    using assms recv_after_header [of "net_bytes (u32_of_packet_type t)
        @ net_bytes (of_nat (length body))" s "body @ rest"]
    by (simp add: full_packet_def)
qed

end
