(* ===== verification/Network.thy ===== *)
theory Network
  imports Protocol
begin

text \<open>
  \<^verbatim>\<open>include/network_session.hpp\<close>: the asynchronous reader, which turns the byte stream into
  packets, and the writer, which sends queued packets one at a time. The completion handlers
  of Boost.Asio run one after another on the single thread of the \<^verbatim>\<open>io_context\<close>; each is a
  step here.
\<close>

section \<open>Reader\<close>

text \<open>
  What the session waits for: the 8 bytes of a header, or the body of the packet that the
  last header announced.
\<close>

datatype read_state = ReadHeader | ReadBody packet_type nat

record reader =
  inbuf :: bytes
  rstate :: read_state

definition start_reader :: reader where
  "start_reader = \<lparr>inbuf = [], rstate = ReadHeader\<rparr>"

text \<open>
  \<^verbatim>\<open>parse_header_and_read_body\<close>, called when \<^verbatim>\<open>header_buffer\<close> is full. The size test of the
  source is commented out, so every length is accepted.
\<close>

definition parse_header_and_read_body :: "bytes \<Rightarrow> read_state" where
  "parse_header_and_read_body header =
     ReadBody (header_type header) (unat (header_length header))"

text \<open>
  One completed \<^verbatim>\<open>async_read\<close>, when the bytes it waits for have arrived: a header makes the
  session wait for its body, a body is handed to \<^verbatim>\<open>handle_packet\<close> and the next header is
  awaited.
\<close>

definition read_step :: "reader \<Rightarrow> ((packet_type \<times> bytes) option \<times> reader) option" where
  "read_step r =
     (case rstate r of
        ReadHeader \<Rightarrow>
          if length (inbuf r) < 8 then None
          else Some (None, \<lparr>inbuf = drop 8 (inbuf r),
                 rstate = parse_header_and_read_body (take 8 (inbuf r))\<rparr>)
      | ReadBody type len \<Rightarrow>
          if length (inbuf r) < len then None
          else Some (Some (type, take len (inbuf r)), \<lparr>inbuf = drop len (inbuf r),
                 rstate = ReadHeader\<rparr>))"

text \<open>All packets that the bytes received so far complete, and the reader that is left.\<close>

fun read_measure :: "reader \<Rightarrow> nat" where
  "read_measure r = 2 * length (inbuf r) + (case rstate r of ReadHeader \<Rightarrow> 0 | ReadBody _ _ \<Rightarrow> 1)"

lemma read_step_measure: "read_step r = Some (p, r') \<Longrightarrow> read_measure r' < read_measure r"
  by (auto simp: read_step_def parse_header_and_read_body_def split: read_state.splits if_splits)

function read_all :: "reader \<Rightarrow> (packet_type \<times> bytes) list \<times> reader" where
  "read_all r =
     (case read_step r of
        None \<Rightarrow> ([], r)
      | Some (p, r') \<Rightarrow>
          (case read_all r' of (ps, r'') \<Rightarrow>
             ((case p of None \<Rightarrow> ps | Some q \<Rightarrow> q # ps), r'')))"
  by pat_completeness auto
termination
  by (relation "measure read_measure") (auto dest: read_step_measure)

declare read_all.simps [simp del]

definition receive :: "bytes \<Rightarrow> reader \<Rightarrow> (packet_type \<times> bytes) list \<times> reader" where
  "receive chunk r = read_all (r\<lparr>inbuf := inbuf r @ chunk\<rparr>)"

fun receive_chunks :: "bytes list \<Rightarrow> reader \<Rightarrow> (packet_type \<times> bytes) list \<times> reader" where
  "receive_chunks [] r = ([], r)"
| "receive_chunks (c # cs) r =
     (case receive c r of (ps, r') \<Rightarrow>
        (case receive_chunks cs r' of (qs, r'') \<Rightarrow> (ps @ qs, r'')))"

section \<open>Reader properties\<close>

text \<open>A step that is possible stays the same when more bytes are behind.\<close>

lemma read_step_more:
  "read_step r = Some (p, r') \<Longrightarrow>
    read_step (r\<lparr>inbuf := inbuf r @ bs\<rparr>) = Some (p, r'\<lparr>inbuf := inbuf r' @ bs\<rparr>)"
  by (auto simp: read_step_def split: read_state.splits if_splits)

lemma read_all_None: "read_step r = None \<Longrightarrow> read_all r = ([], r)"
  by (simp add: read_all.simps)

lemma read_all_Some:
  "read_step r = Some (p, r') \<Longrightarrow>
    read_all r = ((case p of None \<Rightarrow> [] | Some q \<Rightarrow> [q]) @ fst (read_all r'), snd (read_all r'))"
  by (subst read_all.simps) (simp split: prod.split option.split)

lemma read_all_stuck: "read_step (snd (read_all r)) = None"
proof (induction r rule: read_all.induct)
  case (1 r)
  then show ?case
    by (cases "read_step r") (auto simp: read_all_None read_all_Some)
qed

lemma read_all_append:
  "read_all (r\<lparr>inbuf := inbuf r @ bs\<rparr>) =
    (fst (read_all r) @ fst (receive bs (snd (read_all r))), snd (receive bs (snd (read_all r))))"
proof (induction r rule: read_all.induct)
  case (1 r)
  show ?case
  proof (cases "read_step r")
    case None
    then show ?thesis by (simp add: read_all_None receive_def)
  next
    case (Some pr)
    obtain p r' where pr: "pr = (p, r')" by force
    with Some 1 [OF Some pr [symmetric]] show ?thesis
      by (simp add: read_all_Some [OF read_step_more [of r p r' bs]] read_all_Some)
  qed
qed

lemma receive_append:
  assumes "read_step r = None"
  shows "receive (a @ b) r =
    (fst (receive a r) @ fst (receive b (snd (receive a r))), snd (receive b (snd (receive a r))))"
  using read_all_append [of "r\<lparr>inbuf := inbuf r @ a\<rparr>" b] by (simp add: receive_def)

lemma receive_stuck: "read_step (snd (receive a r)) = None"
  by (simp add: receive_def read_all_stuck)

lemma receive_Nil: "read_step r = None \<Longrightarrow> receive [] r = ([], r)"
  by (simp add: receive_def read_all_None)

lemma receive_chunks_concat:
  "read_step r = None \<Longrightarrow> receive_chunks cs r = receive (concat cs) r"
proof (induction cs arbitrary: r)
  case Nil
  then show ?case by (simp add: receive_Nil)
next
  case (Cons c cs)
  obtain ps r' where c: "receive c r = (ps, r')" by force
  with receive_stuck [of c r] have "read_step r' = None" by simp
  then show ?case
    using Cons by (simp add: receive_append c case_prod_beta)
qed

text \<open>The reader undoes the framing of the sender.\<close>

definition sendable :: "packet_type \<times> bytes \<Rightarrow> bool" where
  "sendable p \<longleftrightarrow> proper_type (fst p) \<and> fits32 (length (snd p))"

lemma read_all_frame:
  assumes "sendable (t, body)"
  shows "read_all \<lparr>inbuf = full_packet t body @ rest, rstate = ReadHeader\<rparr> =
    ((t, body) # fst (read_all \<lparr>inbuf = rest, rstate = ReadHeader\<rparr>),
     snd (read_all \<lparr>inbuf = rest, rstate = ReadHeader\<rparr>))"
proof -
  let ?h = "net_bytes (u32_of_packet_type t) @ net_bytes (of_nat (length body))"
  have "read_step \<lparr>inbuf = full_packet t body @ rest, rstate = ReadHeader\<rparr>
      = Some (None, \<lparr>inbuf = body @ rest, rstate = ReadBody t (length body)\<rparr>)"
    using assms by (simp add: read_step_def parse_header_and_read_body_def full_packet_def sendable_def)
  moreover have "read_step \<lparr>inbuf = body @ rest, rstate = ReadBody t (length body)\<rparr>
      = Some (Some (t, body), \<lparr>inbuf = rest, rstate = ReadHeader\<rparr>)"
    by (simp add: read_step_def)
  ultimately show ?thesis by (simp add: read_all_Some)
qed

lemma read_all_frames:
  "list_all sendable ps \<Longrightarrow>
    read_all \<lparr>inbuf = concat (map (\<lambda>(t, b). full_packet t b) ps), rstate = ReadHeader\<rparr>
      = (ps, start_reader)"
proof (induction ps)
  case Nil
  then show ?case by (simp add: read_all_None read_step_def start_reader_def)
next
  case (Cons p ps)
  then show ?case by (cases p) (simp add: read_all_frame)
qed

lemma start_reader_stuck: "read_step start_reader = None"
  by (simp add: read_step_def start_reader_def)

lemma receive_frames_any_chunks:
  assumes "list_all sendable ps" and "concat cs = concat (map (\<lambda>(t, b). full_packet t b) ps)"
  shows "receive_chunks cs start_reader = (ps, start_reader)"
  using read_all_frames [OF assms(1)] assms(2)
  by (simp add: receive_chunks_concat start_reader_stuck receive_def) (simp add: start_reader_def)

section \<open>Writer\<close>

text \<open>
  The sending half of a \<^verbatim>\<open>NetworkSession\<close>: packets in closures posted to the executor and not
  run yet, \<^verbatim>\<open>write_queue\<close>, the buffers of outstanding \<^verbatim>\<open>async_write\<close> operations, the packets
  written completely, and whether the socket is open.
\<close>

record net =
  posted :: "bytes list"
  write_queue :: "bytes list"
  in_flight :: "bytes list"
  wire :: "bytes list"
  sock_open :: bool

definition new_net :: net where
  "new_net = \<lparr>posted = [], write_queue = [], in_flight = [], wire = [], sock_open = True\<rparr>"

definition send_packet :: "packet_type \<Rightarrow> bytes \<Rightarrow> net \<Rightarrow> net" where
  "send_packet type body n = n\<lparr>posted := posted n @ [full_packet type body]\<rparr>"

text \<open>\<^verbatim>\<open>do_write\<close> takes the front of the queue, which must not be empty.\<close>

definition do_write :: "net \<Rightarrow> fault + net" where
  "do_write n =
     (case write_queue n of
        [] \<Rightarrow> Inl (Undefined ''front of an empty queue'')
      | p # _ \<Rightarrow> Inr (n\<lparr>in_flight := in_flight n @ [p]\<rparr>))"

text \<open>The closure that \<^verbatim>\<open>send_packet\<close> posts.\<close>

definition run_posted :: "bytes \<Rightarrow> net \<Rightarrow> fault + net" where
  "run_posted p n =
     (let write_in_progress = (write_queue n \<noteq> []);
          n' = n\<lparr>write_queue := write_queue n @ [p]\<rparr>
      in if \<not> write_in_progress then do_write n' else Inr n')"

text \<open>The completion handler of \<^verbatim>\<open>async_write\<close>.\<close>

definition write_done :: "bool \<Rightarrow> net \<Rightarrow> fault + net" where
  "write_done error n =
     (if \<not> error then
        (case write_queue n of
           [] \<Rightarrow> Inl (Undefined ''pop of an empty queue'')
         | _ # q \<Rightarrow>
             (let n' = n\<lparr>write_queue := q\<rparr> in if q \<noteq> [] then do_write n' else Inr n'))
      else Inr (n\<lparr>sock_open := False\<rparr>))"

text \<open>
  The events of a session's writer. The executor runs posted closures in the order they were
  posted; a completion takes the first outstanding operation. A read that fails closes the
  socket as well.
\<close>

datatype net_event = Send packet_type bytes | RunPosted | WriteDone bool | ReadFailed

fun net_step :: "net_event \<Rightarrow> net \<Rightarrow> (fault + net) option" where
  "net_step (Send type body) n = Some (Inr (send_packet type body n))"
| "net_step RunPosted n =
     (case posted n of [] \<Rightarrow> None | p # ps \<Rightarrow> Some (run_posted p (n\<lparr>posted := ps\<rparr>)))"
| "net_step (WriteDone error) n =
     (case in_flight n of [] \<Rightarrow> None
      | p # ps \<Rightarrow> Some (write_done error
           (n\<lparr>in_flight := ps, wire := (if error then wire n else wire n @ [p])\<rparr>)))"
| "net_step ReadFailed n = Some (Inr (n\<lparr>sock_open := False\<rparr>))"

text \<open>A run: \<open>None\<close> when an event is not possible where it stands.\<close>

fun net_run :: "net_event list \<Rightarrow> net \<Rightarrow> (fault + net) option" where
  "net_run [] n = Some (Inr n)"
| "net_run (e # es) n =
     (case net_step e n of None \<Rightarrow> None | Some (Inl f) \<Rightarrow> Some (Inl f)
      | Some (Inr n') \<Rightarrow> net_run es n')"

fun sent_packets :: "net_event list \<Rightarrow> bytes list" where
  "sent_packets [] = []"
| "sent_packets (Send type body # es) = full_packet type body # sent_packets es"
| "sent_packets (_ # es) = sent_packets es"

section \<open>Writer properties\<close>

text \<open>
  At most one \<^verbatim>\<open>async_write\<close> is outstanding and it writes the front of the queue; on an open
  socket a non-empty queue is being written.
\<close>

definition net_inv :: "net \<Rightarrow> bool" where
  "net_inv n \<longleftrightarrow>
     (in_flight n = [] \<or> (write_queue n \<noteq> [] \<and> in_flight n = [hd (write_queue n)])) \<and>
     (sock_open n \<and> write_queue n \<noteq> [] \<longrightarrow> in_flight n \<noteq> [])"

text \<open>Everything handed to \<^verbatim>\<open>send_packet\<close>, in the order it was.\<close>

definition accepted :: "net \<Rightarrow> bytes list" where
  "accepted n = wire n @ write_queue n @ posted n"

lemma new_net_inv: "net_inv new_net" and new_net_accepted: "accepted new_net = []"
  by (simp_all add: net_inv_def new_net_def accepted_def)

lemma do_write_Cons: "write_queue n = p # q \<Longrightarrow> do_write n = Inr (n\<lparr>in_flight := in_flight n @ [p]\<rparr>)"
  by (simp add: do_write_def)

lemma net_step_inv:
  assumes "net_inv n" and "net_step e n = Some r"
  shows "\<exists>n'. r = Inr n' \<and> net_inv n' \<and> accepted n' = accepted n @ sent_packets [e]"
proof (cases e)
  case (Send type body)
  with assms show ?thesis by (auto simp: send_packet_def net_inv_def accepted_def)
next
  case RunPosted
  with assms show ?thesis
    by (cases "write_queue n")
      (auto simp: run_posted_def do_write_Cons net_inv_def accepted_def Let_def
        split: list.splits)
next
  case (WriteDone error)
  with assms show ?thesis
    by (cases "write_queue n")
      (auto simp: write_done_def do_write_def net_inv_def accepted_def Let_def
        split: list.splits if_splits)
next
  case ReadFailed
  with assms show ?thesis by (auto simp: net_inv_def accepted_def)
qed

lemma sent_packets_Cons: "sent_packets (e # es) = sent_packets [e] @ sent_packets es"
  by (cases e) simp_all

lemma net_run_inv:
  "net_inv n \<Longrightarrow> net_run es n = Some r \<Longrightarrow>
    \<exists>n'. r = Inr n' \<and> net_inv n' \<and> accepted n' = accepted n @ sent_packets es"
proof (induction es arbitrary: n)
  case Nil
  then show ?case by auto
next
  case (Cons e es)
  then obtain r1 where r1: "net_step e n = Some r1" by (auto split: option.splits)
  from net_step_inv [OF Cons.prems(1) this] obtain n1 where n1: "r1 = Inr n1" "net_inv n1"
    and acc: "accepted n1 = accepted n @ sent_packets [e]" by blast
  with r1 Cons.prems(2) have "net_run es n1 = Some r" by simp
  from Cons.IH [OF n1(2) this] show ?case
    unfolding sent_packets_Cons [of e es] by (auto simp: acc)
qed

text \<open>Running every posted closure and completing every write empties an open session.\<close>

lemma run_posted_all:
  "net_inv n \<Longrightarrow> sock_open n \<Longrightarrow>
    \<exists>n'. net_run (replicate (length (posted n)) RunPosted) n = Some (Inr n') \<and> net_inv n' \<and>
      sock_open n' \<and> posted n' = [] \<and> wire n' = wire n \<and> write_queue n' = write_queue n @ posted n"
proof (induction "posted n" arbitrary: n)
  case Nil
  then show ?case by auto
next
  case (Cons p ps)
  from Cons.hyps(2) obtain r where r: "net_step RunPosted n = Some r"
    by (cases "posted n") simp_all
  obtain n1 where n1: "r = Inr n1" "net_inv n1" using net_step_inv [OF Cons.prems(1) r] by blast
  have eqs: "posted n1 = ps" "wire n1 = wire n" "write_queue n1 = write_queue n @ [p]"
    "sock_open n1"
    using r n1(1) Cons.hyps(2) [symmetric] Cons.prems(2)
    by (cases "write_queue n", auto simp: run_posted_def do_write_Cons Let_def split: if_splits)
  from Cons.hyps(1) [of n1] n1(2) eqs obtain n' where
    "net_run (replicate (length ps) RunPosted) n1 = Some (Inr n')" "net_inv n'" "sock_open n'"
    "posted n' = []" "wire n' = wire n" "write_queue n' = write_queue n @ p # ps" by auto
  then show ?case using r n1(1) Cons.hyps(2) [symmetric] by simp
qed

lemma write_all:
  "net_inv n \<Longrightarrow> sock_open n \<Longrightarrow>
    \<exists>n'. net_run (replicate (length (write_queue n)) (WriteDone False)) n = Some (Inr n') \<and>
      sock_open n' \<and> posted n' = posted n \<and> wire n' = wire n @ write_queue n \<and> write_queue n' = []"
proof (induction "write_queue n" arbitrary: n)
  case Nil
  then show ?case by auto
next
  case (Cons p q)
  then have fl: "in_flight n = [p]" by (auto simp: net_inv_def) (metis list.sel(1))
  then obtain r where r: "net_step (WriteDone False) n = Some r" by simp
  obtain n1 where n1: "r = Inr n1" "net_inv n1" using net_step_inv [OF Cons.prems(1) r] by blast
  have eqs: "write_queue n1 = q" "wire n1 = wire n @ [p]" "posted n1 = posted n" "sock_open n1"
    using r n1(1) Cons.hyps(2) [symmetric] Cons.prems(2) fl
    by (auto simp: write_done_def do_write_def Let_def split: list.splits if_splits)
  from Cons.hyps(1) [of n1] n1(2) eqs obtain n' where
    "net_run (replicate (length q) (WriteDone False)) n1 = Some (Inr n')" "sock_open n'"
    "posted n' = posted n" "wire n' = wire n @ p # q" "write_queue n' = []" by auto
  then show ?case using r n1(1) Cons.hyps(2) [symmetric] by simp
qed

lemma net_run_append:
  "net_run es n = Some (Inr n') \<Longrightarrow> net_run (es @ fs) n = net_run fs n'"
  by (induction es arbitrary: n) (auto split: option.splits sum.splits)

end
