(* ===== verification/Store.thy ===== *)
theory Store
  imports Crypto
begin

text \<open>
  The SQLite database of \<^verbatim>\<open>include/database.hpp\<close>: one list of rows per table, in rowid order,
  and the last number each \<^verbatim>\<open>AUTOINCREMENT\<close> table gave out. An insertion tests the constraints
  of the schema (\<^verbatim>\<open>UNIQUE\<close>, \<^verbatim>\<open>PRIMARY KEY\<close>, \<^verbatim>\<open>FOREIGN KEY\<close> with \<^verbatim>\<open>foreign_keys=ON\<close>) and throws
  when one fails. SQLite's integers are 64-bit; \<^verbatim>\<open>AUTOINCREMENT\<close> refuses to pass the largest.
  The store also counts the clock readings and UUIDs drawn so far.
\<close>

section \<open>Tables\<close>

record user_row =
  u_id :: int
  u_login :: string
  u_salt :: string
  u_password :: string

record friendship_row =
  f_id :: int
  f_user1 :: int
  f_user2 :: int
  f_status :: string
  f_initiator :: int

record message_row =
  m_id :: int
  m_sender :: int
  m_recipient :: int
  m_create_at :: int
  m_message :: string
  m_delivered :: int

record session_row =
  s_token :: string
  s_id :: int
  s_created_at :: int

record store =
  users :: "user_row list"
  friendships :: "friendship_row list"
  direct_messages :: "message_row list"
  sessions :: "session_row list"
  users_seq :: int
  friendships_seq :: int
  messages_seq :: int
  clock_pos :: nat
  uuid_pos :: nat

type_synonym 'a db = "(fault, store, 'a) prog"

text \<open>\<^verbatim>\<open>create_tables\<close> on a new database file.\<close>

definition create_tables :: store where
  "create_tables = \<lparr>users = [], friendships = [], direct_messages = [], sessions = [],
     users_seq = 0, friendships_seq = 0, messages_seq = 0, clock_pos = 0, uuid_pos = 0\<rparr>"

text \<open>\<^verbatim>\<open>getText\<close> gives a C string.\<close>

definition getText :: "string \<Rightarrow> string" where
  "getText column = c_str column"

definition system_now :: "env \<Rightarrow> int db" where
  "system_now E = bnd (gets (\<lambda>s. clock E (clock_pos s))) (\<lambda>t.
     bnd (modify (\<lambda>s. s\<lparr>clock_pos := Suc (clock_pos s)\<rparr>)) (\<lambda>_. ret t))"

definition draw_uuid :: "env \<Rightarrow> string db" where
  "draw_uuid E = bnd (gets (\<lambda>s. uuid E (uuid_pos s))) (\<lambda>u.
     bnd (modify (\<lambda>s. s\<lparr>uuid_pos := Suc (uuid_pos s)\<rparr>)) (\<lambda>_. ret u))"

section \<open>Insertions\<close>

definition max_rowid :: int where
  "max_rowid = 2 ^ 63 - 1"

definition user_ids :: "store \<Rightarrow> int set" where
  "user_ids s = u_id ` set (users s)"

definition insert_user :: "string \<Rightarrow> string \<Rightarrow> string \<Rightarrow> unit db" where
  "insert_user login salt password s =
    (if login \<in> u_login ` set (users s)
     then (Inl (SQLiteException ''UNIQUE constraint failed: users.login''), s)
     else if users_seq s \<ge> max_rowid
     then (Inl (SQLiteException ''database or disk is full''), s)
     else (Inr (), s\<lparr>users := users s @ [\<lparr>u_id = users_seq s + 1, u_login = login,
             u_salt = salt, u_password = password\<rparr>],
           users_seq := users_seq s + 1\<rparr>))"

definition insert_friendship :: "int \<Rightarrow> int \<Rightarrow> string \<Rightarrow> int \<Rightarrow> unit db" where
  "insert_friendship user1 user2 status initiator s =
    (if user1 \<notin> user_ids s \<or> user2 \<notin> user_ids s
     then (Inl (SQLiteException ''FOREIGN KEY constraint failed''), s)
     else if friendships_seq s \<ge> max_rowid
     then (Inl (SQLiteException ''database or disk is full''), s)
     else (Inr (), s\<lparr>friendships := friendships s @ [\<lparr>f_id = friendships_seq s + 1,
             f_user1 = user1, f_user2 = user2, f_status = status, f_initiator = initiator\<rparr>],
           friendships_seq := friendships_seq s + 1\<rparr>))"

text \<open>The row id of the new message is what \<^verbatim>\<open>getLastInsertRowid\<close> returns after it.\<close>

definition insert_message :: "int \<Rightarrow> int \<Rightarrow> int \<Rightarrow> string \<Rightarrow> int \<Rightarrow> int db" where
  "insert_message sender recipient create_at message delivered s =
    (if sender \<notin> user_ids s \<or> recipient \<notin> user_ids s
     then (Inl (SQLiteException ''FOREIGN KEY constraint failed''), s)
     else if messages_seq s \<ge> max_rowid
     then (Inl (SQLiteException ''database or disk is full''), s)
     else (Inr (messages_seq s + 1), s\<lparr>direct_messages := direct_messages s @
             [\<lparr>m_id = messages_seq s + 1, m_sender = sender, m_recipient = recipient,
               m_create_at = create_at, m_message = message, m_delivered = delivered\<rparr>],
           messages_seq := messages_seq s + 1\<rparr>))"

definition insert_session :: "string \<Rightarrow> int \<Rightarrow> int \<Rightarrow> unit db" where
  "insert_session token uid created_at s =
    (if token \<in> s_token ` set (sessions s)
     then (Inl (SQLiteException ''UNIQUE constraint failed: sessions.token''), s)
     else if uid \<notin> user_ids s
     then (Inl (SQLiteException ''FOREIGN KEY constraint failed''), s)
     else (Inr (), s\<lparr>sessions := sessions s @ [\<lparr>s_token = token, s_id = uid,
             s_created_at = created_at\<rparr>]\<rparr>))"

section \<open>The AUTOINCREMENT interface\<close>

text \<open>
  A table with an \<^verbatim>\<open>AUTOINCREMENT\<close> key: rows are appended under the number after the last
  one given out. The ids then grow strictly along the table and are never used twice, also
  when rows are deleted or rewritten in between.
\<close>

definition ids_ok :: "('r \<Rightarrow> int) \<Rightarrow> 'r list \<Rightarrow> int \<Rightarrow> bool" where
  "ids_ok rid rows seq \<longleftrightarrow>
     sorted_wrt (<) (map rid rows) \<and> (\<forall>r \<in> set rows. 0 < rid r \<and> rid r \<le> seq) \<and>
     0 \<le> seq \<and> seq \<le> max_rowid"

locale autoincrement =
  fixes rows :: "'s \<Rightarrow> 'r list"
    and rid :: "'r \<Rightarrow> int"
    and seq :: "'s \<Rightarrow> int"
    and insert :: "'v \<Rightarrow> (fault, 's, 'b) prog"
    and row :: "'v \<Rightarrow> int \<Rightarrow> 'r"
  assumes rid_row: "rid (row v i) = i"
    and insert_fails: "insert v s = (Inl e, s') \<Longrightarrow> s' = s"
    and insert_appends: "insert v s = (Inr x, s') \<Longrightarrow> seq s < max_rowid \<and>
      rows s' = rows s @ [row v (seq s + 1)] \<and> seq s' = seq s + 1"
begin

lemma insert_ids_ok:
  assumes "ids_ok rid (rows s) (seq s)"
  shows "ids_ok rid (rows (snd (insert v s))) (seq (snd (insert v s)))"
proof -
  obtain r s' where run: "insert v s = (r, s')" by force
  show ?thesis
  proof (cases r)
    case (Inl e)
    with run assms insert_fails show ?thesis by auto
  next
    case (Inr x)
    with run have "insert v s = (Inr x, s')" by simp
    from insert_appends [OF this] assms run show ?thesis
      by (fastforce simp: ids_ok_def sorted_wrt_append rid_row)
  qed
qed

lemma insert_fresh:
  assumes "ids_ok rid (rows s) (seq s)" and "insert v s = (Inr x, s')"
  shows "seq s' \<notin> rid ` set (rows s)" and "row v (seq s') \<in> set (rows s')"
  using insert_appends [OF assms(2)] assms(1) by (fastforce simp: ids_ok_def)+

end

lemma ids_ok_distinct: "ids_ok rid rows seq \<Longrightarrow> distinct (map rid rows)"
  by (auto simp: ids_ok_def strict_sorted_iff)

lemma ids_ok_filter: "ids_ok rid rows seq \<Longrightarrow> ids_ok rid (filter P rows) seq"
  by (auto simp: ids_ok_def sorted_wrt_map intro: sorted_wrt_filter)

lemma ids_ok_map:
  "ids_ok rid rows seq \<Longrightarrow> (\<And>r. rid (f r) = rid r) \<Longrightarrow> ids_ok rid (map f rows) seq"
  by (auto simp: ids_ok_def sorted_wrt_map)

interpretation user_table: autoincrement users u_id users_seq
  "\<lambda>(l, sa, p). insert_user l sa p"
  "\<lambda>(l, sa, p) i. \<lparr>u_id = i, u_login = l, u_salt = sa, u_password = p\<rparr>"
  by unfold_locales (auto simp: insert_user_def split: if_splits)

interpretation friendship_table: autoincrement friendships f_id friendships_seq
  "\<lambda>(a, b, st, ini). insert_friendship a b st ini"
  "\<lambda>(a, b, st, ini) i. \<lparr>f_id = i, f_user1 = a, f_user2 = b, f_status = st, f_initiator = ini\<rparr>"
  by unfold_locales (auto simp: insert_friendship_def split: if_splits)

interpretation message_table: autoincrement direct_messages m_id messages_seq
  "\<lambda>(a, b, t, m, d). insert_message a b t m d"
  "\<lambda>(a, b, t, m, d) i. \<lparr>m_id = i, m_sender = a, m_recipient = b, m_create_at = t,
     m_message = m, m_delivered = d\<rparr>"
  by unfold_locales (auto simp: insert_message_def split: if_splits)

section \<open>The invariant of the database\<close>

definition users_inv :: "store \<Rightarrow> bool" where
  "users_inv s \<longleftrightarrow> ids_ok u_id (users s) (users_seq s) \<and> distinct (map u_login (users s))"

definition friendship_ok :: "int set \<Rightarrow> friendship_row \<Rightarrow> bool" where
  "friendship_ok ids r \<longleftrightarrow> f_user1 r < f_user2 r \<and> f_user1 r \<in> ids \<and> f_user2 r \<in> ids \<and>
     f_status r \<in> {''pending'', ''accepted''} \<and> f_initiator r \<in> {f_user1 r, f_user2 r}"

definition friendships_inv :: "store \<Rightarrow> bool" where
  "friendships_inv s \<longleftrightarrow> ids_ok f_id (friendships s) (friendships_seq s) \<and>
     (\<forall>r \<in> set (friendships s). friendship_ok (user_ids s) r) \<and>
     distinct (map (\<lambda>r. (f_user1 r, f_user2 r)) (friendships s))"

definition messages_inv :: "store \<Rightarrow> bool" where
  "messages_inv s \<longleftrightarrow> ids_ok m_id (direct_messages s) (messages_seq s) \<and>
     (\<forall>r \<in> set (direct_messages s). m_sender r \<in> user_ids s \<and> m_recipient r \<in> user_ids s \<and>
        m_delivered r \<in> {0, 1})"

definition sessions_inv :: "store \<Rightarrow> bool" where
  "sessions_inv s \<longleftrightarrow> distinct (map s_token (sessions s)) \<and> s_id ` set (sessions s) \<subseteq> user_ids s"

definition store_inv :: "store \<Rightarrow> bool" where
  "store_inv s \<longleftrightarrow> users_inv s \<and> friendships_inv s \<and> messages_inv s \<and> sessions_inv s"

lemmas store_inv_defs = users_inv_def friendships_inv_def messages_inv_def sessions_inv_def

lemma store_inv_create_tables: "store_inv create_tables"
  by (simp add: store_inv_def store_inv_defs create_tables_def ids_ok_def user_ids_def max_rowid_def)

lemma system_now_run [prog_simps]:
  "system_now E s = (Inr (clock E (clock_pos s)), s\<lparr>clock_pos := Suc (clock_pos s)\<rparr>)"
  by (simp add: system_now_def prog_simps)

lemma draw_uuid_run [prog_simps]:
  "draw_uuid E s = (Inr (uuid E (uuid_pos s)), s\<lparr>uuid_pos := Suc (uuid_pos s)\<rparr>)"
  by (simp add: draw_uuid_def prog_simps)

lemma store_inv_positions [simp]:
  "store_inv (s\<lparr>clock_pos := n\<rparr>) = store_inv s" "store_inv (s\<lparr>uuid_pos := n\<rparr>) = store_inv s"
  by (simp_all add: store_inv_def store_inv_defs user_ids_def)

lemma preserves_store_inv_now [preserves_intros]: "preserves store_inv (system_now E)"
  by (simp add: preserves_def prog_simps)

lemma preserves_store_inv_uuid [preserves_intros]: "preserves store_inv (draw_uuid E)"
  by (simp add: preserves_def prog_simps)

lemma friendship_ok_mono: "friendship_ok A r \<Longrightarrow> A \<subseteq> B \<Longrightarrow> friendship_ok B r"
  by (auto simp: friendship_ok_def)

lemma preserves_store_inv_insert_user [preserves_intros]:
  "preserves store_inv (insert_user login salt password)"
proof (rule preservesI)
  fix s assume inv: "store_inv s"
  let ?s = "snd (insert_user login salt password s)"
  have ids: "ids_ok u_id (users ?s) (users_seq ?s)"
    using user_table.insert_ids_ok [of s "(login, salt, password)"] inv
    by (simp add: store_inv_def users_inv_def)
  have mono: "user_ids s \<subseteq> user_ids ?s" by (auto simp: insert_user_def user_ids_def)
  have "users_inv ?s" using ids inv
    by (auto simp: users_inv_def store_inv_def insert_user_def image_iff)
  moreover have "friendships_inv ?s \<and> messages_inv ?s \<and> sessions_inv ?s"
    using inv mono unfolding store_inv_def store_inv_defs
    by (auto simp: insert_user_def user_ids_def intro: friendship_ok_mono)
  ultimately show "store_inv ?s" by (simp add: store_inv_def)
qed

lemma preserves_store_inv_insert_session [preserves_intros]:
  "preserves store_inv (insert_session token uid created_at)"
  by (rule preservesI)
    (auto simp: insert_session_def store_inv_def store_inv_defs user_ids_def image_iff)

lemma preserves_store_inv_insert_message [preserves_intros]:
  assumes "delivered \<in> {0, 1}"
  shows "preserves store_inv (insert_message sender recipient create_at message delivered)"
proof (rule preservesI)
  fix s assume inv: "store_inv s"
  let ?s = "snd (insert_message sender recipient create_at message delivered s)"
  have "ids_ok m_id (direct_messages ?s) (messages_seq ?s)"
    using message_table.insert_ids_ok [of s "(sender, recipient, create_at, message, delivered)"] inv
    by (simp add: store_inv_def messages_inv_def)
  then show "store_inv ?s"
    using inv assms by (auto simp: insert_message_def store_inv_def store_inv_defs user_ids_def)
qed

text \<open>A friendship may be inserted between two different users that have none yet.\<close>

lemma store_inv_insert_friendship:
  assumes inv: "store_inv s" and "a < b" and "status \<in> {''pending'', ''accepted''}"
    and "initiator \<in> {a, b}" and "\<forall>r \<in> set (friendships s). (f_user1 r, f_user2 r) \<noteq> (a, b)"
  shows "store_inv (snd (insert_friendship a b status initiator s))"
proof -
  let ?s = "snd (insert_friendship a b status initiator s)"
  have "ids_ok f_id (friendships ?s) (friendships_seq ?s)"
    using friendship_table.insert_ids_ok [of s "(a, b, status, initiator)"] inv
    by (simp add: store_inv_def friendships_inv_def)
  then show ?thesis
    using assms
    by (auto simp: insert_friendship_def store_inv_def store_inv_defs user_ids_def
        friendship_ok_def)
qed

end
