(* ===== verification/UserRepository.thy ===== *)
theory UserRepository
  imports Store
begin

text \<open>
  \<^verbatim>\<open>include/repositories/user_repository.hpp\<close>: registration, password check, session tokens
  and the lookups between logins and ids. A \<^verbatim>\<open>SELECT\<close> on a unique column is a search for the
  first row; the mutex makes each operation one step.
\<close>

section \<open>Operations\<close>

definition TOKEN_TTL :: int where
  "TOKEN_TTL = 7 * 24 * 60 * 60"

definition user_by_login :: "string \<Rightarrow> store \<Rightarrow> user_row option" where
  "user_by_login login s = find (\<lambda>r. u_login r = login) (users s)"

definition user_by_id :: "int \<Rightarrow> store \<Rightarrow> user_row option" where
  "user_by_id uid s = find (\<lambda>r. u_id r = uid) (users s)"

definition session_by_token :: "string \<Rightarrow> store \<Rightarrow> session_row option" where
  "session_by_token token s = find (\<lambda>r. s_token r = token) (sessions s)"

definition verifyPassword :: "env \<Rightarrow> string \<Rightarrow> string \<Rightarrow> bool db" where
  "verifyPassword E login password =
     bnd (gets (user_by_login login)) (\<lambda>q.
       case q of
         None \<Rightarrow> ret False
       | Some r \<Rightarrow>
           (let salt = getText (u_salt r); hash = getText (u_password r)
            in ret (sha256 E (password @ salt) = hash)))"

definition generateSalt :: "env \<Rightarrow> string db" where
  "generateSalt E = draw_uuid E"

definition registerUser :: "env \<Rightarrow> string \<Rightarrow> string \<Rightarrow> error_code db" where
  "registerUser E login password =
     bnd (gets (user_by_login login)) (\<lambda>check.
       if check \<noteq> None then ret LoginExists
       else
         bnd (generateSalt E) (\<lambda>salt.
         let hash = sha256 E (password @ salt) in
         bnd (insert_user login salt hash) (\<lambda>_.
         ret OK)))"

text \<open>The id of the new session is read uninitialised if the user is not found.\<close>

definition verifyUser :: "env \<Rightarrow> string \<Rightarrow> string \<Rightarrow> string expected db" where
  "verifyUser E login password =
     bnd (verifyPassword E login password) (\<lambda>valid.
       if \<not> valid then ret (Inl IncorrectCredentials)
       else
         bnd (draw_uuid E) (\<lambda>token.
         bnd (system_now E) (\<lambda>now.
         bnd (gets (user_by_login login)) (\<lambda>q.
         bnd (case q of Some r \<Rightarrow> ret (u_id r)
              | None \<Rightarrow> throw (Undefined ''uninitialised id'')) (\<lambda>uid.
         bnd (insert_session token uid now) (\<lambda>_.
         ret (Inr token)))))))"

definition delete_session :: "string \<Rightarrow> unit db" where
  "delete_session token =
     modify (\<lambda>s. s\<lparr>sessions := filter (\<lambda>r. s_token r \<noteq> token) (sessions s)\<rparr>)"

definition getLoginByToken :: "env \<Rightarrow> string \<Rightarrow> string expected db" where
  "getLoginByToken E token =
     bnd (gets (session_by_token token)) (\<lambda>check.
       case check of
         None \<Rightarrow> ret (Inl NonAuthorized)
       | Some r \<Rightarrow>
           bnd (system_now E) (\<lambda>now.
           if now - s_created_at r > TOKEN_TTL
           then bnd (delete_session token) (\<lambda>_. ret (Inl TokenExpired))
           else
             bnd (gets (user_by_id (s_id r))) (\<lambda>q.
             case q of
               Some u \<Rightarrow> ret (Inr (getText (u_login u)))
             | None \<Rightarrow> ret (Inl NotFound))))"

definition userExists :: "string \<Rightarrow> error_code db" where
  "userExists login =
     bnd (gets (user_by_login login)) (\<lambda>q. ret (if q \<noteq> None then OK else NotFound))"

definition getIdByLogin :: "string \<Rightarrow> int expected db" where
  "getIdByLogin login =
     bnd (gets (user_by_login login)) (\<lambda>q.
       case q of Some r \<Rightarrow> ret (Inr (u_id r)) | None \<Rightarrow> ret (Inl NotFound))"

definition getLoginById :: "int \<Rightarrow> string expected db" where
  "getLoginById uid =
     bnd (gets (user_by_id uid)) (\<lambda>q.
       case q of Some r \<Rightarrow> ret (Inr (getText (u_login r))) | None \<Rightarrow> ret (Inl NotFound))"

definition logout :: "string \<Rightarrow> unit db" where
  "logout token = delete_session token"

definition cleanExpiredTokens :: "env \<Rightarrow> unit db" where
  "cleanExpiredTokens E =
     bnd (system_now E) (\<lambda>now.
       modify (\<lambda>s. s\<lparr>sessions := filter (\<lambda>r. \<not> now - s_created_at r > TOKEN_TTL) (sessions s)\<rparr>))"

section \<open>Lookups\<close>

lemma find_unique:
  "distinct (map k xs) \<Longrightarrow> x \<in> set xs \<Longrightarrow> find (\<lambda>r. k r = k x) xs = Some x"
  by (induction xs) (auto simp: image_iff)

lemma user_by_login_Some: "user_by_login l s = Some u \<Longrightarrow> u \<in> set (users s) \<and> u_login u = l"
  by (auto simp: user_by_login_def find_Some_iff)

lemma user_by_id_Some: "user_by_id i s = Some u \<Longrightarrow> u \<in> set (users s) \<and> u_id u = i"
  by (auto simp: user_by_id_def find_Some_iff)

lemma session_by_token_Some:
  "session_by_token t s = Some r \<Longrightarrow> r \<in> set (sessions s) \<and> s_token r = t"
  by (auto simp: session_by_token_def find_Some_iff)

lemma user_by_login_None: "user_by_login l s = None \<longleftrightarrow> l \<notin> u_login ` set (users s)"
  by (auto simp: user_by_login_def find_None_iff)

lemma user_by_id_None: "user_by_id i s = None \<longleftrightarrow> i \<notin> user_ids s"
  by (auto simp: user_by_id_def find_None_iff user_ids_def)

lemma session_by_token_None: "session_by_token t s = None \<longleftrightarrow> t \<notin> s_token ` set (sessions s)"
  by (auto simp: session_by_token_def find_None_iff)

lemma user_by_login_of:
  "users_inv s \<Longrightarrow> u \<in> set (users s) \<Longrightarrow> user_by_login (u_login u) s = Some u"
  by (simp add: user_by_login_def users_inv_def find_unique)

lemma user_by_id_of: "users_inv s \<Longrightarrow> u \<in> set (users s) \<Longrightarrow> user_by_id (u_id u) s = Some u"
  unfolding user_by_id_def users_inv_def by (blast intro: find_unique ids_ok_distinct)

lemma session_by_token_of:
  "sessions_inv s \<Longrightarrow> r \<in> set (sessions s) \<Longrightarrow> session_by_token (s_token r) s = Some r"
  by (simp add: session_by_token_def sessions_inv_def find_unique)

text \<open>The lookups depend on the tables only.\<close>

lemma lookups_frame [simp]:
  "user_by_login l (s\<lparr>sessions := x\<rparr>) = user_by_login l s"
  "user_by_login l (s\<lparr>clock_pos := n\<rparr>) = user_by_login l s"
  "user_by_login l (s\<lparr>uuid_pos := n\<rparr>) = user_by_login l s"
  "user_by_login l (s\<lparr>friendships := y\<rparr>) = user_by_login l s"
  "user_by_login l (s\<lparr>direct_messages := z\<rparr>) = user_by_login l s"
  "user_by_id i (s\<lparr>sessions := x\<rparr>) = user_by_id i s"
  "user_by_id i (s\<lparr>clock_pos := n\<rparr>) = user_by_id i s"
  "user_by_id i (s\<lparr>uuid_pos := n\<rparr>) = user_by_id i s"
  "session_by_token t (s\<lparr>clock_pos := n\<rparr>) = session_by_token t s"
  "session_by_token t (s\<lparr>uuid_pos := n\<rparr>) = session_by_token t s"
  by (simp_all add: user_by_login_def user_by_id_def session_by_token_def)

section \<open>The user directory\<close>

text \<open>
  What the other components rely on when they go from logins to ids and back: on a good
  directory the two lookups are inverse to each other.
\<close>

locale user_directory =
  fixes good :: "'d \<Rightarrow> bool"
    and id_of :: "'d \<Rightarrow> string \<Rightarrow> int option"
    and login_of :: "'d \<Rightarrow> int \<Rightarrow> string option"
  assumes inverse: "good d \<Longrightarrow> id_of d l = Some i \<longleftrightarrow> login_of d i = Some l"
begin

lemma id_inj: "good d \<Longrightarrow> id_of d l = Some i \<Longrightarrow> id_of d l' = Some i \<Longrightarrow> l = l'"
  using inverse by (metis option.inject)

lemma ids_differ: "good d \<Longrightarrow> id_of d l = Some i \<Longrightarrow> id_of d l' = Some j \<Longrightarrow> l \<noteq> l' \<Longrightarrow> i \<noteq> j"
  using id_inj by blast

lemma there_and_back: "good d \<Longrightarrow> id_of d l = Some i \<Longrightarrow> login_of d i = Some l"
  by (simp add: inverse)

end

text \<open>No login contains a zero byte, so that reading one back does not cut it.\<close>

definition clean_logins :: "store \<Rightarrow> bool" where
  "clean_logins s \<longleftrightarrow> (\<forall>u \<in> set (users s). nul_free (u_login u))"

definition id_of_login :: "store \<Rightarrow> string \<Rightarrow> int option" where
  "id_of_login s l = map_option u_id (user_by_login l s)"

definition login_of_id :: "store \<Rightarrow> int \<Rightarrow> string option" where
  "login_of_id s i = map_option (\<lambda>u. getText (u_login u)) (user_by_id i s)"

interpretation directory: user_directory "\<lambda>s. users_inv s \<and> clean_logins s" id_of_login login_of_id
proof unfold_locales
  fix s l i
  assume good: "users_inv s \<and> clean_logins s"
  then have uncut: "getText (u_login u) = u_login u" if "u \<in> set (users s)" for u
    using that by (simp add: clean_logins_def getText_def)
  show "id_of_login s l = Some i \<longleftrightarrow> login_of_id s i = Some l"
  proof
    assume "id_of_login s l = Some i"
    then obtain u where u: "u \<in> set (users s)" "u_login u = l" "u_id u = i"
      by (auto simp: id_of_login_def dest: user_by_login_Some)
    then show "login_of_id s i = Some l"
      using good user_by_id_of [of s u] uncut [of u] by (simp add: login_of_id_def)
  next
    assume "login_of_id s i = Some l"
    then obtain u where u: "u \<in> set (users s)" "u_id u = i" "getText (u_login u) = l"
      by (auto simp: login_of_id_def dest: user_by_id_Some)
    then show "id_of_login s l = Some i"
      using good user_by_login_of [of s u] uncut [of u] by (simp add: id_of_login_def)
  qed
qed

section \<open>What the operations return and change\<close>

lemma userExists_run [prog_simps]:
  "userExists l s = (Inr (if id_of_login s l = None then NotFound else OK), s)"
  by (simp add: userExists_def prog_simps id_of_login_def)

lemma getIdByLogin_run [prog_simps]:
  "getIdByLogin l s =
    (Inr (case id_of_login s l of None \<Rightarrow> Inl NotFound | Some i \<Rightarrow> Inr i), s)"
  by (simp add: getIdByLogin_def prog_simps id_of_login_def split: option.split)

lemma getLoginById_run [prog_simps]:
  "getLoginById i s =
    (Inr (case login_of_id s i of None \<Rightarrow> Inl NotFound | Some l \<Rightarrow> Inr l), s)"
  by (simp add: getLoginById_def prog_simps login_of_id_def split: option.split)

lemma logout_run [prog_simps]:
  "logout t s = (Inr (), s\<lparr>sessions := filter (\<lambda>r. s_token r \<noteq> t) (sessions s)\<rparr>)"
  by (simp add: logout_def delete_session_def prog_simps)

text \<open>The four outcomes of a token check.\<close>

lemma token_unknown:
  "session_by_token t s = None \<Longrightarrow> getLoginByToken E t s = (Inr (Inl NonAuthorized), s)"
  by (simp add: getLoginByToken_def prog_simps)

lemma token_expired:
  "session_by_token t s = Some r \<Longrightarrow> clock E (clock_pos s) - s_created_at r > TOKEN_TTL \<Longrightarrow>
    getLoginByToken E t s = (Inr (Inl TokenExpired),
      s\<lparr>sessions := filter (\<lambda>r. s_token r \<noteq> t) (sessions s), clock_pos := Suc (clock_pos s)\<rparr>)"
  by (simp add: getLoginByToken_def delete_session_def prog_simps)

lemma token_live:
  "session_by_token t s = Some r \<Longrightarrow> clock E (clock_pos s) - s_created_at r \<le> TOKEN_TTL \<Longrightarrow>
    getLoginByToken E t s =
      (Inr (case login_of_id s (s_id r) of None \<Rightarrow> Inl NotFound | Some l \<Rightarrow> Inr l),
       s\<lparr>clock_pos := Suc (clock_pos s)\<rparr>)"
  by (simp add: getLoginByToken_def prog_simps login_of_id_def split: option.split)

text \<open>The user that a token stands for at the next reading of the clock.\<close>

definition token_login :: "env \<Rightarrow> store \<Rightarrow> string \<Rightarrow> string option" where
  "token_login E s t =
     (case session_by_token t s of None \<Rightarrow> None
      | Some r \<Rightarrow> if clock E (clock_pos s) - s_created_at r > TOKEN_TTL then None
                  else login_of_id s (s_id r))"

lemma getLoginByToken_never_fails: "\<exists>r s'. getLoginByToken E t s = (Inr r, s')"
  by (cases "session_by_token t s")
    (auto simp: getLoginByToken_def delete_session_def prog_simps split: option.split)

lemma getLoginByToken_Some:
  "token_login E s t = Some l \<Longrightarrow>
    getLoginByToken E t s = (Inr (Inr l), s\<lparr>clock_pos := Suc (clock_pos s)\<rparr>)"
  by (auto simp: token_login_def token_live split: option.splits if_splits)

lemma getLoginByToken_None:
  assumes "token_login E s t = None"
  shows "\<exists>e s'. getLoginByToken E t s = (Inr (Inl e), s') \<and> \<not> ok e \<and> users s' = users s \<and>
    friendships s' = friendships s \<and> direct_messages s' = direct_messages s \<and>
    set (sessions s') \<subseteq> set (sessions s)"
proof (cases "session_by_token t s")
  case None
  then show ?thesis by (auto simp: token_unknown)
next
  case (Some r)
  show ?thesis
  proof (cases "clock E (clock_pos s) - s_created_at r > TOKEN_TTL")
    case True
    then show ?thesis using Some by (auto simp: token_expired)
  next
    case False
    with Some assms have "login_of_id s (s_id r) = None" by (simp add: token_login_def)
    then show ?thesis using Some False by (simp add: token_live)
  qed
qed

lemma registerUser_exists:
  "id_of_login s l \<noteq> None \<Longrightarrow> registerUser E l p s = (Inr LoginExists, s)"
  by (simp add: registerUser_def prog_simps id_of_login_def)

lemma registerUser_new:
  "id_of_login s l = None \<Longrightarrow> users_seq s < max_rowid \<Longrightarrow>
    registerUser E l p s = (Inr OK, s\<lparr>uuid_pos := Suc (uuid_pos s),
      users := users s @ [\<lparr>u_id = users_seq s + 1, u_login = l, u_salt = uuid E (uuid_pos s),
        u_password = sha256 E (p @ uuid E (uuid_pos s))\<rparr>],
      users_seq := users_seq s + 1\<rparr>)"
  by (simp add: registerUser_def generateSalt_def prog_simps id_of_login_def user_by_login_None
      insert_user_def)

lemma registerUser_full:
  "id_of_login s l = None \<Longrightarrow> users_seq s \<ge> max_rowid \<Longrightarrow>
    registerUser E l p s = (Inl (SQLiteException ''database or disk is full''),
      s\<lparr>uuid_pos := Suc (uuid_pos s)\<rparr>)"
  by (simp add: registerUser_def generateSalt_def prog_simps id_of_login_def user_by_login_None
      insert_user_def)

lemma verifyPassword_run [prog_simps]:
  "verifyPassword E l p s = (Inr (case user_by_login l s of None \<Rightarrow> False
     | Some r \<Rightarrow> sha256 E (p @ getText (u_salt r)) = getText (u_password r)), s)"
  by (simp add: verifyPassword_def prog_simps split: option.split)

definition password_ok :: "env \<Rightarrow> store \<Rightarrow> string \<Rightarrow> string \<Rightarrow> bool" where
  "password_ok E s l p \<longleftrightarrow> (\<exists>r. user_by_login l s = Some r \<and>
     sha256 E (p @ getText (u_salt r)) = getText (u_password r))"

lemma verifyUser_wrong:
  "\<not> password_ok E s l p \<Longrightarrow> verifyUser E l p s = (Inr (Inl IncorrectCredentials), s)"
  by (auto simp: verifyUser_def prog_simps password_ok_def split: option.split)

text \<open>The store after a session was opened.\<close>

definition with_session :: "env \<Rightarrow> store \<Rightarrow> string \<Rightarrow> int \<Rightarrow> store" where
  "with_session E s token uid = s\<lparr>uuid_pos := Suc (uuid_pos s), clock_pos := Suc (clock_pos s),
     sessions := sessions s @
       [\<lparr>s_token = token, s_id = uid, s_created_at = clock E (clock_pos s)\<rparr>]\<rparr>"

lemma verifyUser_right:
  assumes "password_ok E s l p" and "uuid E (uuid_pos s) \<notin> s_token ` set (sessions s)"
    and "id_of_login s l = Some i"
  shows "verifyUser E l p s =
    (Inr (Inr (uuid E (uuid_pos s))), with_session E s (uuid E (uuid_pos s)) i)"
proof -
  from assms(1,3) obtain r where r: "user_by_login l s = Some r" "u_id r = i"
    and pw: "sha256 E (p @ getText (u_salt r)) = getText (u_password r)"
    by (auto simp: password_ok_def id_of_login_def)
  then have "i \<in> user_ids s" by (auto simp: user_ids_def dest: user_by_login_Some)
  then show ?thesis
    using r pw assms(2)
    by (simp add: verifyUser_def prog_simps insert_session_def user_ids_def with_session_def)
qed

section \<open>The invariant\<close>

lemma preserves_delete_session [preserves_intros]: "preserves store_inv (delete_session t)"
  by (auto simp: preserves_def delete_session_def prog_simps store_inv_def store_inv_defs
      user_ids_def distinct_map inj_on_def)

lemma preserves_registerUser [preserves_intros]: "preserves store_inv (registerUser E l p)"
  unfolding registerUser_def generateSalt_def Let_def by (intro preserves_intros)

lemma preserves_verifyUser [preserves_intros]: "preserves store_inv (verifyUser E l p)"
  unfolding verifyUser_def verifyPassword_def Let_def by (intro preserves_intros)

lemma preserves_getLoginByToken [preserves_intros]: "preserves store_inv (getLoginByToken E t)"
  unfolding getLoginByToken_def by (intro preserves_intros)

lemma preserves_user_lookups [preserves_intros]:
  "preserves I (userExists l)" "preserves I (getIdByLogin l)" "preserves I (getLoginById i)"
  by (simp_all add: preserves_def prog_simps)

lemma preserves_logout [preserves_intros]: "preserves store_inv (logout t)"
  unfolding logout_def by (intro preserves_intros)

lemma preserves_cleanExpiredTokens [preserves_intros]: "preserves store_inv (cleanExpiredTokens E)"
  by (auto simp: preserves_def cleanExpiredTokens_def prog_simps store_inv_def store_inv_defs
      user_ids_def distinct_map inj_on_def)

end
