(* ===== verification/FriendRepository.thy ===== *)
theory FriendRepository
  imports UserRepository
begin

text \<open>
  \<^verbatim>\<open>include/repositories/friend_repository.hpp\<close>: one row per pair of users, the smaller id
  first. Below the operations stands the relation between two users that the rows
  represent, and that each operation is a transition of it.
\<close>

section \<open>Operations\<close>

definition normalize :: "int \<Rightarrow> int \<Rightarrow> int \<times> int" where
  "normalize a b = (if a < b then (a, b) else (b, a))"

text \<open>\<^verbatim>\<open>WHERE user1 = ? AND user2 = ?\<close>\<close>

definition of_pair :: "int \<times> int \<Rightarrow> friendship_row \<Rightarrow> bool" where
  "of_pair p r \<longleftrightarrow> f_user1 r = fst p \<and> f_user2 r = snd p"

definition sendRequest :: "int \<Rightarrow> int \<Rightarrow> error_code db" where
  "sendRequest sender receiver =
    (if sender = receiver then ret RequestToYourself
     else
      let p = normalize sender receiver in
      bnd (gets (\<lambda>s. find (of_pair p) (friendships s))) (\<lambda>check.
      let insert = bnd (insert_friendship (fst p) (snd p) ''pending'' sender) (\<lambda>_. ret OK) in
      case check of
        Some r \<Rightarrow>
          (let status = getText (f_status r) in
           if status = ''pending'' then ret AlreadySent
           else if status = ''accepted'' then ret AlreadyFriends
           else insert)
      | None \<Rightarrow> insert))"

definition acceptRequest :: "int \<Rightarrow> int \<Rightarrow> error_code db" where
  "acceptRequest acceptor requester =
    (let p = normalize acceptor requester in
     bnd (gets (\<lambda>s. find (\<lambda>r. of_pair p r \<and> f_status r = ''pending'') (friendships s))) (\<lambda>check.
     case check of
       None \<Rightarrow> ret AcceptNonExistentRequest
     | Some r \<Rightarrow>
         if f_initiator r = acceptor then ret AcceptRequestToYourself
         else
           bnd (modify (\<lambda>s. s\<lparr>friendships := map (\<lambda>r. if of_pair p r
                 then r\<lparr>f_status := ''accepted''\<rparr> else r) (friendships s)\<rparr>)) (\<lambda>_.
           ret OK)))"

definition rejectRequest :: "int \<Rightarrow> int \<Rightarrow> error_code db" where
  "rejectRequest rejecter requester =
    (let p = normalize rejecter requester in
     bnd (gets (\<lambda>s. find (\<lambda>r. of_pair p r \<and> f_status r = ''pending'') (friendships s))) (\<lambda>check.
     case check of
       None \<Rightarrow> ret RejectNonExistentRequest
     | Some r \<Rightarrow>
         if f_initiator r = rejecter then ret RejectRequestToYourself
         else
           bnd (modify (\<lambda>s. s\<lparr>friendships := filter (\<lambda>r. \<not> of_pair p r) (friendships s)\<rparr>)) (\<lambda>_.
           ret OK)))"

definition getFriends :: "int \<Rightarrow> int list db" where
  "getFriends uid =
     gets (\<lambda>s. map (\<lambda>r. if f_user1 r = uid then f_user2 r else f_user1 r)
       (filter (\<lambda>r. (f_user1 r = uid \<or> f_user2 r = uid) \<and> f_status r = ''accepted'')
         (friendships s)))"

definition getPendingIncoming :: "int \<Rightarrow> int list db" where
  "getPendingIncoming uid =
     gets (\<lambda>s. map f_initiator
       (filter (\<lambda>r. (f_user1 r = uid \<or> f_user2 r = uid) \<and> f_status r = ''pending'' \<and>
           f_initiator r \<noteq> uid)
         (friendships s)))"

definition areFriends :: "int \<Rightarrow> int \<Rightarrow> error_code db" where
  "areFriends user1 user2 =
     (let p = normalize user1 user2 in
      bnd (gets (\<lambda>s. find (\<lambda>r. of_pair p r \<and> f_status r = ''accepted'') (friendships s))) (\<lambda>check.
      ret (if check \<noteq> None then OK else NotFriends)))"

section \<open>The relation of two users\<close>

text \<open>Nothing, a request with its initiator, or friendship.\<close>

datatype relation = Strangers | Requested int | Friends

definition relation_of_row :: "friendship_row \<Rightarrow> relation" where
  "relation_of_row r = (if f_status r = ''accepted'' then Friends else Requested (f_initiator r))"

definition relation :: "store \<Rightarrow> int \<Rightarrow> int \<Rightarrow> relation" where
  "relation s a b =
     (case find (of_pair (normalize a b)) (friendships s) of
        None \<Rightarrow> Strangers | Some r \<Rightarrow> relation_of_row r)"

text \<open>
  The specification of the three operations: the answer and the relation afterwards, from
  the user who acts, the other one and the relation before.
\<close>

fun request_spec :: "int \<Rightarrow> relation \<Rightarrow> error_code \<times> relation" where
  "request_spec actor Strangers = (OK, Requested actor)"
| "request_spec actor (Requested i) = (AlreadySent, Requested i)"
| "request_spec actor Friends = (AlreadyFriends, Friends)"

fun accept_spec :: "int \<Rightarrow> relation \<Rightarrow> error_code \<times> relation" where
  "accept_spec actor (Requested i) =
     (if i = actor then (AcceptRequestToYourself, Requested i) else (OK, Friends))"
| "accept_spec actor R = (AcceptNonExistentRequest, R)"

fun reject_spec :: "int \<Rightarrow> relation \<Rightarrow> error_code \<times> relation" where
  "reject_spec actor (Requested i) =
     (if i = actor then (RejectRequestToYourself, Requested i) else (OK, Strangers))"
| "reject_spec actor R = (RejectNonExistentRequest, R)"

section \<open>Lookups in the table\<close>

lemma find_SomeD: "find P xs = Some x \<Longrightarrow> x \<in> set xs \<and> P x"
  by (auto simp: find_Some_iff)

lemma normalize_sym: "normalize a b = normalize b a"
  by (simp add: normalize_def)

lemma normalize_eq_iff: "normalize a b = normalize c d \<longleftrightarrow> {a, b} = {c, d}"
  by (auto simp: normalize_def doubleton_eq_iff)

lemma relation_sym: "relation s a b = relation s b a"
  by (simp add: relation_def normalize_sym)

lemma pair_unique:
  assumes "friendships_inv s" and "r \<in> set (friendships s)" and "r' \<in> set (friendships s)"
    and "of_pair p r" and "of_pair p r'"
  shows "r = r'"
  using assms by (auto simp: friendships_inv_def of_pair_def distinct_map inj_on_def)

lemma find_pair_iff:
  assumes "friendships_inv s"
  shows "find (\<lambda>r. of_pair p r \<and> Q r) (friendships s) =
    (case find (of_pair p) (friendships s) of None \<Rightarrow> None | Some r \<Rightarrow> if Q r then Some r else None)"
proof (cases "find (of_pair p) (friendships s)")
  case None
  then have "find (\<lambda>r. of_pair p r \<and> Q r) (friendships s) = None"
    by (auto simp: find_None_iff)
  with None show ?thesis by simp
next
  case (Some r)
  then have r: "r \<in> set (friendships s)" "of_pair p r" by (auto simp: find_Some_iff)
  show ?thesis
  proof (cases "find (\<lambda>r. of_pair p r \<and> Q r) (friendships s)")
    case None
    then show ?thesis using Some r by (simp add: find_None_iff)
  next
    case (Some r')
    then have "r' \<in> set (friendships s)" "of_pair p r'" "Q r'" by (auto simp: find_Some_iff)
    then show ?thesis using pair_unique [OF assms _ r(1) _ r(2)] Some \<open>find (of_pair p) _ = _\<close>
      by simp
  qed
qed

lemma find_row_status:
  "friendships_inv s \<Longrightarrow> find (of_pair p) (friendships s) = Some r \<Longrightarrow>
    r \<in> set (friendships s) \<and> of_pair p r \<and> (f_status r = ''pending'' \<or> f_status r = ''accepted'') \<and>
    f_user1 r < f_user2 r \<and> (f_initiator r = f_user1 r \<or> f_initiator r = f_user2 r)"
  by (auto simp: friendships_inv_def friendship_ok_def find_Some_iff)

lemma relation_of_find:
  "find (of_pair (normalize a b)) (friendships s) = Some r \<Longrightarrow> relation s a b = relation_of_row r"
  "find (of_pair (normalize a b)) (friendships s) = None \<Longrightarrow> relation s a b = Strangers"
  by (simp_all add: relation_def)

lemma status_texts [simp]:
  "getText ''pending'' = ''pending''" "getText ''accepted'' = ''accepted''"
  by (simp_all add: getText_def nul_free_def)

section \<open>The operations implement the specification\<close>

lemma find_append: "find P (xs @ ys) = (case find P xs of None \<Rightarrow> find P ys | Some x \<Rightarrow> Some x)"
  by (induction xs) auto

lemma sendRequest_self: "sendRequest a a s = (Inr RequestToYourself, s)"
  by (simp add: sendRequest_def prog_simps)

text \<open>What a step may do to the relations of a store.\<close>

definition changes_only :: "int \<Rightarrow> int \<Rightarrow> relation \<Rightarrow> store \<Rightarrow> store \<Rightarrow> bool" where
  "changes_only a b R s s' \<longleftrightarrow> relation s' a b = R \<and>
     (\<forall>c d. {c, d} \<noteq> {a, b} \<longrightarrow> relation s' c d = relation s c d)"

lemma changes_only_refl: "relation s a b = R \<Longrightarrow> changes_only a b R s s"
  by (simp add: changes_only_def)

lemma sendRequest_refines:
  assumes inv: "friendships_inv s" and "a \<noteq> b" and "a \<in> user_ids s" and "b \<in> user_ids s"
    and "friendships_seq s < max_rowid"
  shows "\<exists>s'. sendRequest a b s = (Inr (fst (request_spec a (relation s a b))), s') \<and>
    changes_only a b (snd (request_spec a (relation s a b))) s s'"
proof (cases "find (of_pair (normalize a b)) (friendships s)")
  case (Some r)
  with find_row_status [OF inv Some] show ?thesis
    using \<open>a \<noteq> b\<close> relation_of_find(1) [OF Some]
    by (auto simp: sendRequest_def prog_simps Let_def relation_of_row_def intro!: changes_only_refl)
next
  case None
  let ?p = "normalize a b"
  let ?row = "\<lparr>f_id = friendships_seq s + 1, f_user1 = fst ?p, f_user2 = snd ?p,
    f_status = ''pending'', f_initiator = a\<rparr>"
  let ?s = "s\<lparr>friendships := friendships s @ [?row], friendships_seq := friendships_seq s + 1\<rparr>"
  have "fst ?p \<in> user_ids s" "snd ?p \<in> user_ids s" using assms by (auto simp: normalize_def)
  then have run: "sendRequest a b s = (Inr OK, ?s)"
    using None assms by (simp add: sendRequest_def prog_simps Let_def insert_friendship_def)
  have "relation ?s c d = (case relation s c d of
      Strangers \<Rightarrow> if {c, d} = {a, b} then Requested a else Strangers | R \<Rightarrow> R)" for c d
    using normalize_eq_iff [of c d a b]
    by (auto simp: relation_def find_append of_pair_def relation_of_row_def prod_eq_iff
        split: option.splits relation.splits)
  then have "changes_only a b (Requested a) s ?s"
    using relation_of_find(2) [OF None] by (auto simp: changes_only_def split: relation.splits)
  then show ?thesis using run relation_of_find(2) [OF None] by simp
qed

lemma find_map_pair:
  "find (of_pair p) (map (\<lambda>r. if of_pair q r then r\<lparr>f_status := st\<rparr> else r) rs) =
    map_option (\<lambda>r. if of_pair q r then r\<lparr>f_status := st\<rparr> else r) (find (of_pair p) rs)"
  by (induction rs) (auto simp: of_pair_def)

lemma acceptRequest_refines:
  assumes inv: "friendships_inv s"
  shows "\<exists>s'. acceptRequest a b s = (Inr (fst (accept_spec a (relation s a b))), s') \<and>
    changes_only a b (snd (accept_spec a (relation s a b))) s s'"
proof (cases "find (of_pair (normalize a b)) (friendships s)")
  case None
  then show ?thesis
    by (auto simp: acceptRequest_def prog_simps Let_def find_pair_iff [OF inv]
        relation_of_find(2) intro!: changes_only_refl)
next
  case (Some r)
  note row = find_row_status [OF inv Some] and rel = relation_of_find(1) [OF Some]
  let ?p = "normalize a b"
  let ?s = "s\<lparr>friendships := map (\<lambda>r. if of_pair ?p r then r\<lparr>f_status := ''accepted''\<rparr> else r)
    (friendships s)\<rparr>"
  have "relation ?s c d = relation s c d" if "{c, d} \<noteq> {a, b}" for c d
  proof -
    have "\<not> of_pair ?p r'" if "of_pair (normalize c d) r'" for r'
      using that \<open>{c, d} \<noteq> {a, b}\<close> normalize_eq_iff [of c d a b]
      by (auto simp: of_pair_def prod_eq_iff)
    then show ?thesis
      by (auto simp: relation_def find_map_pair dest: find_SomeD split: option.split)
  qed
  moreover have "relation ?s a b = Friends"
    using Some row by (simp add: relation_def find_map_pair relation_of_row_def)
  ultimately have "changes_only a b Friends s ?s" by (simp add: changes_only_def)
  then show ?thesis
    using Some row rel
    by (auto simp: acceptRequest_def prog_simps Let_def find_pair_iff [OF inv] relation_of_row_def
        intro!: changes_only_refl)
qed

lemma of_pair_eq: "of_pair p r \<Longrightarrow> of_pair q r \<Longrightarrow> p = q"
  by (simp add: of_pair_def prod_eq_iff)

lemma find_filter_pair:
  "find (of_pair p) (filter (\<lambda>r. \<not> of_pair q r) rs) =
    (if p = q then None else find (of_pair p) rs)"
  by (induction rs) (auto dest: of_pair_eq)

lemma rejectRequest_refines:
  assumes inv: "friendships_inv s"
  shows "\<exists>s'. rejectRequest a b s = (Inr (fst (reject_spec a (relation s a b))), s') \<and>
    changes_only a b (snd (reject_spec a (relation s a b))) s s'"
proof (cases "find (of_pair (normalize a b)) (friendships s)")
  case None
  then show ?thesis
    by (auto simp: rejectRequest_def prog_simps Let_def find_pair_iff [OF inv]
        relation_of_find(2) intro!: changes_only_refl)
next
  case (Some r)
  note row = find_row_status [OF inv Some] and rel = relation_of_find(1) [OF Some]
  let ?s = "s\<lparr>friendships := filter (\<lambda>r. \<not> of_pair (normalize a b) r) (friendships s)\<rparr>"
  have "changes_only a b Strangers s ?s"
    by (simp add: changes_only_def relation_def find_filter_pair normalize_eq_iff)
  then show ?thesis
    using Some row rel
    by (auto simp: rejectRequest_def prog_simps Let_def find_pair_iff [OF inv] relation_of_row_def
        intro!: changes_only_refl)
qed

section \<open>Reading the relation\<close>

lemma areFriends_run:
  assumes "friendships_inv s"
  shows "areFriends a b s = (Inr (if relation s a b = Friends then OK else NotFriends), s)"
proof (cases "find (of_pair (normalize a b)) (friendships s)")
  case None
  then show ?thesis
    by (simp add: areFriends_def prog_simps Let_def find_pair_iff [OF assms] relation_of_find(2))
next
  case (Some r)
  then show ?thesis
    by (simp add: areFriends_def prog_simps Let_def find_pair_iff [OF assms] relation_of_find(1)
        relation_of_row_def)
qed

lemma relation_row:
  assumes "friendships_inv s"
  shows "relation s a b = R \<and> R \<noteq> Strangers \<longleftrightarrow>
    (\<exists>r \<in> set (friendships s). of_pair (normalize a b) r \<and> relation_of_row r = R)"
proof
  assume "relation s a b = R \<and> R \<noteq> Strangers"
  then show "\<exists>r \<in> set (friendships s). of_pair (normalize a b) r \<and> relation_of_row r = R"
    by (auto simp: relation_def find_Some_iff split: option.splits intro: nth_mem)
next
  assume "\<exists>r \<in> set (friendships s). of_pair (normalize a b) r \<and> relation_of_row r = R"
  then obtain r where r: "r \<in> set (friendships s)" "of_pair (normalize a b) r"
    "relation_of_row r = R" by blast
  then obtain r' where r': "find (of_pair (normalize a b)) (friendships s) = Some r'"
    by (cases "find (of_pair (normalize a b)) (friendships s)") (auto simp: find_None_iff)
  with pair_unique [OF assms r(1) _ r(2)] find_row_status [OF assms r'] have "r' = r" by metis
  then show "relation s a b = R \<and> R \<noteq> Strangers"
    using r r' by (auto simp: relation_def relation_of_row_def split: if_splits)
qed

lemma getFriends_set:
  assumes "friendships_inv s"
  shows "\<exists>fs. getFriends a s = (Inr fs, s) \<and> set fs = {b. relation s a b = Friends}"
proof -
  let ?rows = "filter (\<lambda>r. (f_user1 r = a \<or> f_user2 r = a) \<and> f_status r = ''accepted'')
    (friendships s)"
  let ?fs = "map (\<lambda>r. if f_user1 r = a then f_user2 r else f_user1 r) ?rows"
  have lt: "f_user1 r < f_user2 r" if "r \<in> set (friendships s)" for r
    using that assms by (simp add: friendships_inv_def friendship_ok_def)
  have "b \<in> set ?fs \<longleftrightarrow> relation s a b = Friends" for b
  proof -
    have "relation s a b = Friends \<longleftrightarrow>
      (\<exists>r \<in> set (friendships s). of_pair (normalize a b) r \<and> relation_of_row r = Friends)"
      using relation_row [OF assms, of a b Friends] by auto
    also have "\<dots> \<longleftrightarrow> b \<in> set ?fs"
      by (auto simp: of_pair_def normalize_def relation_of_row_def image_iff split: if_splits
          dest: lt)
    finally show ?thesis by simp
  qed
  then show ?thesis by (auto simp: getFriends_def prog_simps)
qed

lemma getPendingIncoming_set:
  assumes "friendships_inv s"
  shows "\<exists>fs. getPendingIncoming a s = (Inr fs, s) \<and>
    set fs = {b. b \<noteq> a \<and> relation s a b = Requested b}"
proof -
  let ?rows = "filter (\<lambda>r. (f_user1 r = a \<or> f_user2 r = a) \<and> f_status r = ''pending'' \<and>
    f_initiator r \<noteq> a) (friendships s)"
  have ok: "f_user1 r < f_user2 r \<and> (f_status r = ''pending'' \<or> f_status r = ''accepted'') \<and>
      (f_initiator r = f_user1 r \<or> f_initiator r = f_user2 r)"
    if "r \<in> set (friendships s)" for r
    using that assms by (simp add: friendships_inv_def friendship_ok_def)
  have rel: "relation s a b = Requested b \<longleftrightarrow>
      (\<exists>r \<in> set (friendships s). of_pair (normalize a b) r \<and> relation_of_row r = Requested b)" for b
    using relation_row [OF assms, of a b "Requested b"] by auto
  have "b \<in> set (map f_initiator ?rows) \<longleftrightarrow> b \<noteq> a \<and> relation s a b = Requested b" for b
  proof
    assume "b \<in> set (map f_initiator ?rows)"
    then obtain r where r: "r \<in> set (friendships s)" "f_user1 r = a \<or> f_user2 r = a"
      "f_status r = ''pending''" "f_initiator r = b" "b \<noteq> a" by auto
    with ok [OF r(1)] have "of_pair (normalize a b) r \<and> relation_of_row r = Requested b"
      by (auto simp: of_pair_def normalize_def relation_of_row_def)
    with r rel show "b \<noteq> a \<and> relation s a b = Requested b" by blast
  next
    assume b: "b \<noteq> a \<and> relation s a b = Requested b"
    then obtain r where r: "r \<in> set (friendships s)" "of_pair (normalize a b) r"
      "relation_of_row r = Requested b" using rel by blast
    with ok [OF r(1)] b have "r \<in> set ?rows" "f_initiator r = b"
      by (auto simp: of_pair_def normalize_def relation_of_row_def split: if_splits)
    then show "b \<in> set (map f_initiator ?rows)" by force
  qed
  then show ?thesis by (auto simp: getPendingIncoming_def prog_simps)
qed

section \<open>The invariant\<close>

lemma user_ids_friendships [simp]: "user_ids (s\<lparr>friendships := x\<rparr>) = user_ids s"
  by (simp add: user_ids_def)

lemma normalize_less: "a \<noteq> b \<Longrightarrow> fst (normalize a b) < snd (normalize a b)"
  by (auto simp: normalize_def)

lemma normalize_member: "a \<in> {fst (normalize a b), snd (normalize a b)}"
  by (auto simp: normalize_def)

lemma preserves_sendRequest [preserves_intros]: "preserves store_inv (sendRequest a b)"
proof (rule preservesI)
  fix s assume inv: "store_inv s"
  then have f: "friendships_inv s" by (simp add: store_inv_def)
  show "store_inv (snd (sendRequest a b s))"
  proof (cases "a = b \<or> find (of_pair (normalize a b)) (friendships s) \<noteq> None")
    case True
    have "snd (sendRequest a b s) = s"
    proof (cases "a = b")
      case False
      with True obtain r where r: "find (of_pair (normalize a b)) (friendships s) = Some r" by auto
      from find_row_status [OF f r] r False show ?thesis
        by (auto simp: sendRequest_def prog_simps Let_def)
    qed (simp add: sendRequest_def prog_simps)
    then show ?thesis using inv by simp
  next
    case False
    let ?p = "normalize a b"
    have "\<forall>r \<in> set (friendships s). (f_user1 r, f_user2 r) \<noteq> (fst ?p, snd ?p)"
      using False by (auto simp: find_None_iff of_pair_def prod_eq_iff)
    from store_inv_insert_friendship [OF inv normalize_less _ normalize_member this]
    have "store_inv (snd (insert_friendship (fst ?p) (snd ?p) ''pending'' a s))"
      using False by simp
    then show ?thesis
      using False by (simp add: sendRequest_def prog_simps Let_def)
  qed
qed

lemma store_inv_map_status:
  assumes "store_inv s" and "st \<in> {''pending'', ''accepted''}"
  shows "store_inv (s\<lparr>friendships := map (\<lambda>r. if P r then r\<lparr>f_status := st\<rparr> else r) (friendships s)\<rparr>)"
proof -
  have "map (\<lambda>r. (f_user1 r, f_user2 r)) (map (\<lambda>r. if P r then r\<lparr>f_status := st\<rparr> else r) rs)
      = map (\<lambda>r. (f_user1 r, f_user2 r)) rs" for rs by simp
  then show ?thesis
    using assms by (auto simp: store_inv_def store_inv_defs user_ids_def friendship_ok_def
        simp del: map_map intro!: ids_ok_map)
qed

lemma store_inv_filter_friendships:
  "store_inv s \<Longrightarrow> store_inv (s\<lparr>friendships := filter P (friendships s)\<rparr>)"
  by (auto simp: store_inv_def store_inv_defs user_ids_def ids_ok_filter distinct_map_filter)

lemma preserves_acceptRequest [preserves_intros]: "preserves store_inv (acceptRequest a b)"
  unfolding acceptRequest_def Let_def
  by (intro preserves_intros preserves_modify store_inv_map_status) simp_all

lemma preserves_rejectRequest [preserves_intros]: "preserves store_inv (rejectRequest a b)"
  unfolding rejectRequest_def Let_def
  by (intro preserves_intros preserves_modify store_inv_filter_friendships)

lemma preserves_friend_reads [preserves_intros]:
  "preserves I (getFriends a)" "preserves I (getPendingIncoming a)" "preserves I (areFriends a b)"
  by (auto simp: getFriends_def getPendingIncoming_def areFriends_def Let_def
      intro!: preserves_intros)

end
