(* ===== verification/MessageRepository.thy ===== *)
theory MessageRepository
  imports FriendRepository
begin

text \<open>
  \<^verbatim>\<open>include/repositories/message_repository.hpp\<close> and \<^verbatim>\<open>include/structs\<close>: storing direct
  messages, the undelivered ones, the history of two users and the last message with every
  peer. \<^verbatim>\<open>ORDER BY\<close> is a stable sort of the rows in rowid order.
\<close>

section \<open>Structs\<close>

record DirectMessage =
  dm_id :: int
  dm_sender :: int
  dm_recipient :: int
  dm_timestamp :: int
  dm_message :: string
  dm_delivered :: bool

record StoredMessage =
  sm_id :: int
  sm_sender :: int
  sm_timestamp :: int
  sm_message :: string

record LastMessage =
  lm_peer_login :: string
  lm_message :: string
  lm_timestamp :: int

section \<open>Operations\<close>

text \<open>The value returned is the row id of the message, not its time.\<close>

definition saveMessage :: "env \<Rightarrow> int \<Rightarrow> int \<Rightarrow> string \<Rightarrow> int db" where
  "saveMessage E sender recipient message =
     bnd (system_now E) (\<lambda>now.
     insert_message sender recipient now message 0)"

definition getUndelivered :: "int \<Rightarrow> StoredMessage list db" where
  "getUndelivered recipient =
     gets (\<lambda>s. map (\<lambda>r. \<lparr>sm_id = m_id r, sm_sender = m_sender r, sm_timestamp = m_create_at r,
         sm_message = getText (m_message r)\<rparr>)
       (sort_key m_create_at
         (filter (\<lambda>r. m_recipient r = recipient \<and> m_delivered r = 0) (direct_messages s))))"

text \<open>The list of \<open>?\<close> signs of the \<^verbatim>\<open>IN\<close> clause, built by a loop.\<close>

fun placeholders_from :: "nat \<Rightarrow> nat \<Rightarrow> string \<Rightarrow> string" where
  "placeholders_from i 0 acc = acc"
| "placeholders_from i (Suc k) acc =
     placeholders_from (Suc i) k ((if i > 0 then acc @ '','' else acc) @ ''?'')"

definition placeholders :: "nat \<Rightarrow> string" where
  "placeholders n = placeholders_from 0 n ''''"

text \<open>SQLite refuses a statement with more parameters than its limit.\<close>

definition markDelivered :: "env \<Rightarrow> int list \<Rightarrow> unit db" where
  "markDelivered E ids =
    (if count_list (placeholders (length ids)) CHR ''?'' > max_variables E
     then throw (SQLiteException ''too many SQL variables'')
     else modify (\<lambda>s. s\<lparr>direct_messages := map (\<lambda>r. if m_id r \<in> set ids
            then r\<lparr>m_delivered := 1\<rparr> else r) (direct_messages s)\<rparr>))"

text \<open>
  \<^verbatim>\<open>GROUP BY peer\<close> with one \<^verbatim>\<open>MAX\<close>: the other columns come from a row of the group with the
  largest time, the first such row here, so that the \<^verbatim>\<open>HAVING\<close> test holds of it.
\<close>

definition peer_of :: "int \<Rightarrow> message_row \<Rightarrow> int" where
  "peer_of user_id r = (if m_sender r = user_id then m_recipient r else m_sender r)"

fun latest_row :: "message_row list \<Rightarrow> message_row option" where
  "latest_row [] = None"
| "latest_row (r # rs) =
     (case latest_row rs of
        None \<Rightarrow> Some r
      | Some q \<Rightarrow> if m_create_at q > m_create_at r then Some q else Some r)"

definition last_rows :: "int \<Rightarrow> store \<Rightarrow> message_row list" where
  "last_rows user_id s =
     (let rows = filter (\<lambda>r. m_sender r = user_id \<or> m_recipient r = user_id) (direct_messages s);
          peers = sort (remdups (map (peer_of user_id) rows));
          groups = map (\<lambda>p. filter (\<lambda>r. peer_of user_id r = p) rows) peers;
          picked = List.map_filter (\<lambda>g. case latest_row g of None \<Rightarrow> None
            | Some r \<Rightarrow> if m_create_at r = Max (m_create_at ` set g) then Some r else None) groups
      in sort_key (\<lambda>r. - m_create_at r) picked)"

definition getLastMessages :: "int \<Rightarrow> LastMessage list db" where
  "getLastMessages user_id =
     bnd (gets (last_rows user_id)) (\<lambda>rows.
     for_each rows (\<lambda>r.
       bnd (getLoginById (peer_of user_id r)) (\<lambda>result.
       ret \<lparr>lm_peer_login = (case result of Inr l \<Rightarrow> l | Inl _ \<Rightarrow> ''''),
         lm_message = getText (m_message r), lm_timestamp = m_create_at r\<rparr>)))"

text \<open>A negative \<^verbatim>\<open>LIMIT\<close> is no limit.\<close>

definition sql_limit :: "int \<Rightarrow> 'a list \<Rightarrow> 'a list" where
  "sql_limit limit rows = (if limit < 0 then rows else take (nat limit) rows)"

definition between :: "int \<Rightarrow> int \<Rightarrow> message_row \<Rightarrow> bool" where
  "between user1 user2 r \<longleftrightarrow> (m_sender r = user1 \<and> m_recipient r = user2) \<or>
     (m_sender r = user2 \<and> m_recipient r = user1)"

definition getHistory :: "int \<Rightarrow> int \<Rightarrow> int \<Rightarrow> DirectMessage list db" where
  "getHistory user1 user2 limit =
     gets (\<lambda>s. map (\<lambda>r. \<lparr>dm_id = m_id r, dm_sender = m_sender r, dm_recipient = m_recipient r,
         dm_timestamp = m_create_at r, dm_message = getText (m_message r),
         dm_delivered = (if m_delivered r = 0 then False else True)\<rparr>)
       (sql_limit limit (sort_key m_create_at (filter (between user1 user2) (direct_messages s)))))"

section \<open>Sorted selections\<close>

lemma sorted_take: "sorted xs \<Longrightarrow> sorted (take n xs)"
  by (simp add: sorted_wrt_take)

lemma take_smallest:
  assumes "sorted xs" and "x \<in> set (take n xs)" and "y \<in> set (drop n xs)"
  shows "x \<le> (y :: 'a :: linorder)"
proof -
  have "sorted (take n xs @ drop n xs)" using assms(1) by simp
  then show ?thesis using assms(2,3) by (auto simp only: sorted_append)
qed

text \<open>The rows that a history shows, and those it leaves out.\<close>

definition history_rows :: "int \<Rightarrow> int \<Rightarrow> int \<Rightarrow> store \<Rightarrow> message_row list" where
  "history_rows a b limit s =
     sql_limit limit (sort_key m_create_at (filter (between a b) (direct_messages s)))"

lemma getHistory_run [prog_simps]:
  "getHistory a b limit s = (Inr (map (\<lambda>r. \<lparr>dm_id = m_id r, dm_sender = m_sender r,
     dm_recipient = m_recipient r, dm_timestamp = m_create_at r,
     dm_message = getText (m_message r), dm_delivered = (m_delivered r \<noteq> 0)\<rparr>)
     (history_rows a b limit s)), s)"
  by (simp add: getHistory_def prog_simps history_rows_def)

lemma history_rows_sorted: "sorted (map m_create_at (history_rows a b limit s))"
  by (simp add: history_rows_def sql_limit_def take_map [symmetric] sorted_take)

lemma history_rows_between: "r \<in> set (history_rows a b limit s) \<Longrightarrow>
    r \<in> set (direct_messages s) \<and> between a b r"
  by (auto simp: history_rows_def sql_limit_def dest: in_set_takeD split: if_splits)

lemma history_rows_length: "0 \<le> limit \<Longrightarrow>
    length (history_rows a b limit s)
      = min (nat limit) (length (filter (between a b) (direct_messages s)))"
  by (simp add: history_rows_def sql_limit_def)

lemma history_rows_oldest:
  assumes "r \<in> set (history_rows a b limit s)" and "q \<in> set (direct_messages s)" and "between a b q"
    and "q \<notin> set (history_rows a b limit s)"
  shows "m_create_at r \<le> m_create_at q"
proof -
  let ?xs = "sort_key m_create_at (filter (between a b) (direct_messages s))"
  have lim: "0 \<le> limit" and "q \<notin> set (take (nat limit) ?xs)" "r \<in> set (take (nat limit) ?xs)"
    using assms by (auto simp: history_rows_def sql_limit_def split: if_splits)
  moreover have "q \<in> set ?xs" using assms by simp
  ultimately have "q \<in> set (drop (nat limit) ?xs)"
    by (metis UnE append_take_drop_id set_append)
  then have "m_create_at q \<in> set (drop (nat limit) (map m_create_at ?xs))"
    by (simp add: drop_map)
  moreover have "m_create_at r \<in> set (take (nat limit) (map m_create_at ?xs))"
    using \<open>r \<in> set (take (nat limit) ?xs)\<close> by (simp add: take_map)
  ultimately show ?thesis by (intro take_smallest [of "map m_create_at ?xs"]) simp_all
qed

lemma between_sym: "between a b = between b a"
  by (rule ext) (auto simp: between_def)

section \<open>Undelivered messages\<close>

definition undelivered_rows :: "int \<Rightarrow> store \<Rightarrow> message_row list" where
  "undelivered_rows a s =
     sort_key m_create_at (filter (\<lambda>r. m_recipient r = a \<and> m_delivered r = 0) (direct_messages s))"

definition stored_of :: "message_row \<Rightarrow> StoredMessage" where
  "stored_of r = \<lparr>sm_id = m_id r, sm_sender = m_sender r, sm_timestamp = m_create_at r,
     sm_message = getText (m_message r)\<rparr>"

lemma getUndelivered_run [prog_simps]:
  "getUndelivered a s = (Inr (map stored_of (undelivered_rows a s)), s)"
  by (simp add: getUndelivered_def prog_simps undelivered_rows_def stored_of_def)

lemma placeholders_from_count:
  "count_list (placeholders_from i k acc) CHR ''?'' = count_list acc CHR ''?'' + k"
  by (induction i k acc rule: placeholders_from.induct) auto

lemma placeholders_count: "count_list (placeholders n) CHR ''?'' = n"
  by (simp add: placeholders_def placeholders_from_count)

lemma placeholders_from_length:
  "0 < i \<Longrightarrow> length (placeholders_from i k acc) = length acc + 2 * k"
  by (induction i k acc rule: placeholders_from.induct) auto

lemma placeholders_length: "length (placeholders n) = 2 * n - 1"
  by (cases n) (simp_all add: placeholders_def placeholders_from_length)

definition marked :: "int list \<Rightarrow> store \<Rightarrow> store" where
  "marked ids s = s\<lparr>direct_messages := map (\<lambda>r. if m_id r \<in> set ids
     then r\<lparr>m_delivered := 1\<rparr> else r) (direct_messages s)\<rparr>"

lemma markDelivered_run:
  "markDelivered E ids s =
    (if length ids > max_variables E then (Inl (SQLiteException ''too many SQL variables''), s)
     else (Inr (), marked ids s))"
  by (simp add: markDelivered_def placeholders_count prog_simps marked_def)

lemma marked_all_delivered:
  "undelivered_rows a (marked (map m_id (undelivered_rows a s)) s) = []"
proof -
  have "\<not> (m_recipient r = a \<and> m_delivered r = 0)"
    if "r \<in> set (direct_messages (marked (map m_id (undelivered_rows a s)) s))" for r
    using that by (auto simp: marked_def undelivered_rows_def split: if_splits)
  then have "filter (\<lambda>r. m_recipient r = a \<and> m_delivered r = 0)
      (direct_messages (marked (map m_id (undelivered_rows a s)) s)) = []"
    unfolding filter_empty_conv by blast
  then show ?thesis by (subst undelivered_rows_def) simp
qed

lemma filter_map_unchanged:
  "(\<And>r. r \<in> set xs \<Longrightarrow> P (f r) = P r \<and> (P r \<longrightarrow> f r = r)) \<Longrightarrow> filter P (map f xs) = filter P xs"
  by (induction xs) auto

lemma same_message:
  "messages_inv s \<Longrightarrow> q \<in> set (direct_messages s) \<Longrightarrow> r \<in> set (direct_messages s) \<Longrightarrow>
    m_id q = m_id r \<Longrightarrow> q = r"
  using ids_ok_distinct [of m_id "direct_messages s"]
  by (auto simp: messages_inv_def distinct_map dest: inj_onD)

lemma marked_others:
  assumes "messages_inv s" and "b \<noteq> a"
  shows "undelivered_rows b (marked (map m_id (undelivered_rows a s)) s) = undelivered_rows b s"
proof -
  let ?ids = "map m_id (undelivered_rows a s)"
  have "m_id r \<notin> set ?ids" if "r \<in> set (direct_messages s)" "m_recipient r = b" for r
  proof
    assume "m_id r \<in> set ?ids"
    then obtain q where "q \<in> set (direct_messages s)" "m_recipient q = a" "m_id q = m_id r"
      by (auto simp: undelivered_rows_def)
    then have "q = r" using same_message [OF assms(1)] that(1) by simp
    then show False using that assms(2) \<open>m_recipient q = a\<close> by simp
  qed
  then have "filter (\<lambda>r. m_recipient r = b \<and> m_delivered r = 0)
      (map (\<lambda>r. if m_id r \<in> set ?ids then r\<lparr>m_delivered := 1\<rparr> else r) (direct_messages s))
    = filter (\<lambda>r. m_recipient r = b \<and> m_delivered r = 0) (direct_messages s)"
    by (intro filter_map_unchanged) auto
  then show ?thesis by (simp add: undelivered_rows_def [of b] marked_def)
qed

section \<open>The last message with every peer\<close>

lemma latest_row_None [simp]: "latest_row g = None \<longleftrightarrow> g = []"
  by (cases g) (auto split: option.splits)

lemma latest_row_max:
  "latest_row g = Some r \<Longrightarrow> r \<in> set g \<and> (\<forall>q \<in> set g. m_create_at q \<le> m_create_at r)"
  by (induction g arbitrary: r) (fastforce split: option.splits if_splits)+

lemma latest_row_Max: "latest_row g = Some r \<Longrightarrow> m_create_at r = Max (m_create_at ` set g)"
  using latest_row_max [of g r] by (intro Max_eqI [symmetric]) auto

text \<open>The group of a peer.\<close>

definition with_peer :: "int \<Rightarrow> int \<Rightarrow> store \<Rightarrow> message_row list" where
  "with_peer a p s =
     filter (\<lambda>r. peer_of a r = p) (filter (\<lambda>r. m_sender r = a \<or> m_recipient r = a) (direct_messages s))"

lemma map_filter_set: "r \<in> set (List.map_filter h gs) \<longleftrightarrow> (\<exists>g \<in> set gs. h g = Some r)"
  by (induction gs) (auto split: option.splits)

lemma last_rows_set:
  "r \<in> set (last_rows a s) \<longleftrightarrow> (\<exists>p. latest_row (with_peer a p s) = Some r)"
proof -
  let ?rows = "filter (\<lambda>r. m_sender r = a \<or> m_recipient r = a) (direct_messages s)"
  have pick: "(case latest_row g of None \<Rightarrow> None
      | Some r \<Rightarrow> if m_create_at r = Max (m_create_at ` set g) then Some r else None) = latest_row g"
    for g by (auto simp: latest_row_Max split: option.split)
  have rows: "set (last_rows a s) =
      set (List.map_filter latest_row (map (\<lambda>p. with_peer a p s)
        (sort (remdups (map (peer_of a) ?rows)))))"
    by (simp only: last_rows_def Let_def pick with_peer_def set_sort)
  have "r \<in> set (last_rows a s) \<longleftrightarrow>
    (\<exists>p \<in> peer_of a ` set ?rows. latest_row (with_peer a p s) = Some r)"
    unfolding rows map_filter_set set_map set_sort set_remdups by blast
  also have "\<dots> \<longleftrightarrow> (\<exists>p. latest_row (with_peer a p s) = Some r)"
  proof
    assume "\<exists>p. latest_row (with_peer a p s) = Some r"
    then obtain p where p: "latest_row (with_peer a p s) = Some r" ..
    then have "r \<in> set (with_peer a p s)" by (blast dest: latest_row_max)
    then have "p \<in> peer_of a ` set ?rows" unfolding with_peer_def by auto
    then show "\<exists>p \<in> peer_of a ` set ?rows. latest_row (with_peer a p s) = Some r" using p by blast
  qed blast
  finally show ?thesis .
qed

lemma last_rows_sorted: "sorted (map (\<lambda>r. - m_create_at r) (last_rows a s))"
  by (simp add: last_rows_def Let_def)

lemma getLastMessages_run:
  "getLastMessages a s = (Inr (map (\<lambda>r. \<lparr>lm_peer_login = (case login_of_id s (peer_of a r) of
       Some l \<Rightarrow> l | None \<Rightarrow> ''''), lm_message = getText (m_message r),
       lm_timestamp = m_create_at r\<rparr>) (last_rows a s)), s)"
  unfolding getLastMessages_def
  by (simp add: prog_simps) (rule for_each_pure, simp add: prog_simps split: option.split)

section \<open>The invariant\<close>

lemma preserves_saveMessage [preserves_intros]: "preserves store_inv (saveMessage E a b m)"
  unfolding saveMessage_def by (intro preserves_intros) simp

lemma store_inv_marked: "store_inv s \<Longrightarrow> store_inv (marked ids s)"
  by (auto simp: store_inv_def store_inv_defs marked_def user_ids_def intro!: ids_ok_map)

lemma preserves_markDelivered [preserves_intros]: "preserves store_inv (markDelivered E ids)"
  by (rule preservesI) (simp add: markDelivered_run store_inv_marked)

lemma preserves_message_reads [preserves_intros]:
  "preserves I (getUndelivered a)" "preserves I (getHistory a b n)" "preserves I (getLastMessages a)"
  by (auto simp: getUndelivered_def getHistory_def getLastMessages_def intro!: preserves_intros)

end
