(* ===== verification/Logger.thy ===== *)
theory Logger
  imports Protocol "HOL-Library.Signed_Division"
begin

text \<open>
  \<^verbatim>\<open>include/logger.hpp\<close>: the time stamp and the lines of the log. The system clock is an
  integer number of nanoseconds since the epoch and \<^verbatim>\<open>std::localtime\<close>, which depends on the time
  zone, a parameter; what \<^verbatim>\<open>std::println\<close> prints is the program's output so far.
\<close>

section \<open>Numbers in a stream\<close>

definition digit :: "nat \<Rightarrow> char" where
  "digit n = ''0123456789'' ! n"

fun decimal :: "nat \<Rightarrow> string" where
  "decimal n = (if n < 10 then [digit n] else decimal (n div 10) @ [digit (n mod 10)])"

declare decimal.simps [simp del]

definition show_int :: "int \<Rightarrow> string" where
  "show_int i = (if i < 0 then CHR ''-'' # decimal (nat (- i)) else decimal (nat i))"

text \<open>\<^verbatim>\<open>std::setfill('0') << std::setw(w)\<close>, which pads on the left.\<close>

definition setw :: "nat \<Rightarrow> string \<Rightarrow> string" where
  "setw w s = replicate (w - length s) (CHR ''0'') @ s"

section \<open>The time stamp\<close>

record tm =
  tm_mday :: int
  tm_mon :: int
  tm_year :: int
  tm_hour :: int
  tm_min :: int
  tm_sec :: int

text \<open>A duration cast truncates towards zero.\<close>

definition to_time_t :: "int \<Rightarrow> int" where
  "to_time_t now = now sdiv 1000000000"

definition milliseconds :: "int \<Rightarrow> int" where
  "milliseconds now = (now sdiv 1000000) smod 1000"

definition format_time :: "tm \<Rightarrow> int \<Rightarrow> string" where
  "format_time tm ms =
     setw 2 (show_int (tm_mday tm)) @ ''-'' @
     setw 2 (show_int (tm_mon tm + 1)) @ ''-'' @
     show_int (tm_year tm + 1900) @ '' '' @
     setw 2 (show_int (tm_hour tm)) @ '':'' @
     setw 2 (show_int (tm_min tm)) @ '':'' @
     setw 2 (show_int (tm_sec tm)) @ '':'' @
     setw 3 (show_int ms)"

text \<open>\<^verbatim>\<open>std::localtime\<close> gives a null pointer for a time that has no calendar date.\<close>

definition currentTimeFormatted :: "(int \<Rightarrow> tm option) \<Rightarrow> int \<Rightarrow> fault + string" where
  "currentTimeFormatted localtime now =
     (case localtime (to_time_t now) of
        None \<Rightarrow> Inl (Undefined ''null pointer'')
      | Some tm \<Rightarrow> Inr (format_time tm (milliseconds now)))"

section \<open>The logger\<close>

text \<open>The escape sequences of the colours.\<close>

definition colour :: "string \<Rightarrow> string" where
  "colour n = CHR 0x1B # ''['' @ n @ ''m''"

definition println :: "string \<Rightarrow> (fault, string, unit) prog" where
  "println line = modify (\<lambda>out. out @ line @ [CHR 0x0A])"

definition log :: "(int \<Rightarrow> tm option) \<Rightarrow> int \<Rightarrow> string \<Rightarrow> (fault, string, unit) prog" where
  "log localtime now msg =
     bnd (lift_res (currentTimeFormatted localtime now)) (\<lambda>time.
     println (''['' @ time @ ''] : '' @ msg))"

definition logPacket ::
  "(int \<Rightarrow> tm option) \<Rightarrow> int \<Rightarrow> packet_type \<Rightarrow> error_code \<Rightarrow> string \<Rightarrow> (fault, string, unit) prog" where
  "logPacket localtime now type e msg =
     (let color = (if ok e then colour ''32'' else colour ''31'') in
      bnd (lift_res (currentTimeFormatted localtime now)) (\<lambda>time.
      if msg = '''' then
        println (color @ ''['' @ time @ ''] : '' @ packetTypeToString type @ '' = '' @
          toString e @ colour ''0'')
      else
        println (color @ ''['' @ time @ ''] : '' @ packetTypeToString type @ '' = '' @
          toString e @ ''. '' @ msg @ colour ''0'')))"

definition logSerializable ::
  "(int \<Rightarrow> tm option) \<Rightarrow> int \<Rightarrow> string \<Rightarrow> string \<Rightarrow> (fault, string, unit) prog" where
  "logSerializable localtime now struct_string msg =
     bnd (lift_res (currentTimeFormatted localtime now)) (\<lambda>time.
     println (colour ''33'' @ ''['' @ time @ ''] : '' @ struct_string @ '' : '' @ msg @ colour ''0''))"

text \<open>
  What the server writes to the console, line by line. The logger reads the clock when a line is
  written; \<open>render\<close> writes the line at the time \<open>now\<close>, and \<open>what\<close> is the text of the system for
  an error that goes to \<^verbatim>\<open>std::cerr\<close>.
\<close>

datatype output_line =
    Printed string
  | Logged string
  | LoggedPacket packet_type error_code string
  | Complaint string

fun render :: "(int \<Rightarrow> tm option) \<Rightarrow> string \<Rightarrow> int \<Rightarrow> output_line \<Rightarrow> (fault, string, unit) prog" where
  "render localtime what now (Printed line) = println line"
| "render localtime what now (Logged msg) = log localtime now msg"
| "render localtime what now (LoggedPacket type e msg) = logPacket localtime now type e msg"
| "render localtime what now (Complaint line) = println (line @ what)"

text \<open>
  \<^verbatim>\<open>getStructName\<close> of \<^verbatim>\<open>messages.hpp\<close> decides by the static type of its argument, which is an
  element of \<open>message_struct\<close> here.
\<close>

datatype message_struct =
    T_AuthRequest | T_LogoutRequest | T_AuthResponse | T_TokenVerifyRequest | T_TokenVerifyResponse
  | T_ChatSendRequest | T_ChatIncoming | T_ChatResponse | T_FileUploadRequest | T_FileUploadResponse
  | T_FileDownloadRequest | T_FileDownloadResponse | T_FriendRequest | T_FriendResponse
  | T_FriendListRequest | T_FriendListResponse | T_DirectMessageRequest | T_DirectMessageIncoming
  | T_DirectMessageResponse | T_ChatListRequest | T_ChatListResponse | T_HistoryRequest
  | T_HistoryResponse

fun getStructName :: "message_struct \<Rightarrow> string" where
  "getStructName T_AuthRequest = ''AuthRequest''"
| "getStructName T_AuthResponse = ''AuthResponse''"
| "getStructName T_ChatSendRequest = ''ChatSendRequest''"
| "getStructName T_ChatIncoming = ''ChatIncoming''"
| "getStructName T_ChatResponse = ''ChatResponse''"
| "getStructName T_FileUploadRequest = ''FileUploadRequest''"
| "getStructName T_FileUploadResponse = ''FileUploadResponse''"
| "getStructName T_FileDownloadRequest = ''FileDownloadRequest''"
| "getStructName T_FileDownloadResponse = ''FileDownloadResponse''"
| "getStructName T_FriendRequest = ''FriendRequest''"
| "getStructName T_FriendResponse = ''FriendResponse''"
| "getStructName T_FriendListRequest = ''FriendListRequest''"
| "getStructName T_FriendListResponse = ''FriendListResponse''"
| "getStructName T_DirectMessageRequest = ''DirectMessageRequest''"
| "getStructName T_DirectMessageIncoming = ''DirectMessageIncoming''"
| "getStructName T_DirectMessageResponse = ''DirectMessageResponse''"
| "getStructName T_HistoryRequest = ''HistoryRequest''"
| "getStructName T_HistoryResponse = ''HistoryResponse''"
| "getStructName _ = ''Unknown''"

section \<open>Reading a time stamp back\<close>

text \<open>A calendar time of the years 1000 to 9999, leap seconds included.\<close>

definition calendar :: "tm \<Rightarrow> bool" where
  "calendar t \<longleftrightarrow> 1 \<le> tm_mday t \<and> tm_mday t \<le> 31 \<and> 0 \<le> tm_mon t \<and> tm_mon t \<le> 11 \<and>
     -900 \<le> tm_year t \<and> tm_year t \<le> 8099 \<and> 0 \<le> tm_hour t \<and> tm_hour t \<le> 23 \<and>
     0 \<le> tm_min t \<and> tm_min t \<le> 59 \<and> 0 \<le> tm_sec t \<and> tm_sec t \<le> 60"

definition undigit :: "char \<Rightarrow> nat" where
  "undigit c = of_char c - 48"

definition number :: "string \<Rightarrow> int" where
  "number s = int (fold (\<lambda>c n. 10 * n + undigit c) s 0)"

text \<open>The columns of \<^verbatim>\<open>dd-mm-yyyy hh:mm:ss:mmm\<close>.\<close>

definition column :: "nat \<Rightarrow> nat \<Rightarrow> string \<Rightarrow> int" where
  "column from len s = number (take len (drop from s))"

definition parse_time :: "string \<Rightarrow> tm \<times> int" where
  "parse_time s = (\<lparr>tm_mday = column 0 2 s, tm_mon = column 3 2 s - 1,
     tm_year = column 6 4 s - 1900, tm_hour = column 11 2 s, tm_min = column 14 2 s,
     tm_sec = column 17 2 s\<rparr>, column 20 3 s)"

lemma undigit_digit [simp]: "n < 10 \<Longrightarrow> undigit (digit n) = n"
proof -
  assume "n < 10"
  then have "n \<in> {0, 1, 2, 3, 4, 5, 6, 7, 8, 9}" by auto
  then show ?thesis by (auto simp: undigit_def digit_def)
qed

text \<open>A fixed number of digits, the leading zeros included.\<close>

fun digits :: "nat \<Rightarrow> nat \<Rightarrow> string" where
  "digits 0 n = []"
| "digits (Suc w) n = digits w (n div 10) @ [digit (n mod 10)]"

lemma length_digits [simp]: "length (digits w n) = w"
  by (induction w n rule: digits.induct) simp_all

lemma digits_zero: "digits w 0 = replicate w CHR ''0''"
  by (induction w) (simp_all add: digit_def replicate_append_same [symmetric])

lemma decimal_padded: "n < 10 ^ w \<Longrightarrow> 0 < w \<Longrightarrow> length (decimal n) \<le> w \<and> setw w (decimal n) = digits w n"
proof (induction n arbitrary: w rule: decimal.induct)
  case (1 n)
  then obtain v where w: "w = Suc v" by (cases w) auto
  show ?case
  proof (cases "n < 10")
    case True
    then show ?thesis by (simp add: decimal.simps [of n] setw_def w digits_zero)
  next
    case False
    with 1 w have v: "n div 10 < 10 ^ v" "0 < v" by (auto intro: Nat.gr0I)
    from 1(1) [OF False v] False show ?thesis
      by (simp add: decimal.simps [of n] setw_def w)
  qed
qed

lemma setw_digits: "0 \<le> i \<Longrightarrow> i < 10 ^ w \<Longrightarrow> 0 < w \<Longrightarrow> setw w (show_int i) = digits w (nat i)"
  using decimal_padded [of "nat i" w] by (simp add: show_int_def nat_less_iff)

lemma length_decimal_ge: "10 ^ w \<le> n \<Longrightarrow> w < length (decimal n)"
proof (induction w arbitrary: n)
  case 0
  then show ?case by (simp add: decimal.simps [of n])
next
  case (Suc w)
  have "(1::nat) \<le> 10 ^ w" by simp
  with Suc.prems have "\<not> n < 10" by (simp only: power_Suc)
  moreover have "10 ^ w \<le> n div 10" using Suc.prems by (simp add: less_eq_div_iff_mult_less_eq)
  ultimately show ?case using Suc.IH by (simp add: decimal.simps [of n])
qed

lemma year_digits: "1000 \<le> i \<Longrightarrow> i \<le> 9999 \<Longrightarrow> show_int i = digits 4 (nat i)"
  using decimal_padded [of "nat i" 4] length_decimal_ge [of 3 "nat i"]
  by (simp add: show_int_def setw_def nat_less_iff nat_le_eq_zle le_nat_iff)

lemma number_digits: "n < 10 ^ w \<Longrightarrow> number (digits w n) = int n"
proof (induction w arbitrary: n)
  case (Suc w)
  then have "n div 10 < 10 ^ w" by simp
  with Suc.IH [OF this] show ?case by (simp add: number_def)
qed (simp add: number_def)

lemma format_digits:
  assumes "calendar t" and "0 \<le> ms" and "ms \<le> 999"
  shows "format_time t ms =
    digits 2 (nat (tm_mday t)) @ ''-'' @ digits 2 (nat (tm_mon t + 1)) @ ''-'' @
    digits 4 (nat (tm_year t + 1900)) @ '' '' @ digits 2 (nat (tm_hour t)) @ '':'' @
    digits 2 (nat (tm_min t)) @ '':'' @ digits 2 (nat (tm_sec t)) @ '':'' @ digits 3 (nat ms)"
  using assms by (simp add: format_time_def calendar_def setw_digits year_digits)

lemma format_parses:
  assumes "calendar t" and "0 \<le> ms" and "ms \<le> 999"
  shows "parse_time (format_time t ms) = (t, ms)"
  using assms
  by (cases t)
    (simp add: format_digits parse_time_def column_def number_digits calendar_def nat_less_iff)

lemma length_format:
  "calendar t \<Longrightarrow> 0 \<le> ms \<Longrightarrow> ms \<le> 999 \<Longrightarrow> length (format_time t ms) = 23"
  by (simp add: format_digits)

lemma milliseconds_range: "0 \<le> now \<Longrightarrow> 0 \<le> milliseconds now \<and> milliseconds now \<le> 999"
proof -
  assume "0 \<le> now"
  then have "0 \<le> now div 1000000" by (simp add: pos_imp_zdiv_nonneg_iff)
  moreover have "now div 1000000 mod 1000 \<le> 999"
    using pos_mod_bound [of 1000 "now div 1000000"] by linarith
  ultimately show ?thesis using \<open>0 \<le> now\<close>
    by (simp add: milliseconds_def signed_divide_int_def signed_modulo_int_def sgn_if)
qed

section \<open>Lines\<close>

definition log_line :: "string \<Rightarrow> packet_type \<Rightarrow> error_code \<Rightarrow> string \<Rightarrow> string" where
  "log_line time type e msg =
     (if ok e then colour ''32'' else colour ''31'') @ ''['' @ time @ ''] : '' @
     packetTypeToString type @ '' = '' @ toString e @
     (if msg = '''' then '''' else ''. '' @ msg) @ colour ''0''"

lemma logPacket_run:
  "localtime (to_time_t now) = Some t \<Longrightarrow>
    logPacket localtime now type e msg out =
      (Inr (), out @ log_line (format_time t (milliseconds now)) type e msg @ [CHR 0x0A])"
  by (simp add: logPacket_def log_line_def currentTimeFormatted_def println_def prog_simps Let_def)

lemma log_line_time:
  "length time = 23 \<Longrightarrow> take 23 (drop 6 (log_line time type e msg)) = time"
  by (simp add: log_line_def colour_def)

lemma log_line_colour:
  "take 5 (log_line time type e msg) = colour ''32'' \<longleftrightarrow> ok e"
  by (simp add: log_line_def colour_def)

end
