(* ===== verification/SessionManager.thy ===== *)
theory SessionManager
  imports Files Network MessageRepository Logger
begin

text \<open>
  The state of the server process and \<^verbatim>\<open>include/services/session_manager\<close>. A live
  \<^verbatim>\<open>ClientSession\<close> is an entry of \<open>clients\<close> under a session number, which stands for the
  \<^verbatim>\<open>shared_ptr\<close>; a \<^verbatim>\<open>weak_ptr\<close> is a number whose entry may be gone. The \<^verbatim>\<open>unordered_map\<close> of
  online users is an association list with one entry per key, in some order.
\<close>

section \<open>State of the server\<close>

text \<open>The members of \<^verbatim>\<open>ClientSession\<close> and of its base \<^verbatim>\<open>NetworkSession\<close>.\<close>

record client =
  current_login :: string
  current_token :: string
  errorCode :: error_code
  net :: net
  reader :: reader
  reading :: bool

definition new_client :: client where
  "new_client = \<lparr>current_login = '''', current_token = '''', errorCode = ErrorCode_default,
     net = new_net, reader = start_reader, reading = True\<rparr>"

record server =
  database :: store
  online_users :: "(string \<times> nat) list"
  clients :: "nat \<Rightarrow> client option"
  next_client :: nat
  files :: files
  rand_pos :: nat
  timer_armed :: bool
  console :: "output_line list"

type_synonym 'a act = "(fault, server, 'a) prog"

text \<open>Programs of the repositories, of the file system and of the cipher, run by the server.\<close>

definition on_db :: "'a db \<Rightarrow> 'a act" where
  "on_db m S = (case m (database S) of (r, s) \<Rightarrow> (r, S\<lparr>database := s\<rparr>))"

definition on_files :: "(fault, files, 'a) prog \<Rightarrow> 'a act" where
  "on_files m S = (case m (files S) of (r, s) \<Rightarrow> (r, S\<lparr>files := s\<rparr>))"

definition on_rand :: "(fault, nat, 'a) prog \<Rightarrow> 'a act" where
  "on_rand m S = (case m (rand_pos S) of (r, s) \<Rightarrow> (r, S\<lparr>rand_pos := s\<rparr>))"

definition update_client :: "nat \<Rightarrow> (client \<Rightarrow> client) \<Rightarrow> server \<Rightarrow> server" where
  "update_client sid f S = S\<lparr>clients := (clients S)(sid := map_option f (clients S sid))\<rparr>"

text \<open>\<^verbatim>\<open>send_packet\<close> of the session a \<^verbatim>\<open>shared_ptr\<close> points to.\<close>

definition send_to :: "nat \<Rightarrow> packet_type \<Rightarrow> bytes \<Rightarrow> server \<Rightarrow> server" where
  "send_to sid type body = update_client sid (\<lambda>c. c\<lparr>net := send_packet type body (net c)\<rparr>)"

text \<open>A line on the console.\<close>

definition put_line :: "output_line \<Rightarrow> server \<Rightarrow> server" where
  "put_line l S = S\<lparr>console := console S @ [l]\<rparr>"

section \<open>Operations\<close>

definition lock :: "server \<Rightarrow> nat \<Rightarrow> nat option" where
  "lock S sid = (if clients S sid = None then None else Some sid)"

definition addUser :: "string \<Rightarrow> nat \<Rightarrow> server \<Rightarrow> server" where
  "addUser login sid S = S\<lparr>online_users := AList.update login sid (online_users S)\<rparr>"

definition removeUser :: "string \<Rightarrow> server \<Rightarrow> server" where
  "removeUser login S = S\<lparr>online_users := AList.delete login (online_users S)\<rparr>"

definition getSession :: "string \<Rightarrow> server \<Rightarrow> nat option" where
  "getSession login S =
     (case map_of (online_users S) login of None \<Rightarrow> None | Some sid \<Rightarrow> lock S sid)"

text \<open>What a broadcast prints, in UTF-8.\<close>

definition quote :: string where
  "quote = [CHR 0x27]"

definition broadcast_line :: "string \<Rightarrow> nat \<Rightarrow> string" where
  "broadcast_line sender_login n =
     ''[SessionManager] broadcast '' @ utf8 [208, 190, 209, 130] @ '' '' @ quote @ sender_login
     @ quote @ '', '' @ utf8 [208, 178, 209, 129, 208, 181, 208, 179, 208, 190, 32, 208, 190,
     208, 189, 208, 187, 208, 176, 208, 185, 208, 189] @ '': '' @ decimal n"

definition check_line :: "string \<Rightarrow> string" where
  "check_line login =
     ''[SessionManager] '' @ utf8 [208, 191, 209, 128, 208, 190, 208, 178, 208, 181, 209, 128,
     209, 143, 208, 181, 208, 188] @ '' '' @ quote @ login @ quote"

definition send_line :: "string \<Rightarrow> string" where
  "send_line login =
     ''[SessionManager] '' @ utf8 [208, 190, 209, 130, 208, 191, 209, 128, 208, 176, 208, 178,
     208, 187, 209, 143, 208, 181, 208, 188] @ '' '' @ quote @ login @ quote"

definition dead_line :: "string \<Rightarrow> string" where
  "dead_line login =
     ''[SessionManager] '' @ utf8 [209, 129, 208, 181, 209, 129, 209, 129, 208, 184, 209, 143]
     @ '' '' @ quote @ login @ quote @ '' '' @ utf8 [208, 188, 208, 181, 209, 128, 209, 130,
     208, 178, 208, 176]"

definition broadcast_one :: "string \<Rightarrow> packet_type \<Rightarrow> bytes \<Rightarrow> string \<times> nat \<Rightarrow> server \<Rightarrow> server" where
  "broadcast_one sender_login type body u S =
     (let (login, weak_sess) = u; S1 = put_line (Printed (check_line login)) S in
      if login \<noteq> sender_login then
        (case lock S1 weak_sess of
           Some sess \<Rightarrow> send_to sess type body (put_line (Printed (send_line login)) S1)
         | None \<Rightarrow> put_line (Printed (dead_line login)) S1)
      else S1)"

fun broadcast_to :: "(string \<times> nat) list \<Rightarrow> string \<Rightarrow> packet_type \<Rightarrow> bytes \<Rightarrow> server \<Rightarrow> server" where
  "broadcast_to [] sender_login type body S = S"
| "broadcast_to (u # us) sender_login type body S =
     broadcast_to us sender_login type body (broadcast_one sender_login type body u S)"

definition broadcast :: "string \<Rightarrow> packet_type \<Rightarrow> bytes \<Rightarrow> server \<Rightarrow> server" where
  "broadcast sender_login type body S =
     broadcast_to (online_users S) sender_login type body
       (put_line (Printed (broadcast_line sender_login (length (online_users S)))) S)"

section \<open>The registry interface\<close>

text \<open>
  What the handlers rely on: after \<open>add\<close> the login is found, after \<open>remove\<close> it is not, and
  other logins are left alone.
\<close>

locale registry =
  fixes add :: "'k \<Rightarrow> 'v \<Rightarrow> 's \<Rightarrow> 's"
    and remove :: "'k \<Rightarrow> 's \<Rightarrow> 's"
    and lookup :: "'s \<Rightarrow> 'k \<Rightarrow> 'v option"
  assumes lookup_add: "lookup (add k v s) k' = (if k' = k then Some v else lookup s k')"
    and lookup_remove: "lookup (remove k s) k' = (if k' = k then None else lookup s k')"
begin

lemma add_twice: "lookup (add k v (add k w s)) = lookup (add k v s)"
  by (rule ext) (simp add: lookup_add)

lemma remove_add: "lookup (remove k (add k v s)) = lookup (remove k s)"
  by (rule ext) (simp add: lookup_add lookup_remove)

lemma add_commute: "k \<noteq> l \<Longrightarrow> lookup (add k v (add l w s)) = lookup (add l w (add k v s))"
  by (rule ext) (simp add: lookup_add)

text \<open>A removal by the owner of an old entry also removes the entry that replaced it.\<close>

lemma late_remove: "lookup (remove k (add k w (add k v s))) k = None"
  by (simp add: lookup_remove)

end

definition online :: "server \<Rightarrow> string \<Rightarrow> nat option" where
  "online S login = map_of (online_users S) login"

interpretation users_online: registry addUser removeUser online
  by unfold_locales
    (simp_all add: online_def addUser_def removeUser_def update_conv' delete_conv')

section \<open>Frame facts\<close>

lemma on_db_run: "m (database S) = (r, s) \<Longrightarrow> on_db m S = (r, S\<lparr>database := s\<rparr>)"
  by (simp add: on_db_def)

lemma on_files_run: "m (files S) = (r, s) \<Longrightarrow> on_files m S = (r, S\<lparr>files := s\<rparr>)"
  by (simp add: on_files_def)

lemma on_rand_run: "m (rand_pos S) = (r, s) \<Longrightarrow> on_rand m S = (r, S\<lparr>rand_pos := s\<rparr>)"
  by (simp add: on_rand_def)

lemmas lift_runs = on_db_run on_files_run on_rand_run

lemma update_client_simps [simp]:
  "database (update_client sid f S) = database S"
  "online_users (update_client sid f S) = online_users S"
  "next_client (update_client sid f S) = next_client S"
  "files (update_client sid f S) = files S"
  "rand_pos (update_client sid f S) = rand_pos S"
  "timer_armed (update_client sid f S) = timer_armed S"
  "console (update_client sid f S) = console S"
  "clients (update_client sid f S) x =
     (if x = sid then map_option f (clients S sid) else clients S x)"
  by (simp_all add: update_client_def)

lemma send_to_simps [simp]:
  "database (send_to sid t b S) = database S"
  "online_users (send_to sid t b S) = online_users S"
  "next_client (send_to sid t b S) = next_client S"
  "files (send_to sid t b S) = files S"
  "rand_pos (send_to sid t b S) = rand_pos S"
  "timer_armed (send_to sid t b S) = timer_armed S"
  "console (send_to sid t b S) = console S"
  "clients (send_to sid t b S) x = (if x = sid
     then map_option (\<lambda>c. c\<lparr>net := send_packet t b (net c)\<rparr>) (clients S sid) else clients S x)"
  by (simp_all add: send_to_def)

lemma put_line_simps [simp]:
  "database (put_line l S) = database S"
  "online_users (put_line l S) = online_users S"
  "clients (put_line l S) = clients S"
  "next_client (put_line l S) = next_client S"
  "files (put_line l S) = files S"
  "rand_pos (put_line l S) = rand_pos S"
  "timer_armed (put_line l S) = timer_armed S"
  "console (put_line l S) = console S @ [l]"
  "lock (put_line l S) = lock S"
  by (simp_all add: put_line_def lock_def fun_eq_iff)

lemma lock_send_to [simp]: "lock (send_to sid t b S) = lock S"
  by (rule ext) (simp add: lock_def)

lemma broadcast_one_simps [simp]:
  "database (broadcast_one l t b u S) = database S"
  "online_users (broadcast_one l t b u S) = online_users S"
  "next_client (broadcast_one l t b u S) = next_client S"
  "files (broadcast_one l t b u S) = files S"
  "rand_pos (broadcast_one l t b u S) = rand_pos S"
  "timer_armed (broadcast_one l t b u S) = timer_armed S"
  by (simp_all add: broadcast_one_def Let_def split: prod.split option.split)

lemma broadcast_to_simps [simp]:
  "database (broadcast_to us l t b S) = database S"
  "online_users (broadcast_to us l t b S) = online_users S"
  "next_client (broadcast_to us l t b S) = next_client S"
  "files (broadcast_to us l t b S) = files S"
  "rand_pos (broadcast_to us l t b S) = rand_pos S"
  "timer_armed (broadcast_to us l t b S) = timer_armed S"
  by (induction us l t b S rule: broadcast_to.induct) simp_all

text \<open>What sending a packet and printing a line keep, a broadcast keeps.\<close>

lemma broadcast_preserves:
  assumes line: "\<And>x S. I S \<Longrightarrow> I (put_line (Printed x) S)" and send: "\<And>x S. I S \<Longrightarrow> I (send_to x t b S)"
  shows "preserves I (modify (broadcast l t b))"
proof (rule preserves_modify)
  fix S assume "I S"
  moreover have "I (broadcast_one l t b u T)" if "I T" for u T
    using that line send by (simp add: broadcast_one_def Let_def split: prod.split option.split)
  then have "I T \<Longrightarrow> I (broadcast_to us l t b T)" for us T
    by (induction us arbitrary: T) simp_all
  ultimately show "I (broadcast l t b S)" using line by (simp add: broadcast_def)
qed

text \<open>What is posted to a session, as far as packets go.\<close>

definition outbox :: "server \<Rightarrow> nat \<Rightarrow> bytes list" where
  "outbox S sid = (case clients S sid of None \<Rightarrow> [] | Some c \<Rightarrow> posted (net c))"

lemma outbox_send_to:
  "outbox (send_to sid t b S) x =
    (if x = sid \<and> clients S sid \<noteq> None then outbox S x @ [full_packet t b] else outbox S x)"
  by (auto simp: outbox_def send_packet_def split: option.split)

lemma outbox_simps [simp]:
  "outbox (S\<lparr>database := d\<rparr>) = outbox S"
  "outbox (S\<lparr>online_users := u\<rparr>) = outbox S"
  "outbox (S\<lparr>files := f\<rparr>) = outbox S"
  "outbox (S\<lparr>rand_pos := n\<rparr>) = outbox S"
  "outbox (put_line l S) = outbox S"
  by (rule ext, simp add: outbox_def)+

lemma clients_broadcast_one:
  "clients (broadcast_one l t b u S) x = None \<longleftrightarrow> clients S x = None"
  by (auto simp: broadcast_one_def Let_def split: prod.split option.split)

lemma clients_broadcast_to:
  "clients (broadcast_to us l t b S) x = None \<longleftrightarrow> clients S x = None"
  by (induction us l t b S rule: broadcast_to.induct) (simp_all add: clients_broadcast_one)

lemma clients_broadcast [simp]:
  "clients (broadcast l t b S) x = None \<longleftrightarrow> clients S x = None"
  by (simp add: broadcast_def clients_broadcast_to)

lemma outbox_broadcast_one:
  "clients S x \<noteq> None \<Longrightarrow>
    outbox (broadcast_one l t b u S) x =
      (if fst u \<noteq> l \<and> snd u = x then outbox S x @ [full_packet t b] else outbox S x)"
  by (auto simp: broadcast_one_def Let_def lock_def outbox_send_to split: prod.split)

text \<open>
  A broadcast puts the packet once into the outbox of a live session for every other login
  under which the session is registered.
\<close>

lemma broadcast_to_outbox:
  "clients S x \<noteq> None \<Longrightarrow>
    outbox (broadcast_to us l t b S) x =
      outbox S x @ replicate (length (filter (\<lambda>(k, v). k \<noteq> l \<and> v = x) us)) (full_packet t b)"
proof (induction us l t b S rule: broadcast_to.induct)
  case (2 u us l t b S)
  then have "clients (broadcast_one l t b u S) x \<noteq> None" by (simp add: clients_broadcast_one)
  from "2.IH" [OF this] "2.prems" show ?case
    by (auto simp: outbox_broadcast_one replicate_app_Cons_same)
qed simp

lemma broadcast_outbox:
  "clients S x \<noteq> None \<Longrightarrow>
    outbox (broadcast l t b S) x = outbox S x @
      replicate (length (filter (\<lambda>(k, v). k \<noteq> l \<and> v = x) (online_users S))) (full_packet t b)"
  by (simp add: broadcast_def broadcast_to_outbox)

end
