(* ===== verification/ClientSession.thy ===== *)
theory ClientSession
  imports SessionManager Messages
begin

text \<open>
  \<^verbatim>\<open>include/client_session.hpp\<close>: the request handlers of the server. A handler runs for the
  session \<open>this\<close>; every call that can throw is a step of the program, so an exception leaves
  the changes made before it. The three values that \<^verbatim>\<open>handle_register\<close>, \<^verbatim>\<open>handle_login\<close> and
  \<^verbatim>\<open>handle_token_verify\<close> hand back by reference and by value are a triple. A database integer is
  converted to \<^verbatim>\<open>int64_t\<close> where it is put into a message. Console output goes to \<open>console\<close>.
\<close>

section \<open>Members and calls\<close>

definition set_error :: "nat \<Rightarrow> error_code \<Rightarrow> unit act" where
  "set_error this e = modify (update_client this (\<lambda>c. c\<lparr>errorCode := e\<rparr>))"

definition set_token :: "nat \<Rightarrow> string \<Rightarrow> unit act" where
  "set_token this t = modify (update_client this (\<lambda>c. c\<lparr>current_token := t\<rparr>))"

definition set_login :: "nat \<Rightarrow> string \<Rightarrow> unit act" where
  "set_login this l = modify (update_client this (\<lambda>c. c\<lparr>current_login := l\<rparr>))"

definition get_login :: "nat \<Rightarrow> string act" where
  "get_login this = gets (\<lambda>S. case clients S this of None \<Rightarrow> '''' | Some c \<Rightarrow> current_login c)"

definition error_of :: "server \<Rightarrow> nat \<Rightarrow> error_code" where
  "error_of S this = (case clients S this of None \<Rightarrow> ErrorCode_default | Some c \<Rightarrow> errorCode c)"

definition log_packet :: "nat \<Rightarrow> packet_type \<Rightarrow> string \<Rightarrow> unit act" where
  "log_packet this type msg =
     bnd (gets (\<lambda>S. error_of S this)) (\<lambda>e. modify (put_line (LoggedPacket type e msg)))"

lemma log_packet_run [prog_simps]:
  "log_packet this type msg S = (Inr (), put_line (LoggedPacket type (error_of S this) msg) S)"
  by (simp add: log_packet_def prog_simps)

lemma preserves_log_packet:
  "(\<And>x S. I S \<Longrightarrow> I (put_line x S)) \<Longrightarrow> preserves I (log_packet this type msg)"
  unfolding log_packet_def by (intro preserves_intros preserves_modify)

text \<open>Telling a user something when a session is registered for the login and alive.\<close>

definition notify :: "string \<Rightarrow> packet_type \<Rightarrow> bytes \<Rightarrow> unit act" where
  "notify login type body =
     bnd (gets (getSession login)) (\<lambda>sess.
       case sess of None \<Rightarrow> ret () | Some s \<Rightarrow> modify (send_to s type body))"

section \<open>Registration and login\<close>

type_synonym auth_result = "bytes \<times> string \<times> bool"

definition handle_register :: "env \<Rightarrow> nat \<Rightarrow> bytes \<Rightarrow> auth_result act" where
  "handle_register E this body =
     bnd (lift_res (AuthRequest_deserialize body)) (\<lambda>req.
     bnd (on_db (registerUser E (areq_login req) (areq_password req))) (\<lambda>err.
     if ok err then
       bnd (on_db (verifyUser E (areq_login req) (areq_password req))) (\<lambda>token.
       bnd (expected_value token) (\<lambda>t.
       bnd (set_token this t) (\<lambda>_.
       bnd (set_error this OK) (\<lambda>_.
       ret (AuthResponse_serialize \<lparr>ares_token = t, ares_error = OK\<rparr>, areq_login req, True)))))
     else
       bnd (set_error this err) (\<lambda>_.
       ret (AuthResponse_serialize \<lparr>ares_token = '''', ares_error = err\<rparr>, '''', False))))"

definition handle_login :: "env \<Rightarrow> nat \<Rightarrow> bytes \<Rightarrow> auth_result act" where
  "handle_login E this body =
     bnd (lift_res (AuthRequest_deserialize body)) (\<lambda>req.
     bnd (on_db (verifyUser E (areq_login req) (areq_password req))) (\<lambda>token.
     case token of
       Inr t \<Rightarrow>
         bnd (set_token this t) (\<lambda>_.
         bnd (set_error this OK) (\<lambda>_.
         ret (AuthResponse_serialize \<lparr>ares_token = t, ares_error = OK\<rparr>, areq_login req, True)))
     | Inl e \<Rightarrow>
         bnd (set_error this e) (\<lambda>_.
         ret (AuthResponse_serialize \<lparr>ares_token = '''', ares_error = e\<rparr>, '''', False))))"

definition handle_token_verify :: "env \<Rightarrow> nat \<Rightarrow> bytes \<Rightarrow> auth_result act" where
  "handle_token_verify E this body =
     bnd (lift_res (TokenVerifyRequest_deserialize body)) (\<lambda>req.
     bnd (on_db (getLoginByToken E (tvreq_old_token req))) (\<lambda>login_result.
     case login_result of
       Inr l \<Rightarrow>
         bnd (set_error this OK) (\<lambda>_.
         bnd (set_token this (tvreq_old_token req)) (\<lambda>_.
         ret (TokenVerifyResponse_serialize \<lparr>tvres_error = OK\<rparr>, l, True)))
     | Inl e \<Rightarrow>
         bnd (set_error this e) (\<lambda>_.
         ret (TokenVerifyResponse_serialize \<lparr>tvres_error = e\<rparr>, '''', False))))"

definition handle_logout :: "nat \<Rightarrow> bytes \<Rightarrow> unit act" where
  "handle_logout this body =
     bnd (lift_res (LogoutRequest_deserialize body)) (\<lambda>req.
     bnd (on_db (logout (lreq_old_token req))) (\<lambda>_.
     bnd (set_login this '''') (\<lambda>_.
     set_token this '''')))"

section \<open>General chat and files\<close>

definition handle_message :: "env \<Rightarrow> nat \<Rightarrow> bytes \<Rightarrow> bytes act" where
  "handle_message E this body =
     bnd (lift_res (ChatSendRequest_deserialize body)) (\<lambda>req.
     bnd (on_db (getLoginByToken E (csreq_token req))) (\<lambda>login.
     case login of
       Inr l \<Rightarrow>
         bnd (modify (broadcast l MESSAGE (ChatIncoming_serialize
                \<lparr>cin_sender_login = l, cin_message = csreq_message req\<rparr>))) (\<lambda>_.
         bnd (set_error this OK) (\<lambda>_.
         ret (ChatResponse_serialize \<lparr>cres_error = OK\<rparr>)))
     | Inl e \<Rightarrow>
         bnd (set_error this e) (\<lambda>_.
         ret (ChatResponse_serialize \<lparr>cres_error = e\<rparr>))))"

definition handle_upload :: "env \<Rightarrow> nat \<Rightarrow> bytes \<Rightarrow> bytes act" where
  "handle_upload E this body =
     bnd (lift_res (FileUploadRequest_deserialize body)) (\<lambda>req.
     bnd (on_db (getLoginByToken E (fureq_token req))) (\<lambda>login.
     case login of
       Inr l \<Rightarrow>
         bnd (on_rand (encryptAES E (fureq_file_data req) SERVER_KEY)) (\<lambda>encrypted.
         bnd (on_files (bytesToFile E (fureq_file_name req) encrypted)) (\<lambda>_.
         bnd (set_error this OK) (\<lambda>_.
         ret (FileUploadResponse_serialize \<lparr>fures_error = OK\<rparr>))))
     | Inl e \<Rightarrow>
         bnd (set_error this e) (\<lambda>_.
         ret (FileUploadResponse_serialize \<lparr>fures_error = e\<rparr>))))"

definition handle_download :: "env \<Rightarrow> nat \<Rightarrow> bytes \<Rightarrow> bytes act" where
  "handle_download E this body =
     bnd (lift_res (FileDownloadRequest_deserialize body)) (\<lambda>req.
     bnd (on_db (getLoginByToken E (fdreq_token req))) (\<lambda>login.
     case login of
       Inr l \<Rightarrow>
         bnd (on_files (fileToBytes E (fdreq_file_name req))) (\<lambda>bytes.
         bnd (lift_res (decryptAES E bytes SERVER_KEY)) (\<lambda>decrypted.
         bnd (set_error this OK) (\<lambda>_.
         ret (FileDownloadResponse_serialize \<lparr>fdres_file_data = decrypted, fdres_error = OK\<rparr>))))
     | Inl e \<Rightarrow>
         bnd (set_error this e) (\<lambda>_.
         ret (FileDownloadResponse_serialize \<lparr>fdres_file_data = [], fdres_error = e\<rparr>))))"

section \<open>Friends\<close>

text \<open>An answer that carries an error, recorded in \<^verbatim>\<open>errorCode\<close>.\<close>

definition friend_error :: "nat \<Rightarrow> error_code \<Rightarrow> bytes act" where
  "friend_error this e =
     bnd (set_error this e) (\<lambda>_. ret (FriendResponse_serialize \<lparr>fres_error = e\<rparr>))"

definition handle_friend_request :: "env \<Rightarrow> nat \<Rightarrow> bytes \<Rightarrow> bytes act" where
  "handle_friend_request E this body =
     bnd (lift_res (FriendRequest_deserialize body)) (\<lambda>req.
     bnd (on_db (getLoginByToken E (freq_token req))) (\<lambda>sender_login.
     case sender_login of
       Inl e \<Rightarrow> friend_error this e
     | Inr login \<Rightarrow>
     bnd (on_db (userExists (freq_target_login req))) (\<lambda>user_exists_err.
     if \<not> ok user_exists_err then friend_error this user_exists_err
     else
     bnd (on_db (getIdByLogin login)) (\<lambda>sender_id.
     bnd (on_db (getIdByLogin (freq_target_login req))) (\<lambda>target_id.
     if \<not> (has_value sender_id \<and> has_value target_id) then
       bnd (expected_error sender_id) (\<lambda>first.
       bnd (if ok first then expected_error target_id else expected_error sender_id)
         (friend_error this))
     else
     bnd (expected_value sender_id) (\<lambda>a.
     bnd (expected_value target_id) (\<lambda>b.
     bnd (on_db (sendRequest a b)) (\<lambda>err.
     if \<not> ok err then friend_error this err
     else
     bnd (notify (freq_target_login req) FRIEND_NEW_REQUEST []) (\<lambda>_.
     ret (FriendResponse_serialize \<lparr>fres_error = OK\<rparr>))))))))))"

definition handle_friend_accept :: "env \<Rightarrow> nat \<Rightarrow> bytes \<Rightarrow> bytes act" where
  "handle_friend_accept E this body =
     bnd (lift_res (FriendRequest_deserialize body)) (\<lambda>req.
     bnd (on_db (getLoginByToken E (freq_token req))) (\<lambda>sender_login.
     case sender_login of
       Inl e \<Rightarrow> friend_error this e
     | Inr login \<Rightarrow>
     bnd (on_db (userExists (freq_target_login req))) (\<lambda>user_exists_err.
     if \<not> ok user_exists_err then friend_error this user_exists_err
     else
     bnd (on_db (getIdByLogin login)) (\<lambda>acceptor_id.
     bnd (on_db (getIdByLogin (freq_target_login req))) (\<lambda>requester_id.
     if \<not> (has_value acceptor_id \<and> has_value requester_id) then
       bnd (expected_error acceptor_id) (\<lambda>first.
       bnd (if ok first then expected_error requester_id else expected_error acceptor_id)
         (friend_error this))
     else
     bnd (expected_value acceptor_id) (\<lambda>a.
     bnd (expected_value requester_id) (\<lambda>b.
     bnd (on_db (acceptRequest a b)) (\<lambda>err.
     if \<not> ok err then friend_error this err
     else
     bnd (notify (freq_target_login req) FRIEND_REQUEST_ACCEPTED []) (\<lambda>_.
     ret (FriendResponse_serialize \<lparr>fres_error = OK\<rparr>))))))))))"

definition handle_friend_reject :: "env \<Rightarrow> nat \<Rightarrow> bytes \<Rightarrow> bytes act" where
  "handle_friend_reject E this body =
     bnd (lift_res (FriendRequest_deserialize body)) (\<lambda>req.
     bnd (on_db (getLoginByToken E (freq_token req))) (\<lambda>sender_login.
     case sender_login of
       Inl e \<Rightarrow> friend_error this e
     | Inr login \<Rightarrow>
     bnd (on_db (userExists (freq_target_login req))) (\<lambda>user_exists_err.
     if \<not> ok user_exists_err then friend_error this user_exists_err
     else
     bnd (on_db (getIdByLogin login)) (\<lambda>rejecter_id.
     bnd (on_db (getIdByLogin (freq_target_login req))) (\<lambda>requester_id.
     if \<not> (has_value rejecter_id \<and> has_value requester_id) then
       bnd (expected_error rejecter_id) (\<lambda>first.
       bnd (if ok first then expected_error requester_id else expected_error rejecter_id)
         (friend_error this))
     else
     bnd (expected_value rejecter_id) (\<lambda>a.
     bnd (expected_value requester_id) (\<lambda>b.
     bnd (on_db (rejectRequest a b)) (\<lambda>err.
     if \<not> ok err then friend_error this err
     else
     bnd (notify (freq_target_login req) FRIEND_REQUEST_REJECTED []) (\<lambda>_.
     ret (FriendResponse_serialize \<lparr>fres_error = OK\<rparr>))))))))))"

definition logins_of :: "int list \<Rightarrow> string list act" where
  "logins_of ids =
     for_each ids (\<lambda>el. bnd (on_db (getLoginById el)) expected_value)"

definition handle_friend_list :: "env \<Rightarrow> nat \<Rightarrow> bytes \<Rightarrow> bytes act" where
  "handle_friend_list E this body =
     bnd (lift_res (FriendListRequest_deserialize body)) (\<lambda>req.
     bnd (on_db (getLoginByToken E (flreq_token req))) (\<lambda>sender_login.
     case sender_login of
       Inl e \<Rightarrow>
         bnd (set_error this e) (\<lambda>_.
         ret (FriendListResponse_serialize
           \<lparr>flres_friends = [], flres_pending_incoming = [], flres_error = e\<rparr>))
     | Inr login \<Rightarrow>
     bnd (on_db (getIdByLogin login)) (\<lambda>sender_id.
     bnd (expected_value sender_id) (\<lambda>uid.
     bnd (on_db (getFriends uid)) (\<lambda>friend_list.
     bnd (logins_of friend_list) (\<lambda>friend_list_login.
     bnd (on_db (getPendingIncoming uid)) (\<lambda>pending_list.
     bnd (logins_of pending_list) (\<lambda>pending_list_login.
     ret (FriendListResponse_serialize \<lparr>flres_friends = friend_list_login,
       flres_pending_incoming = pending_list_login, flres_error = OK\<rparr>)))))))))"

section \<open>Direct messages\<close>

definition handle_message_history :: "env \<Rightarrow> nat \<Rightarrow> bytes \<Rightarrow> bytes act" where
  "handle_message_history E this body =
     bnd (lift_res (HistoryRequest_deserialize body)) (\<lambda>req.
     bnd (on_db (getLoginByToken E (hreq_token req))) (\<lambda>sender_login.
     case sender_login of
       Inl e \<Rightarrow>
         bnd (set_error this e) (\<lambda>_.
         ret (HistoryResponse_serialize \<lparr>hres_messages = [], hres_error = e\<rparr>))
     | Inr login \<Rightarrow>
     bnd (on_db (getIdByLogin login)) (\<lambda>sender_id.
     bnd (on_db (getIdByLogin (hreq_peer_login req))) (\<lambda>peer_id.
     bnd (expected_value sender_id) (\<lambda>a.
     bnd (expected_value peer_id) (\<lambda>b.
     bnd (on_db (getHistory a b 100)) (\<lambda>messages.
     bnd (for_each messages (\<lambda>m.
       bnd (on_db (getLoginById (dm_sender m))) (\<lambda>from_login.
       bnd (expected_value from_login) (\<lambda>l.
       ret \<lparr>he_from_login = l, he_message = dm_message m,
         he_timestamp = word_of_int (dm_timestamp m)\<rparr>)))) (\<lambda>entries.
     ret (HistoryResponse_serialize \<lparr>hres_messages = entries, hres_error = OK\<rparr>)))))))))"

definition dm_error :: "nat \<Rightarrow> error_code \<Rightarrow> bytes act" where
  "dm_error this e =
     bnd (set_error this e) (\<lambda>_. ret (DirectMessageResponse_serialize \<lparr>dmres_error = e\<rparr>))"

text \<open>The recipient's session is looked up before the message is stored.\<close>

definition handle_direct_message :: "env \<Rightarrow> nat \<Rightarrow> bytes \<Rightarrow> bytes act" where
  "handle_direct_message E this body =
     bnd (lift_res (DirectMessageRequest_deserialize body)) (\<lambda>req.
     bnd (on_db (getLoginByToken E (dmreq_token req))) (\<lambda>sender_login.
     case sender_login of
       Inl e \<Rightarrow> dm_error this e
     | Inr login \<Rightarrow>
     bnd (on_db (userExists (dmreq_recipient_login req))) (\<lambda>err.
     if \<not> ok err then dm_error this err
     else
     bnd (on_db (getIdByLogin login)) (\<lambda>sender_id.
     bnd (on_db (getIdByLogin (dmreq_recipient_login req))) (\<lambda>recipient_id.
     bnd (expected_value sender_id) (\<lambda>a.
     bnd (expected_value recipient_id) (\<lambda>b.
     bnd (on_db (areFriends a b)) (\<lambda>err.
     if \<not> ok err then dm_error this err
     else
     bnd (gets (getSession (dmreq_recipient_login req))) (\<lambda>sess.
     bnd (on_db (saveMessage E a b (dmreq_message req))) (\<lambda>ts.
     bnd (case sess of
            None \<Rightarrow> ret ()
          | Some s \<Rightarrow> modify (send_to s DIRECT_MESSAGE (DirectMessageIncoming_serialize
              \<lparr>dmin_sender_login = login, dmin_message = dmreq_message req,
               dmin_timestamp = word_of_int ts\<rparr>))) (\<lambda>_.
     ret (DirectMessageResponse_serialize \<lparr>dmres_error = OK\<rparr>))))))))))))"

text \<open>When the id is missing the code reads the error of a login that is present.\<close>

definition handle_chat_list :: "env \<Rightarrow> nat \<Rightarrow> bytes \<Rightarrow> bytes act" where
  "handle_chat_list E this body =
     bnd (lift_res (ChatListRequest_deserialize body)) (\<lambda>req.
     bnd (on_db (getLoginByToken E (clreq_token req))) (\<lambda>sender_login.
     case sender_login of
       Inl e \<Rightarrow>
         bnd (set_error this e) (\<lambda>_.
         ret (ChatListResponse_serialize \<lparr>clres_chats = [], clres_error = e\<rparr>))
     | Inr login \<Rightarrow>
     bnd (on_db (getIdByLogin login)) (\<lambda>uid.
     case uid of
       Inl e \<Rightarrow>
         bnd (expected_error sender_login) (\<lambda>e'.
         bnd (set_error this e') (\<lambda>_.
         ret (ChatListResponse_serialize \<lparr>clres_chats = [], clres_error = e\<rparr>)))
     | Inr i \<Rightarrow>
     bnd (on_db (getLastMessages i)) (\<lambda>last_messages.
     bnd (set_error this OK) (\<lambda>_.
     ret (ChatListResponse_serialize \<lparr>clres_chats =
         map (\<lambda>m. \<lparr>cle_peer_login = lm_peer_login m, cle_message = lm_message m,
           cle_timestamp = word_of_int (lm_timestamp m)\<rparr>) last_messages, clres_error = OK\<rparr>))))))"

definition deliver_pending :: "env \<Rightarrow> nat \<Rightarrow> unit act" where
  "deliver_pending E this =
     bnd (get_login this) (\<lambda>login.
     bnd (on_db (getIdByLogin login)) (\<lambda>uid.
     bnd (expected_value uid) (\<lambda>i.
     bnd (on_db (getUndelivered i)) (\<lambda>pending.
     if pending = [] then ret ()
     else
     bnd (for_each pending (\<lambda>el.
       bnd (on_db (getLoginById (sm_sender el))) (\<lambda>sender_login.
       bnd (expected_value sender_login) (\<lambda>l.
       bnd (modify (send_to this DIRECT_MESSAGE (DirectMessageIncoming_serialize
              \<lparr>dmin_sender_login = l, dmin_message = sm_message el,
               dmin_timestamp = word_of_int (sm_timestamp el)\<rparr>))) (\<lambda>_.
       ret (sm_id el)))))) (\<lambda>ids.
     on_db (markDelivered E ids))))))"

section \<open>Dispatch\<close>

text \<open>The request handlers whose only result is the response.\<close>

fun plain_handler :: "packet_type \<Rightarrow> (env \<Rightarrow> nat \<Rightarrow> bytes \<Rightarrow> bytes act) option" where
  "plain_handler MESSAGE = Some handle_message"
| "plain_handler UPLOAD = Some handle_upload"
| "plain_handler DOWNLOAD = Some handle_download"
| "plain_handler FRIEND_REQUEST = Some handle_friend_request"
| "plain_handler FRIEND_ACCEPT = Some handle_friend_accept"
| "plain_handler FRIEND_REJECT = Some handle_friend_reject"
| "plain_handler FRIEND_LIST = Some handle_friend_list"
| "plain_handler DIRECT_MESSAGE = Some handle_direct_message"
| "plain_handler MESSAGE_HISTORY = Some handle_message_history"
| "plain_handler CHAT_LIST = Some handle_chat_list"
| "plain_handler _ = None"

text \<open>The \<^verbatim>\<open>switch\<close>; a packet that is no request gets no answer and is logged as lost.\<close>

definition lost_text :: string where
  "lost_text =
     utf8 [209, 143, 32, 208, 191, 208, 190, 209, 130, 208, 181, 209, 128, 209, 143, 208, 187,
     32, 209, 141, 209, 130, 208, 190, 209, 130, 32, 208, 191, 208, 176, 208, 186, 208, 181,
     209, 130]"

definition dispatch :: "env \<Rightarrow> nat \<Rightarrow> packet_type \<Rightarrow> bytes \<Rightarrow> auth_result act" where
  "dispatch E this type body =
    (if type = REGISTER then handle_register E this body
     else if type = LOGIN then handle_login E this body
     else if type = TOKEN_VERIFY then handle_token_verify E this body
     else if type = LOGOUT then bnd (handle_logout this body) (\<lambda>_. ret ([], '''', False))
     else
       (case plain_handler type of
          Some h \<Rightarrow> bnd (h E this body) (\<lambda>response. ret (response, '''', False))
        | None \<Rightarrow> bnd (log_packet this type lost_text) (\<lambda>_. ret ([], '''', False))))"

definition handle_packet :: "env \<Rightarrow> nat \<Rightarrow> packet_type \<Rightarrow> bytes \<Rightarrow> unit act" where
  "handle_packet E this type body =
     bnd (modify (update_client this (\<lambda>c. c\<lparr>errorCode := clear (errorCode c)\<rparr>))) (\<lambda>_.
     bnd (dispatch E this type body) (\<lambda>(response, login, is_auth_success).
     bnd (if is_auth_success then
            bnd (set_login this login) (\<lambda>_.
            bnd (deliver_pending E this) (\<lambda>_.
            bnd (get_login this) (\<lambda>l.
            modify (addUser l this))))
          else ret ()) (\<lambda>_.
     if response \<noteq> [] then
       bnd (modify (send_to this RESULT response)) (\<lambda>_. log_packet this type '''')
     else ret ())))"

text \<open>The end of a request that has a response: it is sent and logged.\<close>

definition answered :: "nat \<Rightarrow> packet_type \<Rightarrow> bytes \<Rightarrow> server \<Rightarrow> server" where
  "answered this type response S =
     put_line (LoggedPacket type (error_of S this) '''') (send_to this RESULT response S)"

lemma error_of_simps [simp]:
  "error_of (send_to sid t b S) = error_of S"
  "error_of (put_line l S) = error_of S"
  "error_of (S\<lparr>database := d\<rparr>) = error_of S"
  by (auto simp: error_of_def fun_eq_iff split: option.split)

lemma answer_run [prog_simps]:
  "bnd (modify (send_to this RESULT response)) (\<lambda>_. log_packet this type '''') S =
     (Inr (), answered this type response S)"
  by (simp add: answered_def prog_simps)

lemma answer_modify:
  "bnd (modify (send_to this RESULT response)) (\<lambda>_. log_packet this type '''') =
     modify (answered this type response)"
  by (rule ext) (simp add: answer_run modify_run)

lemma answered_simps [simp]:
  "database (answered this type r S) = database S"
  "online_users (answered this type r S) = online_users S"
  "next_client (answered this type r S) = next_client S"
  "files (answered this type r S) = files S"
  "rand_pos (answered this type r S) = rand_pos S"
  "timer_armed (answered this type r S) = timer_armed S"
  "clients (answered this type r S) x = clients (send_to this RESULT r S) x"
  "outbox (answered this type r S) x = outbox (send_to this RESULT r S) x"
  "console (answered this type r S) = console S @ [LoggedPacket type (error_of S this) '''']"
  by (simp_all add: answered_def)

text \<open>The destructor, run when the last \<^verbatim>\<open>shared_ptr\<close> to the session is gone.\<close>

definition gone_line :: "string \<Rightarrow> string" where
  "gone_line login =
     utf8 [208, 154, 208, 187, 208, 184, 208, 181, 208, 189, 209, 130] @ '' '' @ login @ '' ''
     @ utf8 [208, 190, 209, 130, 208, 186, 208, 187, 209, 142, 209, 135, 208, 184, 208, 187,
     209, 129, 209, 143]"

definition destroy_session :: "nat \<Rightarrow> server \<Rightarrow> server" where
  "destroy_session this S =
     (case clients S this of
        None \<Rightarrow> S
      | Some c \<Rightarrow>
          (let S' = (if current_login c \<noteq> ''''
             then put_line (Printed (gone_line (current_login c))) (removeUser (current_login c) S)
             else S)
           in S'\<lparr>clients := (clients S')(this := None)\<rparr>))"

end
