(* ===== verification/ServerMain.thy ===== *)
theory ServerMain
  imports ClientSession
begin

text \<open>
  \<^verbatim>\<open>server/main.cpp\<close> and \<^verbatim>\<open>include/token_cleaner.hpp\<close>: the server as a machine that runs one
  completion handler of the \<^verbatim>\<open>io_context\<close> at a time. No handler catches exceptions, so the first
  one leaves \<^verbatim>\<open>io_context.run()\<close> and ends \<^verbatim>\<open>main\<close>.
\<close>

section \<open>The token cleaner\<close>

definition schedule :: "unit act" where
  "schedule = modify (\<lambda>S. S\<lparr>timer_armed := True\<rparr>)"

definition cleaned_text :: string where
  "cleaned_text =
     ''[TokenCleaner]: '' @ utf8 [208, 152, 209, 129, 209, 130, 208, 181, 208, 186, 209, 136,
     208, 184, 208, 181, 32, 209, 130, 208, 190, 208, 186, 208, 181, 208, 189, 209, 139, 32,
     208, 190, 209, 135, 208, 184, 209, 137, 208, 181, 208, 189, 209, 139] @ ''.''"

definition timer_handler :: "env \<Rightarrow> bool \<Rightarrow> unit act" where
  "timer_handler E error =
     bnd (modify (\<lambda>S. S\<lparr>timer_armed := False\<rparr>)) (\<lambda>_.
     if error then ret ()
     else
       bnd (on_db (cleanExpiredTokens E)) (\<lambda>_.
       bnd (modify (put_line (Logged cleaned_text))) (\<lambda>_.
       schedule)))"

section \<open>Handlers of the io context\<close>

text \<open>The handler of \<^verbatim>\<open>async_accept\<close>, which then waits for the next client.\<close>

definition joined_text :: string where
  "joined_text =
     utf8 [208, 154, 208, 187, 208, 184, 208, 181, 208, 189, 209, 130, 32, 208, 191, 208, 190,
     208, 180, 208, 186, 208, 187, 209, 142, 209, 135, 208, 184, 208, 187, 209, 129, 209, 143]
     @ ''!''"

definition refused_text :: string where
  "refused_text =
     utf8 [208, 158, 209, 136, 208, 184, 208, 177, 208, 186, 208, 176] @ '' accept: ''"

definition accept_handler :: "bool \<Rightarrow> unit act" where
  "accept_handler error =
     (if error then modify (put_line (Complaint refused_text))
      else
        bnd (modify (put_line (Printed joined_text))) (\<lambda>_.
        modify (\<lambda>S. S\<lparr>clients := (clients S)(next_client S \<mapsto> new_client),
          next_client := Suc (next_client S)\<rparr>)))"

text \<open>Bytes that reach a socket are kept by the operating system until a read takes them.\<close>

definition arrive :: "nat \<Rightarrow> bytes \<Rightarrow> server \<Rightarrow> server" where
  "arrive sid bs =
     update_client sid (\<lambda>c. c\<lparr>reader := (reader c)\<lparr>inbuf := inbuf (reader c) @ bs\<rparr>\<rparr>)"

text \<open>
  A read that has its bytes: the header handler starts the read of the body, the body handler
  calls \<^verbatim>\<open>handle_packet\<close> and then waits for the next header.
\<close>

definition read_handler :: "env \<Rightarrow> nat \<Rightarrow> packet_type \<times> bytes \<Rightarrow> reader \<Rightarrow> unit act" where
  "read_handler E sid packet r =
     bnd (handle_packet E sid (fst packet) (snd packet)) (\<lambda>_.
     modify (update_client sid (\<lambda>c. c\<lparr>reader := r\<rparr>)))"

definition read_complete :: "env \<Rightarrow> nat \<Rightarrow> server \<Rightarrow> ((fault + unit) \<times> server) option" where
  "read_complete E sid S =
     (case clients S sid of
        None \<Rightarrow> None
      | Some c \<Rightarrow>
          if \<not> reading c then None
          else (case read_step (reader c) of
                  None \<Rightarrow> None
                | Some (None, r) \<Rightarrow>
                    Some (modify (update_client sid (\<lambda>c. c\<lparr>reader := r\<rparr>)) S)
                | Some (Some packet, r) \<Rightarrow> Some (read_handler E sid packet r S)))"

text \<open>An event of the writing half of a session.\<close>

definition net_handler :: "nat \<Rightarrow> net_event \<Rightarrow> server \<Rightarrow> ((fault + unit) \<times> server) option" where
  "net_handler sid e S =
     (case clients S sid of
        None \<Rightarrow> None
      | Some c \<Rightarrow>
          (case net_step e (net c) of
             None \<Rightarrow> None
           | Some (Inl f) \<Rightarrow> Some (Inl f, S)
           | Some (Inr n) \<Rightarrow> Some (Inr (), update_client sid (\<lambda>c. c\<lparr>net := n\<rparr>) S)))"

text \<open>A read that fails closes the socket and is not renewed.\<close>

definition read_failed :: "nat \<Rightarrow> server \<Rightarrow> ((fault + unit) \<times> server) option" where
  "read_failed sid S =
     (case clients S sid of
        None \<Rightarrow> None
      | Some c \<Rightarrow>
          if \<not> reading c then None
          else net_handler sid ReadFailed (update_client sid (\<lambda>c. c\<lparr>reading := False\<rparr>) S))"

text \<open>Pending handlers hold the session; it is destroyed when there are none left.\<close>

definition release :: "nat \<Rightarrow> server \<Rightarrow> ((fault + unit) \<times> server) option" where
  "release sid S =
     (case clients S sid of
        None \<Rightarrow> None
      | Some c \<Rightarrow>
          if reading c \<or> posted (net c) \<noteq> [] \<or> in_flight (net c) \<noteq> [] then None
          else Some (Inr (), destroy_session sid S))"

section \<open>The server process\<close>

datatype event =
    Accept bool
  | Arrive nat bytes
  | ReadComplete nat
  | ReadFail nat
  | RunPost nat
  | WriteComplete nat bool
  | Release nat
  | TimerFired bool

fun server_step :: "env \<Rightarrow> event \<Rightarrow> server \<Rightarrow> ((fault + unit) \<times> server) option" where
  "server_step E (Accept error) S = Some (accept_handler error S)"
| "server_step E (Arrive sid bs) S =
     (if clients S sid = None then None else Some (Inr (), arrive sid bs S))"
| "server_step E (ReadComplete sid) S = read_complete E sid S"
| "server_step E (ReadFail sid) S = read_failed sid S"
| "server_step E (RunPost sid) S = net_handler sid RunPosted S"
| "server_step E (WriteComplete sid error) S = net_handler sid (WriteDone error) S"
| "server_step E (Release sid) S = release sid S"
| "server_step E (TimerFired error) S =
     (if timer_armed S then Some (timer_handler E error S) else None)"

text \<open>
  \<^verbatim>\<open>main\<close> opens the database, which may hold the rows of an earlier run, cleans the tokens and
  starts the cleaner.
\<close>

definition created_text :: string where
  "created_text =
     utf8 [208, 161, 208, 181, 209, 128, 208, 178, 208, 181, 209, 128, 32, 209, 129, 208, 190,
     208, 183, 208, 180, 208, 176, 208, 189, 32, 208, 189, 208, 176, 32, 208, 176, 208, 180,
     209, 128, 208, 181, 209, 129, 208, 181] @ '' ''"

definition Server :: "store \<Rightarrow> files \<Rightarrow> server" where
  "Server s fs = \<lparr>database = s, online_users = [], clients = (\<lambda>_. None), next_client = 0,
     files = fs, rand_pos = 0, timer_armed = False,
     console = [Printed (created_text @ ''0.0.0.0'')]\<rparr>"

definition main_init :: "env \<Rightarrow> unit act" where
  "main_init E = bnd (on_db (cleanExpiredTokens E)) (\<lambda>_. schedule)"

datatype process = Running server | Exited fault server

definition outcome :: "(fault + unit) \<times> server \<Rightarrow> process" where
  "outcome r = (case r of (Inl f, S) \<Rightarrow> Exited f S | (Inr _, S) \<Rightarrow> Running S)"

text \<open>\<open>None\<close> when an event is not possible where it stands; an exited process takes no step.\<close>

fun run :: "env \<Rightarrow> event list \<Rightarrow> server \<Rightarrow> process option" where
  "run E [] S = Some (Running S)"
| "run E (e # es) S =
     (case server_step E e S of
        None \<Rightarrow> None
      | Some (Inl f, S') \<Rightarrow> if es = [] then Some (Exited f S') else None
      | Some (Inr _, S') \<Rightarrow> run E es S')"

inductive process_step :: "env \<Rightarrow> process \<Rightarrow> process \<Rightarrow> bool" for E :: env where
  handler: "server_step E e S = Some r \<Longrightarrow> process_step E (Running S) (outcome r)"

inductive_cases process_stepE: "process_step E p q"
inductive_simps process_step_exited: "process_step E (Exited f S) q"

inductive reachable :: "env \<Rightarrow> store \<Rightarrow> files \<Rightarrow> process \<Rightarrow> bool"
  for E :: env and s0 :: store and fs :: files where
  start: "reachable E s0 fs (outcome (main_init E (Server s0 fs)))"
| step: "reachable E s0 fs p \<Longrightarrow> process_step E p q \<Longrightarrow> reachable E s0 fs q"

lemma run_reachable:
  "run E es S = Some p \<Longrightarrow> reachable E s0 fs (Running S) \<Longrightarrow> reachable E s0 fs p"
proof (induction es arbitrary: S)
  case (Cons e es)
  then obtain r where r: "server_step E e S = Some r" by (cases "server_step E e S") auto
  have next_ok: "reachable E s0 fs (outcome r)"
    using reachable.step [OF Cons.prems(2) process_step.handler [OF r]] .
  show ?case
  proof (cases r)
    case (Pair x S')
    then show ?thesis
      using Cons.IH [of S'] Cons.prems(1) r next_ok
      by (cases x) (auto simp: outcome_def split: if_splits)
  qed
qed simp

text \<open>A property of every reachable process, from the start and from the handlers.\<close>

lemma reachable_invariant:
  assumes start: "I (snd (main_init E (Server s0 fs)))"
    and step: "\<And>e S r. I S \<Longrightarrow> server_step E e S = Some r \<Longrightarrow> I (snd r)"
    and p: "reachable E s0 fs p"
  shows "case p of Running S \<Rightarrow> I S | Exited f S \<Rightarrow> I S"
  using p
proof induction
  case start
  then show ?case using assms(1)
    by (cases "main_init E (Server s0 fs)", cases "fst (main_init E (Server s0 fs))")
      (auto simp: outcome_def)
next
  case (step p q)
  from step.hyps(2) obtain e S r where "p = Running S" "server_step E e S = Some r" "q = outcome r"
    by (rule process_stepE)
  with step.IH assms(2) [of S e r] show ?case
    by (cases r, cases "fst r") (auto simp: outcome_def)
qed

end
