(* ===== verification/ServerInvariant.thy ===== *)
theory ServerInvariant
  imports ServerMain
begin

text \<open>
  The invariant of the server process and the proof that every handler keeps it, exceptions
  included: the database invariant, a registry in which every online login belongs to a
  registered user and every session number was given out, and for every session a writer that
  never has two writes outstanding.
\<close>

definition logins :: "store \<Rightarrow> string set" where
  "logins s = u_login ` set (users s)"

lemma logins_id: "id_of_login s l \<noteq> None \<longleftrightarrow> l \<in> logins s"
  using user_by_login_None [of l s] by (auto simp: id_of_login_def logins_def)

section \<open>Users are never removed\<close>

definition knows :: "string set \<Rightarrow> store \<Rightarrow> bool" where
  "knows L s \<longleftrightarrow> store_inv s \<and> L \<subseteq> logins s"

lemma preserves_knowsI:
  "preserves store_inv m \<Longrightarrow> (\<And>s. logins s \<subseteq> logins (snd (m s))) \<Longrightarrow> preserves (knows L) m"
  by (auto simp: preserves_def knows_def)

lemma preserves_knows_table [preserves_intros]:
  "preserves (knows L) (system_now E)"
  "preserves (knows L) (draw_uuid E)"
  "preserves (knows L) (delete_session t)"
  "preserves (knows L) (insert_user l sa p)"
  "preserves (knows L) (insert_session t i c)"
  "d \<in> {0, 1} \<Longrightarrow> preserves (knows L) (insert_message a b c msg d)"
  by (rule preserves_knowsI, (intro preserves_intros; simp)?,
      force simp: logins_def prog_simps delete_session_def insert_user_def insert_session_def
        insert_message_def)+

lemma preserves_knows_friends [preserves_intros]:
  "preserves (knows L) (sendRequest a b)"
  "preserves (knows L) (acceptRequest a b)"
  "preserves (knows L) (rejectRequest a b)"
  "preserves (knows L) (markDelivered E ids)"
  "preserves (knows L) (cleanExpiredTokens E)"
  "preserves (knows L) (logout t)"
  by (rule preserves_knowsI, intro preserves_intros,
      (auto simp: logins_def prog_simps sendRequest_def acceptRequest_def rejectRequest_def Let_def
        markDelivered_run marked_def cleanExpiredTokens_def bnd_def insert_friendship_def
        split: prod.splits sum.splits option.splits)[1])+

lemma preserves_knows_users [preserves_intros]:
  "preserves (knows L) (registerUser E l p)"
  "preserves (knows L) (verifyUser E l p)"
  "preserves (knows L) (getLoginByToken E t)"
  "preserves (knows L) (saveMessage E a b m)"
  unfolding registerUser_def generateSalt_def verifyUser_def verifyPassword_def Let_def
    getLoginByToken_def saveMessage_def
  by (intro preserves_intros; simp)+

section \<open>The invariant\<close>

definition online_inv :: "server \<Rightarrow> bool" where
  "online_inv S \<longleftrightarrow> distinct (map fst (online_users S)) \<and>
     fst ` set (online_users S) \<subseteq> logins (database S) \<and>
     snd ` set (online_users S) \<subseteq> {..<next_client S}"

definition clients_inv :: "server \<Rightarrow> bool" where
  "clients_inv S \<longleftrightarrow> (\<forall>sid c. clients S sid = Some c \<longrightarrow> sid < next_client S \<and> net_inv (net c))"

definition server_inv :: "server \<Rightarrow> bool" where
  "server_inv S \<longleftrightarrow> store_inv (database S) \<and> online_inv S \<and> clients_inv S"

text \<open>The same while a handler of the session \<open>this\<close> runs, which keeps it alive.\<close>

definition serving :: "nat \<Rightarrow> server \<Rightarrow> bool" where
  "serving this S \<longleftrightarrow> server_inv S \<and> clients S this \<noteq> None"

lemma serving_on_db [preserves_intros]:
  assumes "\<And>L. preserves (knows L) m"
  shows "preserves (serving this) (on_db m)"
proof (rule preservesI)
  fix S assume S: "serving this S"
  obtain r s where m: "m (database S) = (r, s)" by force
  have "knows (fst ` set (online_users S)) (database S)"
    using S by (simp add: serving_def server_inv_def online_inv_def knows_def)
  from preservesD [OF assms this] m have "knows (fst ` set (online_users S)) s" by simp
  then show "serving this (snd (on_db m S))"
    using S by (simp add: on_db_run [of m, OF m] serving_def server_inv_def online_inv_def clients_inv_def knows_def)
qed

lemma serving_on_files [preserves_intros]: "preserves (serving this) (on_files m)"
  by (rule preservesI)
    (simp add: on_files_def serving_def server_inv_def online_inv_def clients_inv_def split: prod.split)

lemma serving_on_rand [preserves_intros]: "preserves (serving this) (on_rand m)"
  by (rule preservesI)
    (simp add: on_rand_def serving_def server_inv_def online_inv_def clients_inv_def split: prod.split)

lemma server_inv_update_client:
  assumes "server_inv S" and "\<And>c. net_inv (net c) \<Longrightarrow> net_inv (net (f c))"
  shows "server_inv (update_client sid f S)"
  using assms by (auto simp: server_inv_def online_inv_def clients_inv_def)

lemma serving_update_client:
  assumes "\<And>c. net_inv (net c) \<Longrightarrow> net_inv (net (f c))"
  shows "preserves (serving this) (modify (update_client sid f))"
  using server_inv_update_client [of _ f sid] assms
  by (intro preserves_modify) (auto simp: serving_def)

lemma serving_setters [preserves_intros]:
  "preserves (serving this) (set_error sid e)"
  "preserves (serving this) (set_token sid t)"
  "preserves (serving this) (set_login sid l)"
  unfolding set_error_def set_token_def set_login_def by (intro serving_update_client; simp)+

lemma net_inv_send_packet [simp]: "net_inv n \<Longrightarrow> net_inv (send_packet t b n)"
  by (simp add: net_inv_def send_packet_def)

lemma serving_send_to: "serving this S \<Longrightarrow> serving this (send_to sid t b S)"
  using preservesD [OF serving_update_client, of "\<lambda>c. c\<lparr>net := send_packet t b (net c)\<rparr>" this S sid]
  by (simp add: send_to_def prog_simps)

lemma serving_modify_send [preserves_intros]: "preserves (serving this) (modify (send_to sid t b))"
  by (rule preserves_modify) (rule serving_send_to)

lemma server_inv_put_line [simp]: "server_inv (put_line l S) = server_inv S"
  by (simp add: server_inv_def online_inv_def clients_inv_def)

lemma serving_put_line [simp]: "serving this (put_line l S) = serving this S"
  by (simp add: serving_def)

lemma serving_broadcast [preserves_intros]: "preserves (serving this) (modify (broadcast l t b))"
  by (rule broadcast_preserves) (simp_all add: serving_send_to)

lemma serving_log [preserves_intros]: "preserves (serving this) (log_packet sid type msg)"
  by (rule preserves_log_packet) simp

lemma serving_notify [preserves_intros]: "preserves (serving this) (notify l t b)"
  unfolding notify_def by (intro preserves_intros)

section \<open>The handlers keep it\<close>

lemma serving_auth [preserves_intros]:
  "preserves (serving this) (handle_register E this body)"
  "preserves (serving this) (handle_login E this body)"
  "preserves (serving this) (handle_token_verify E this body)"
  "preserves (serving this) (handle_logout this body)"
  unfolding handle_register_def handle_login_def handle_token_verify_def handle_logout_def
  by (intro preserves_intros)+

lemma serving_chat [preserves_intros]:
  "preserves (serving this) (handle_message E this body)"
  "preserves (serving this) (handle_upload E this body)"
  "preserves (serving this) (handle_download E this body)"
  unfolding handle_message_def handle_upload_def handle_download_def
  by (intro preserves_intros)+

lemma serving_friends [preserves_intros]:
  "preserves (serving this) (handle_friend_request E this body)"
  "preserves (serving this) (handle_friend_accept E this body)"
  "preserves (serving this) (handle_friend_reject E this body)"
  "preserves (serving this) (handle_friend_list E this body)"
  unfolding handle_friend_request_def handle_friend_accept_def handle_friend_reject_def
    friend_error_def handle_friend_list_def logins_of_def
  by (intro preserves_intros)+

lemma serving_messages [preserves_intros]:
  "preserves (serving this) (handle_direct_message E this body)"
  "preserves (serving this) (handle_message_history E this body)"
  "preserves (serving this) (handle_chat_list E this body)"
  "preserves (serving this) (deliver_pending E this)"
  unfolding handle_direct_message_def dm_error_def handle_message_history_def handle_chat_list_def
    deliver_pending_def get_login_def
  by (intro preserves_intros)+

lemma serving_plain: "plain_handler type = Some h \<Longrightarrow> preserves (serving this) (h E this body)"
  by (cases type) (auto intro: preserves_intros)

lemma serving_dispatch [preserves_intros]: "preserves (serving this) (dispatch E this type body)"
  unfolding dispatch_def by (intro preserves_intros serving_plain)

section \<open>Who gets into the registry\<close>

definition login_of :: "server \<Rightarrow> nat \<Rightarrow> string" where
  "login_of S sid = (case clients S sid of None \<Rightarrow> '''' | Some c \<Rightarrow> current_login c)"

lemma get_login_run [prog_simps]: "get_login this S = (Inr (login_of S this), S)"
  by (simp add: get_login_def login_of_def prog_simps)

definition serving_as :: "nat \<Rightarrow> string \<Rightarrow> server \<Rightarrow> bool" where
  "serving_as this l S \<longleftrightarrow> serving this S \<and> l \<in> logins (database S) \<and> login_of S this = l"

lemma serving_as_on_db [preserves_intros]:
  assumes "\<And>L. preserves (knows L) m"
  shows "preserves (serving_as this l) (on_db m)"
proof (rule preservesI)
  fix S assume S: "serving_as this l S"
  obtain r s where m: "m (database S) = (r, s)" by force
  have "knows {l} (database S)"
    using S by (simp add: serving_as_def serving_def server_inv_def knows_def)
  from preservesD [OF assms this] m have "l \<in> logins s" by (simp add: knows_def)
  moreover have "serving this (snd (on_db m S))"
    using S preservesD [OF serving_on_db [OF assms]] by (simp add: serving_as_def)
  ultimately show "serving_as this l (snd (on_db m S))"
    using S by (simp add: on_db_run [of m, OF m] serving_as_def login_of_def)
qed

lemma serving_as_send [preserves_intros]:
  "preserves (serving_as this l) (modify (send_to sid t b))"
  by (rule preserves_modify)
    (auto simp: serving_as_def serving_send_to login_of_def split: option.splits)

lemma serving_as_gets_login [preserves_intros]: "preserves (serving_as this l) (get_login this)"
  by (simp add: get_login_def preserves_gets)

text \<open>Delivery succeeds only for a registered login, so that \<^verbatim>\<open>addUser\<close> gets no other.\<close>

lemma deliver_pending_as:
  assumes "serving this S" and "deliver_pending E this S = (Inr x, S')"
  shows "serving_as this (login_of S this) S'"
proof -
  let ?l = "login_of S this"
  have get: "on_db (getIdByLogin ?l) S =
      (Inr (case id_of_login (database S) ?l of None \<Rightarrow> Inl NotFound | Some i \<Rightarrow> Inr i), S)"
    by (simp add: on_db_def prog_simps)
  have "id_of_login (database S) ?l \<noteq> None"
    using assms(2) unfolding deliver_pending_def
    by (cases "id_of_login (database S) ?l") (simp_all add: prog_simps get)
  then have "?l \<in> logins (database S)" by (simp only: logins_id)
  then have "serving_as this ?l S" using assms(1) by (simp add: serving_as_def)
  moreover have "preserves (serving_as this ?l) (deliver_pending E this)"
    unfolding deliver_pending_def get_login_def by (intro preserves_intros)
  ultimately show ?thesis using preservesD assms(2) by fastforce
qed

lemma serving_addUser:
  assumes "serving_as this l S"
  shows "serving this (addUser l this S)"
proof -
  have given: "this < next_client S" and l: "l \<in> logins (database S)" and on: "online_inv S"
    using assms by (auto simp: serving_as_def serving_def server_inv_def clients_inv_def)
  have keys: "fst ` set (AList.update l this us) \<subseteq> insert l (fst ` set us)"
    and vals: "snd ` set (AList.update l this us) \<subseteq> insert this (snd ` set us)" for us
    by (induction us) auto
  have "fst ` set (AList.update l this (online_users S)) \<subseteq> logins (database S)"
    using keys [of "online_users S"] l on unfolding online_inv_def by blast
  moreover have "snd ` set (AList.update l this (online_users S)) \<subseteq> {..<next_client S}"
  proof (rule subset_trans [OF vals])
    show "insert this (snd ` set (online_users S)) \<subseteq> {..<next_client S}"
      using given on by (simp add: online_inv_def)
  qed
  ultimately have "online_inv (addUser l this S)"
    using on by (simp add: online_inv_def addUser_def distinct_update)
  then show ?thesis
    using assms by (simp add: serving_as_def serving_def server_inv_def clients_inv_def addUser_def)
qed

text \<open>The end of an authentication.\<close>

lemma serving_after_auth:
  "preserves (serving this) (bnd (deliver_pending E this) (\<lambda>_.
     bnd (get_login this) (\<lambda>l. modify (addUser l this))))"
proof (rule preservesI)
  fix S assume S: "serving this S"
  obtain r S' where run: "deliver_pending E this S = (r, S')" by force
  show "serving this (snd (bnd (deliver_pending E this) (\<lambda>_.
     bnd (get_login this) (\<lambda>l. modify (addUser l this))) S))"
  proof (cases r)
    case (Inl e)
    moreover have "preserves (serving this) (deliver_pending E this)" by (intro preserves_intros)
    from preservesD [OF this, of S] S run have "serving this S'" by simp
    ultimately show ?thesis using run by (simp add: prog_simps)
  next
    case (Inr x)
    with run have "deliver_pending E this S = (Inr x, S')" by simp
    from this deliver_pending_as [OF S this] show ?thesis
      by (auto simp: prog_simps serving_as_def intro!: serving_addUser)
  qed
qed

lemma serving_handle_packet: "preserves (serving this) (handle_packet E this type body)"
proof -
  have "preserves (serving this)
      (modify (update_client this (\<lambda>c. c\<lparr>errorCode := clear (errorCode c)\<rparr>)))"
    by (rule serving_update_client) simp
  then show ?thesis
    unfolding handle_packet_def case_prod_beta
    by (intro preserves_intros serving_after_auth)
qed

section \<open>Every step of the server\<close>

lemma server_inv_serving: "serving this S \<Longrightarrow> server_inv S"
  by (simp add: serving_def)

lemma server_inv_on_db:
  "(\<And>L. preserves (knows L) m) \<Longrightarrow> server_inv S \<Longrightarrow> server_inv (snd (on_db m S))"
proof -
  assume m: "\<And>L. preserves (knows L) m" and S: "server_inv S"
  obtain r s where run: "m (database S) = (r, s)" by force
  have "knows (fst ` set (online_users S)) (database S)"
    using S by (simp add: server_inv_def online_inv_def knows_def)
  from preservesD [OF m this] run S show ?thesis
    by (simp add: on_db_run [of m, OF run] server_inv_def online_inv_def clients_inv_def knows_def)
qed

lemma server_inv_timer [simp]:
  "server_inv (S\<lparr>timer_armed := b\<rparr>) = server_inv S"
  "server_inv (S\<lparr>timer_armed := b, database := d\<rparr>) = server_inv (S\<lparr>database := d\<rparr>)"
  by (simp_all add: server_inv_def online_inv_def clients_inv_def)

lemma server_inv_reader: "server_inv S \<Longrightarrow> server_inv (update_client sid (\<lambda>c. c\<lparr>reader := r c\<rparr>) S)"
  by (rule server_inv_update_client) simp_all

lemma server_inv_accept: "server_inv S \<Longrightarrow> server_inv (snd (accept_handler error S))"
  by (auto simp: accept_handler_def prog_simps server_inv_def online_inv_def clients_inv_def
      new_client_def new_net_inv less_Suc_eq)

lemma cleaner_run:
  "cleanExpiredTokens E s = (Inr (), s\<lparr>clock_pos := Suc (clock_pos s),
     sessions := filter (\<lambda>r. \<not> clock E (clock_pos s) - s_created_at r > TOKEN_TTL) (sessions s)\<rparr>)"
  by (simp add: cleanExpiredTokens_def prog_simps)

lemma server_inv_timer_handler: "server_inv S \<Longrightarrow> server_inv (snd (timer_handler E error S))"
  using server_inv_on_db [of "cleanExpiredTokens E" "S\<lparr>timer_armed := False\<rparr>"]
  by (simp add: timer_handler_def prog_simps schedule_def on_db_def cleaner_run preserves_intros)

lemma server_inv_main_init: "store_inv s0 \<Longrightarrow> server_inv (snd (main_init E (Server s0 fs)))"
  using server_inv_on_db [of "cleanExpiredTokens E" "Server s0 fs"]
  by (simp add: main_init_def prog_simps schedule_def on_db_def cleaner_run preserves_intros)
    (simp add: server_inv_def online_inv_def clients_inv_def Server_def)

lemma server_inv_read_complete:
  assumes "server_inv S" and "read_complete E sid S = Some r"
  shows "server_inv (snd r)"
proof -
  obtain c where c: "clients S sid = Some c" using assms(2)
    by (cases "clients S sid") (auto simp: read_complete_def)
  then have serv: "serving sid S" using assms(1) by (simp add: serving_def)
  have handler: "server_inv (snd (read_handler E sid packet rd S))" for packet rd
  proof -
    have "preserves (serving sid) (read_handler E sid packet rd)"
      unfolding read_handler_def
      by (intro preserves_bnd serving_handle_packet serving_update_client) simp_all
    from preservesD [OF this serv] show ?thesis by (rule server_inv_serving)
  qed
  then show ?thesis
    using assms c by (auto simp: read_complete_def prog_simps server_inv_reader
        split: if_splits option.splits)
qed

lemma server_inv_net_handler:
  assumes "server_inv S" and "net_handler sid e S = Some r"
  shows "server_inv (snd r)" and "\<exists>S'. r = (Inr (), S')"
proof -
  obtain c where c: "clients S sid = Some c" using assms(2)
    by (cases "clients S sid") (auto simp: net_handler_def)
  then have inv: "net_inv (net c)" using assms(1) by (auto simp: server_inv_def clients_inv_def)
  obtain q where q: "net_step e (net c) = Some q"
    using assms(2) c by (cases "net_step e (net c)") (auto simp: net_handler_def)
  obtain n where n: "q = Inr n" "net_inv n" using net_step_inv [OF inv q] by blast
  then have r: "r = (Inr (), update_client sid (\<lambda>c. c\<lparr>net := n\<rparr>) S)"
    using assms(2) c q by (simp add: net_handler_def)
  then show "\<exists>S'. r = (Inr (), S')" by blast
  show "server_inv (snd r)" unfolding r using n(2) assms(1)
    by (simp add: server_inv_update_client)
qed

lemma server_inv_read_failed:
  assumes "server_inv S" and "read_failed sid S = Some r"
  shows "server_inv (snd r)" and "\<exists>S'. r = (Inr (), S')"
proof -
  have "server_inv (update_client sid (\<lambda>c. c\<lparr>reading := False\<rparr>) S)"
    using assms(1) by (rule server_inv_update_client) simp
  moreover have "net_handler sid ReadFailed (update_client sid (\<lambda>c. c\<lparr>reading := False\<rparr>) S) = Some r"
    using assms(2) by (auto simp: read_failed_def split: option.splits if_splits)
  ultimately show "server_inv (snd r)" "\<exists>S'. r = (Inr (), S')"
    using server_inv_net_handler by blast+
qed

lemma set_delete_subset: "set (AList.delete k us) \<subseteq> set us"
  by (induction us) auto

lemma server_inv_removeUser: "server_inv S \<Longrightarrow> server_inv (removeUser l S)"
  using set_delete_subset [of l "online_users S"]
  by (auto simp: server_inv_def online_inv_def clients_inv_def removeUser_def distinct_delete)

lemma server_inv_drop: "server_inv S \<Longrightarrow> server_inv (S\<lparr>clients := (clients S)(sid := None)\<rparr>)"
  by (auto simp: server_inv_def online_inv_def clients_inv_def)

lemma server_inv_destroy: "server_inv S \<Longrightarrow> server_inv (destroy_session sid S)"
  by (auto simp: destroy_session_def Let_def server_inv_drop server_inv_removeUser
      split: option.split)

lemma server_step_inv:
  assumes "server_inv S" and "server_step E e S = Some r"
  shows "server_inv (snd r)"
proof (cases e)
  case (Arrive sid bs)
  then show ?thesis using assms
    by (auto simp: arrive_def server_inv_reader split: if_splits)
next
  case (Release sid)
  then show ?thesis using assms
    by (auto simp: release_def server_inv_destroy split: if_splits option.splits)
qed (use assms in \<open>auto intro: server_inv_accept server_inv_read_complete
      server_inv_net_handler(1) server_inv_read_failed(1) server_inv_timer_handler split: if_splits\<close>)

lemma reachable_inv:
  assumes "store_inv s0" and "reachable E s0 fs p"
  shows "case p of Running S \<Rightarrow> server_inv S | Exited f S \<Rightarrow> server_inv S"
  using reachable_invariant [of server_inv E s0 fs p] server_inv_main_init [OF assms(1)]
    server_step_inv assms(2) by blast

end
