(* ===== verification/SessionBehaviour.thy ===== *)
theory SessionBehaviour
  imports ServerInvariant
begin

text \<open>
  What the handlers of \<^verbatim>\<open>include/client_session.hpp\<close> do, branch by branch: the answer to a
  request without a valid token, the effect and the answer of the authorised ones, and what
  is sent to other sessions.
\<close>

section \<open>Requests without a valid token\<close>

text \<open>The token that a request carries, when it parses.\<close>

fun request_token :: "packet_type \<Rightarrow> bytes \<Rightarrow> fault + string" where
  "request_token MESSAGE b = map_sum id csreq_token (ChatSendRequest_deserialize b)"
| "request_token UPLOAD b = map_sum id fureq_token (FileUploadRequest_deserialize b)"
| "request_token DOWNLOAD b = map_sum id fdreq_token (FileDownloadRequest_deserialize b)"
| "request_token FRIEND_REQUEST b = map_sum id freq_token (FriendRequest_deserialize b)"
| "request_token FRIEND_ACCEPT b = map_sum id freq_token (FriendRequest_deserialize b)"
| "request_token FRIEND_REJECT b = map_sum id freq_token (FriendRequest_deserialize b)"
| "request_token FRIEND_LIST b = map_sum id flreq_token (FriendListRequest_deserialize b)"
| "request_token DIRECT_MESSAGE b = map_sum id dmreq_token (DirectMessageRequest_deserialize b)"
| "request_token MESSAGE_HISTORY b = map_sum id hreq_token (HistoryRequest_deserialize b)"
| "request_token CHAT_LIST b = map_sum id clreq_token (ChatListRequest_deserialize b)"
| "request_token _ b = Inl (RuntimeError ''no token'')"

text \<open>The answer that carries only an error.\<close>

fun error_reply :: "packet_type \<Rightarrow> error_code \<Rightarrow> bytes" where
  "error_reply MESSAGE e = ChatResponse_serialize \<lparr>cres_error = e\<rparr>"
| "error_reply UPLOAD e = FileUploadResponse_serialize \<lparr>fures_error = e\<rparr>"
| "error_reply DOWNLOAD e =
     FileDownloadResponse_serialize \<lparr>fdres_file_data = [], fdres_error = e\<rparr>"
| "error_reply FRIEND_LIST e = FriendListResponse_serialize
     \<lparr>flres_friends = [], flres_pending_incoming = [], flres_error = e\<rparr>"
| "error_reply DIRECT_MESSAGE e = DirectMessageResponse_serialize \<lparr>dmres_error = e\<rparr>"
| "error_reply MESSAGE_HISTORY e = HistoryResponse_serialize \<lparr>hres_messages = [], hres_error = e\<rparr>"
| "error_reply CHAT_LIST e = ChatListResponse_serialize \<lparr>clres_chats = [], clres_error = e\<rparr>"
| "error_reply TOKEN_VERIFY e = TokenVerifyResponse_serialize \<lparr>tvres_error = e\<rparr>"
| "error_reply LOGIN e = AuthResponse_serialize \<lparr>ares_token = '''', ares_error = e\<rparr>"
| "error_reply REGISTER e = AuthResponse_serialize \<lparr>ares_token = '''', ares_error = e\<rparr>"
| "error_reply _ e = FriendResponse_serialize \<lparr>fres_error = e\<rparr>"

definition note_error :: "nat \<Rightarrow> error_code \<Rightarrow> server \<Rightarrow> server" where
  "note_error this e = update_client this (\<lambda>c. c\<lparr>errorCode := e\<rparr>)"

lemma set_error_run [prog_simps]: "set_error this e S = (Inr (), note_error this e S)"
  by (simp add: set_error_def note_error_def prog_simps)

lemma note_error_simps [simp]:
  "database (note_error this e S) = database S"
  "online_users (note_error this e S) = online_users S"
  "next_client (note_error this e S) = next_client S"
  "files (note_error this e S) = files S"
  "rand_pos (note_error this e S) = rand_pos S"
  "outbox (note_error this e S) x = outbox S x"
  "clients (note_error this e S) x = None \<longleftrightarrow> clients S x = None"
  by (simp_all add: note_error_def outbox_def split: option.split)

lemma getSession_note_error [simp]: "getSession l (note_error this e S) = getSession l S"
  by (simp add: getSession_def lock_def split: option.split)

lemmas handler_defs = handle_message_def handle_upload_def handle_download_def
  handle_friend_request_def handle_friend_accept_def handle_friend_reject_def
  handle_friend_list_def handle_direct_message_def handle_message_history_def
  handle_chat_list_def friend_error_def dm_error_def

lemma map_sum_Inr: "map_sum id f r = Inr y \<longleftrightarrow> (\<exists>x. r = Inr x \<and> f x = y)"
  by (cases r) auto

lemma map_sum_Inl: "map_sum id f r = Inl y \<longleftrightarrow> r = Inl y"
  by (cases r) auto

lemma unauthorized_handler:
  assumes "plain_handler type = Some h" and "request_token type body = Inr t"
    and "getLoginByToken E t (database S) = (Inr (Inl e), s)"
  shows "h E this body S = (Inr (error_reply type e), note_error this e (S\<lparr>database := s\<rparr>))"
  using assms
  by (cases type) (auto simp: map_sum_Inr handler_defs prog_simps on_db_run)

text \<open>Requests that parse carry a token, and a request that does not parse throws.\<close>

lemma malformed_handler:
  assumes "plain_handler type = Some h" and "request_token type body = Inl f"
  shows "h E this body S = (Inl f, S)"
  using assms by (cases type) (auto simp: map_sum_Inl handler_defs prog_simps)

text \<open>
  How the body of a request fails to parse, for the fourteen types that a client sends; the
  server reads no body of any other type.
\<close>

definition parse_fault :: "fault + 'a \<Rightarrow> fault option" where
  "parse_fault r = (case r of Inl f \<Rightarrow> Some f | Inr _ \<Rightarrow> None)"

fun request_fault :: "packet_type \<Rightarrow> bytes \<Rightarrow> fault option" where
  "request_fault REGISTER body = parse_fault (AuthRequest_deserialize body)"
| "request_fault LOGIN body = parse_fault (AuthRequest_deserialize body)"
| "request_fault TOKEN_VERIFY body = parse_fault (TokenVerifyRequest_deserialize body)"
| "request_fault LOGOUT body = parse_fault (LogoutRequest_deserialize body)"
| "request_fault MESSAGE body = parse_fault (ChatSendRequest_deserialize body)"
| "request_fault UPLOAD body = parse_fault (FileUploadRequest_deserialize body)"
| "request_fault DOWNLOAD body = parse_fault (FileDownloadRequest_deserialize body)"
| "request_fault FRIEND_REQUEST body = parse_fault (FriendRequest_deserialize body)"
| "request_fault FRIEND_ACCEPT body = parse_fault (FriendRequest_deserialize body)"
| "request_fault FRIEND_REJECT body = parse_fault (FriendRequest_deserialize body)"
| "request_fault FRIEND_LIST body = parse_fault (FriendListRequest_deserialize body)"
| "request_fault DIRECT_MESSAGE body = parse_fault (DirectMessageRequest_deserialize body)"
| "request_fault MESSAGE_HISTORY body = parse_fault (HistoryRequest_deserialize body)"
| "request_fault CHAT_LIST body = parse_fault (ChatListRequest_deserialize body)"
| "request_fault _ body = None"

lemma parse_fault_Some [simp]: "parse_fault r = Some f \<longleftrightarrow> r = Inl f"
  by (simp add: parse_fault_def split: sum.split)

lemma request_fault_bounds: "request_fault type body = Some f \<Longrightarrow> bounds_fault f"
  by (cases type) (auto dest: AuthRequest_fault TokenVerifyRequest_fault LogoutRequest_fault
      ChatSendRequest_fault FileUploadRequest_fault FileDownloadRequest_fault FriendRequest_fault
      FriendListRequest_fault DirectMessageRequest_fault HistoryRequest_fault ChatListRequest_fault)

lemma malformed_dispatch:
  assumes "request_fault type body = Some f"
  shows "dispatch E this type body S = (Inl f, S)"
  using assms
  by (cases type) (simp_all add: dispatch_def handle_register_def handle_login_def
      handle_token_verify_def handle_logout_def handler_defs prog_simps)

section \<open>The frame of \<^verbatim>\<open>handle_packet\<close>\<close>

definition cleared :: "nat \<Rightarrow> server \<Rightarrow> server" where
  "cleared this S = update_client this (\<lambda>c. c\<lparr>errorCode := clear (errorCode c)\<rparr>) S"

lemma cleared_simps [simp]:
  "database (cleared this S) = database S"
  "online_users (cleared this S) = online_users S"
  "next_client (cleared this S) = next_client S"
  "files (cleared this S) = files S"
  "rand_pos (cleared this S) = rand_pos S"
  "outbox (cleared this S) x = outbox S x"
  "clients (cleared this S) x = None \<longleftrightarrow> clients S x = None"
  by (simp_all add: cleared_def outbox_def split: option.split)

lemma getSession_cleared [simp]: "getSession l (cleared this S) = getSession l S"
  by (simp add: getSession_def lock_def split: option.split)

lemma plain_dispatch:
  "plain_handler type = Some h \<Longrightarrow>
    dispatch E this type body = bnd (h E this body) (\<lambda>response. ret (response, '''', False))"
  by (cases type) (simp_all add: dispatch_def)

text \<open>A request that needs no login afterwards is answered with one packet.\<close>

lemma handle_packet_plain:
  assumes "plain_handler type = Some h" and "h E this body (cleared this S) = (Inr reply, S')"
  shows "handle_packet E this type body S =
    (Inr (), if reply \<noteq> [] then answered this type reply S' else S')"
  using assms by (simp add: handle_packet_def plain_dispatch prog_simps cleared_def bnd_assoc)

lemma handle_packet_answer:
  assumes "plain_handler type = Some h" and "h E this body (cleared this S) = (Inr reply, S')"
    and "reply \<noteq> []"
  shows "handle_packet E this type body S = (Inr (), answered this type reply S')"
  using handle_packet_plain [OF assms(1,2)] assms(3) by simp

lemma handle_packet_plain_fault:
  assumes "plain_handler type = Some h" and "h E this body (cleared this S) = (Inl f, S')"
  shows "handle_packet E this type body S = (Inl f, S')"
  using assms by (simp add: handle_packet_def plain_dispatch prog_simps cleared_def bnd_assoc)

lemma handle_packet_malformed:
  assumes "request_fault type body = Some f"
  shows "handle_packet E this type body S = (Inl f, cleared this S)"
  using malformed_dispatch [OF assms] by (simp add: handle_packet_def prog_simps cleared_def)

lemma error_reply_nonempty [simp]: "error_reply type e \<noteq> []"
  by (cases type) (simp_all add: ChatResponse_serialize_def FileUploadResponse_serialize_def
      FileDownloadResponse_serialize_def FriendListResponse_serialize_def
      DirectMessageResponse_serialize_def HistoryResponse_serialize_def
      ChatListResponse_serialize_def TokenVerifyResponse_serialize_def AuthResponse_serialize_def
      FriendResponse_serialize_def serialize_def ser_error_def pack_ui32_def net_bytes_def)

text \<open>The clock was read once.\<close>

definition tick :: "server \<Rightarrow> server" where
  "tick S = S\<lparr>database := (database S)\<lparr>clock_pos := Suc (clock_pos (database S))\<rparr>\<rparr>"

lemma tick_simps [simp]:
  "database (tick S) = (database S)\<lparr>clock_pos := Suc (clock_pos (database S))\<rparr>"
  "online_users (tick S) = online_users S"
  "clients (tick S) = clients S"
  "next_client (tick S) = next_client S"
  "files (tick S) = files S"
  "rand_pos (tick S) = rand_pos S"
  "outbox (tick S) = outbox S"
  by (simp_all add: tick_def)

lemma clock_frame [simp]:
  "id_of_login (s\<lparr>clock_pos := n\<rparr>) l = id_of_login s l"
  "login_of_id (s\<lparr>clock_pos := n\<rparr>) i = login_of_id s i"
  "relation (s\<lparr>clock_pos := n\<rparr>) a b = relation s a b"
  "friendships_inv (s\<lparr>clock_pos := n\<rparr>) = friendships_inv s"
  "user_ids (s\<lparr>clock_pos := n\<rparr>) = user_ids s"
  "undelivered_rows i (s\<lparr>clock_pos := n\<rparr>) = undelivered_rows i s"
  "history_rows a b k (s\<lparr>clock_pos := n\<rparr>) = history_rows a b k s"
  by (simp_all add: id_of_login_def login_of_id_def relation_def friendships_inv_def user_ids_def
      undelivered_rows_def history_rows_def)

lemma authorised_run:
  "token_login E (database S) t = Some l \<Longrightarrow>
    on_db (getLoginByToken E t) S = (Inr (Inr l), tick S)"
  by (simp add: on_db_def getLoginByToken_Some tick_def)

lemma on_db_lookups:
  "on_db (userExists l) S = (Inr (if id_of_login (database S) l = None then NotFound else OK), S)"
  "on_db (getIdByLogin l) S =
    (Inr (case id_of_login (database S) l of None \<Rightarrow> Inl NotFound | Some i \<Rightarrow> Inr i), S)"
  "on_db (getLoginById i) S =
    (Inr (case login_of_id (database S) i of None \<Rightarrow> Inl NotFound | Some l \<Rightarrow> Inr l), S)"
  by (simp_all add: on_db_def prog_simps)

lemma on_db_areFriends:
  "friendships_inv (database S) \<Longrightarrow>
    on_db (areFriends a b) S = (Inr (if relation (database S) a b = Friends then OK else NotFriends), S)"
  by (simp add: on_db_def areFriends_run)

lemma getSession_frame [simp]:
  "getSession l (S\<lparr>database := d\<rparr>) = getSession l S"
  "getSession l (tick S) = getSession l S"
  by (simp_all add: getSession_def lock_def split: option.split)

lemma tick_database [simp]: "(tick S)\<lparr>database := d\<rparr> = S\<lparr>database := d\<rparr>"
  by (simp add: tick_def)

lemma id_of_login_user: "id_of_login s l = Some i \<Longrightarrow> i \<in> user_ids s"
  by (auto simp: id_of_login_def user_ids_def dest: user_by_login_Some)

section \<open>Direct messages\<close>

definition message_saved :: "env \<Rightarrow> int \<Rightarrow> int \<Rightarrow> string \<Rightarrow> store \<Rightarrow> store" where
  "message_saved E a b m s = s\<lparr>clock_pos := Suc (clock_pos s),
     direct_messages := direct_messages s @ [\<lparr>m_id = messages_seq s + 1, m_sender = a,
       m_recipient = b, m_create_at = clock E (clock_pos s), m_message = m, m_delivered = 0\<rparr>],
     messages_seq := messages_seq s + 1\<rparr>"

lemma saveMessage_run:
  "a \<in> user_ids s \<Longrightarrow> b \<in> user_ids s \<Longrightarrow> messages_seq s < max_rowid \<Longrightarrow>
    saveMessage E a b m s = (Inr (messages_seq s + 1), message_saved E a b m s)"
  by (simp add: saveMessage_def prog_simps insert_message_def message_saved_def user_ids_def)

lemma handle_direct_message_strangers:
  assumes "DirectMessageRequest_deserialize body = Inr req"
    and "token_login E (database S) (dmreq_token req) = Some l"
    and "id_of_login (database S) l = Some a"
    and "id_of_login (database S) (dmreq_recipient_login req) = Some b"
    and "friendships_inv (database S)" and "relation (database S) a b \<noteq> Friends"
  shows "handle_direct_message E this body S =
    (Inr (error_reply DIRECT_MESSAGE NotFriends), note_error this NotFriends (tick S))"
  using assms
  by (simp add: handle_direct_message_def prog_simps authorised_run on_db_lookups dm_error_def
      on_db_areFriends)

lemma handle_direct_message_friends:
  assumes "DirectMessageRequest_deserialize body = Inr req"
    and "token_login E (database S) (dmreq_token req) = Some l"
    and "id_of_login (database S) l = Some a"
    and "id_of_login (database S) (dmreq_recipient_login req) = Some b"
    and "friendships_inv (database S)" and "relation (database S) a b = Friends"
    and "messages_seq (database S) < max_rowid"
  shows "handle_direct_message E this body S =
    (Inr (DirectMessageResponse_serialize \<lparr>dmres_error = OK\<rparr>),
     (case getSession (dmreq_recipient_login req) S of None \<Rightarrow> id
      | Some s \<Rightarrow> send_to s DIRECT_MESSAGE (DirectMessageIncoming_serialize
          \<lparr>dmin_sender_login = l, dmin_message = dmreq_message req,
           dmin_timestamp = word_of_int (messages_seq (database S) + 1)\<rparr>))
     (S\<lparr>database := message_saved E a b (dmreq_message req) (database (tick S))\<rparr>))"
proof -
  have users: "a \<in> user_ids (database (tick S))" "b \<in> user_ids (database (tick S))"
    using id_of_login_user [OF assms(3)] id_of_login_user [OF assms(4)] by simp_all
  show ?thesis
    using assms saveMessage_run [OF users, of E "dmreq_message req"]
    by (cases "getSession (dmreq_recipient_login req) S")
      (simp_all add: handle_direct_message_def prog_simps authorised_run on_db_lookups
        on_db_areFriends on_db_run)
qed

section \<open>Friends\<close>

definition notified :: "string \<Rightarrow> packet_type \<Rightarrow> server \<Rightarrow> server" where
  "notified login type S =
     (case getSession login S of None \<Rightarrow> S | Some s \<Rightarrow> send_to s type [] S)"

lemma notify_run [prog_simps]: "notify login type [] S = (Inr (), notified login type S)"
  by (simp add: notify_def notified_def prog_simps split: option.split)

text \<open>The end of the three handlers, from the answer of the repository.\<close>

definition friend_outcome ::
  "nat \<Rightarrow> string \<Rightarrow> packet_type \<Rightarrow> error_code \<Rightarrow> server \<Rightarrow> (fault + bytes) \<times> server" where
  "friend_outcome this target type err S =
    (if ok err then (Inr (FriendResponse_serialize \<lparr>fres_error = OK\<rparr>), notified target type S)
     else (Inr (error_reply FRIEND_REQUEST err), note_error this err S))"

lemma handle_friend_runs:
  assumes "FriendRequest_deserialize body = Inr req"
    and "token_login E (database S) (freq_token req) = Some l"
    and "id_of_login (database S) l = Some a"
    and "id_of_login (database S) (freq_target_login req) = Some b"
  shows "sendRequest a b (database (tick S)) = (Inr err, s) \<Longrightarrow>
      handle_friend_request E this body S =
        friend_outcome this (freq_target_login req) FRIEND_NEW_REQUEST err (S\<lparr>database := s\<rparr>)"
    and "acceptRequest a b (database (tick S)) = (Inr err, s) \<Longrightarrow>
      handle_friend_accept E this body S =
        friend_outcome this (freq_target_login req) FRIEND_REQUEST_ACCEPTED err (S\<lparr>database := s\<rparr>)"
    and "rejectRequest a b (database (tick S)) = (Inr err, s) \<Longrightarrow>
      handle_friend_reject E this body S =
        friend_outcome this (freq_target_login req) FRIEND_REQUEST_REJECTED err (S\<lparr>database := s\<rparr>)"
  using assms
  by (simp_all add: handle_friend_request_def handle_friend_accept_def handle_friend_reject_def
      prog_simps authorised_run on_db_lookups on_db_run friend_error_def friend_outcome_def)

lemma handle_friend_no_target:
  assumes "FriendRequest_deserialize body = Inr req"
    and "token_login E (database S) (freq_token req) = Some l"
    and "id_of_login (database S) (freq_target_login req) = None"
    and "plain_handler type = Some h" and "type \<in> {FRIEND_REQUEST, FRIEND_ACCEPT, FRIEND_REJECT}"
  shows "h E this body S = (Inr (error_reply type NotFound), note_error this NotFound (tick S))"
  using assms
  by (auto simp: handle_friend_request_def handle_friend_accept_def handle_friend_reject_def
      prog_simps authorised_run on_db_lookups friend_error_def)

section \<open>Lists\<close>

lemma logins_of_run:
  "\<forall>i \<in> set ids. login_of_id (database S) i \<noteq> None \<Longrightarrow>
    logins_of ids S = (Inr (map (\<lambda>i. the (login_of_id (database S) i)) ids), S)"
  unfolding logins_of_def
  by (rule for_each_pure) (auto simp: prog_simps on_db_lookups)

lemma users_have_logins: "i \<in> user_ids s \<Longrightarrow> login_of_id s i \<noteq> None"
  using user_by_id_None [of i s] by (simp add: login_of_id_def)

section \<open>Delivery after an authentication\<close>

definition incoming_of :: "store \<Rightarrow> message_row \<Rightarrow> bytes" where
  "incoming_of s r = DirectMessageIncoming_serialize
     \<lparr>dmin_sender_login = the (login_of_id s (m_sender r)), dmin_message = getText (m_message r),
      dmin_timestamp = word_of_int (m_create_at r)\<rparr>"

definition send_dms :: "nat \<Rightarrow> bytes list \<Rightarrow> server \<Rightarrow> server" where
  "send_dms this = fold (send_to this DIRECT_MESSAGE)"

lemma send_dms_simps [simp]:
  "database (send_dms this bs S) = database S"
  "online_users (send_dms this bs S) = online_users S"
  "next_client (send_dms this bs S) = next_client S"
  "files (send_dms this bs S) = files S"
  "rand_pos (send_dms this bs S) = rand_pos S"
  "clients (send_dms this bs S) x = None \<longleftrightarrow> clients S x = None"
  by (induction bs arbitrary: S) (simp_all add: send_dms_def)

lemma outbox_send_dms:
  "clients S this \<noteq> None \<Longrightarrow> outbox (send_dms this bs S) x =
    (if x = this then outbox S x @ map (full_packet DIRECT_MESSAGE) bs else outbox S x)"
proof (induction bs arbitrary: S)
  case (Cons b bs)
  then show ?case by (simp add: send_dms_def outbox_send_to)
qed (simp add: send_dms_def)

lemma login_of_send_to [simp]: "login_of (send_to sid t b S) x = login_of S x"
  by (simp add: login_of_def split: option.split)

lemma login_of_send_dms [simp]: "login_of (send_dms this bs S) x = login_of S x"
  by (induction bs arbitrary: S) (simp_all add: send_dms_def)

lemma login_of_database [simp]: "login_of (S\<lparr>database := d\<rparr>) = login_of S"
  by (rule ext) (simp add: login_of_def)

text \<open>The loop over the undelivered messages.\<close>

definition deliver_one :: "nat \<Rightarrow> StoredMessage \<Rightarrow> int act" where
  "deliver_one this = (\<lambda>el.
     bnd (on_db (getLoginById (sm_sender el))) (\<lambda>sender_login.
     bnd (expected_value sender_login) (\<lambda>l.
     bnd (modify (send_to this DIRECT_MESSAGE (DirectMessageIncoming_serialize
            \<lparr>dmin_sender_login = l, dmin_message = sm_message el,
             dmin_timestamp = word_of_int (sm_timestamp el)\<rparr>))) (\<lambda>_.
     ret (sm_id el)))))"

lemma deliver_one_run:
  "login_of_id (database S) (m_sender r) \<noteq> None \<Longrightarrow> deliver_one this (stored_of r) S =
    (Inr (m_id r), send_to this DIRECT_MESSAGE (incoming_of (database S) r) S)"
  by (auto simp: deliver_one_def prog_simps on_db_lookups stored_of_def incoming_of_def)

lemma deliver_loop:
  "\<forall>r \<in> set rs. login_of_id (database S) (m_sender r) \<noteq> None \<Longrightarrow>
    for_each (map stored_of rs) (deliver_one this) S =
      (Inr (map m_id rs), send_dms this (map (incoming_of (database S)) rs) S)"
proof (induction rs arbitrary: S)
  case (Cons r rs)
  let ?S = "send_to this DIRECT_MESSAGE (incoming_of (database S) r) S"
  show ?case
    using Cons.prems Cons.IH [of ?S]
    by (simp add: prog_simps deliver_one_run send_dms_def)
qed (simp add: prog_simps send_dms_def)

lemma deliver_pending_run:
  assumes "store_inv (database S)" and "id_of_login (database S) (login_of S this) = Some i"
  defines "rs \<equiv> undelivered_rows i (database S)"
  shows "deliver_pending E this S =
    (let S1 = send_dms this (map (incoming_of (database S)) rs) S in
     if length rs > max_variables E
     then (Inl (SQLiteException ''too many SQL variables''), S1)
     else (Inr (), S1\<lparr>database := marked (map m_id rs) (database S)\<rparr>))"
proof -
  have get: "on_db (getIdByLogin (login_of S this)) S = (Inr (Inr i), S)"
    using assms(2) by (simp add: on_db_lookups)
  have pend: "on_db (getUndelivered i) S = (Inr (map stored_of rs), S)"
    by (simp add: on_db_def prog_simps rs_def)
  have senders: "\<forall>r \<in> set rs. login_of_id (database S) (m_sender r) \<noteq> None"
  proof
    fix r assume "r \<in> set rs"
    then have "m_sender r \<in> user_ids (database S)"
      using assms(1) by (simp add: rs_def undelivered_rows_def store_inv_def messages_inv_def)
    then show "login_of_id (database S) (m_sender r) \<noteq> None" by (rule users_have_logins)
  qed
  note loop = deliver_loop [OF senders, of this]
  show ?thesis
  proof (cases rs)
    case Nil
    then show ?thesis
      by (simp add: deliver_pending_def prog_simps get pend send_dms_def marked_def)
  next
    case (Cons r rs')
    have mark: "on_db (markDelivered E ids) S' =
      (if length ids > max_variables E then (Inl (SQLiteException ''too many SQL variables''), S')
       else (Inr (), S'\<lparr>database := marked ids (database S')\<rparr>))" for ids S'
      by (simp add: on_db_def markDelivered_run)
    show ?thesis
      using loop Cons unfolding deliver_pending_def deliver_one_def [symmetric]
      by (simp add: prog_simps get pend mark Let_def del: for_each.simps)
  qed
qed

section \<open>History, chat list, friend list\<close>

definition entry_of :: "store \<Rightarrow> message_row \<Rightarrow> HistoryEntry" where
  "entry_of s r = \<lparr>he_from_login = the (login_of_id s (m_sender r)),
     he_message = getText (m_message r), he_timestamp = word_of_int (m_create_at r)\<rparr>"

lemma on_db_reads:
  "on_db (getHistory a b n) S = (Inr (map (\<lambda>r. \<lparr>dm_id = m_id r, dm_sender = m_sender r,
     dm_recipient = m_recipient r, dm_timestamp = m_create_at r,
     dm_message = getText (m_message r), dm_delivered = (m_delivered r \<noteq> 0)\<rparr>)
     (history_rows a b n (database S))), S)"
  "on_db (getLastMessages a) S = (Inr (map (\<lambda>r. \<lparr>lm_peer_login =
       (case login_of_id (database S) (peer_of a r) of Some l \<Rightarrow> l | None \<Rightarrow> ''''),
       lm_message = getText (m_message r), lm_timestamp = m_create_at r\<rparr>)
     (last_rows a (database S))), S)"
  by (simp_all add: on_db_def getHistory_run getLastMessages_run)

lemma last_rows_clock [simp]: "last_rows a (s\<lparr>clock_pos := n\<rparr>) = last_rows a s"
  by (simp add: last_rows_def)

lemma handle_message_history_run:
  assumes "HistoryRequest_deserialize body = Inr req"
    and "token_login E (database S) (hreq_token req) = Some l"
    and "id_of_login (database S) l = Some a"
    and "id_of_login (database S) (hreq_peer_login req) = Some b"
    and inv: "store_inv (database S)"
  shows "handle_message_history E this body S =
    (Inr (HistoryResponse_serialize
      \<lparr>hres_messages = map (entry_of (database S)) (history_rows a b 100 (database S)),
       hres_error = OK\<rparr>), tick S)"
proof -
  let ?rows = "history_rows a b 100 (database S)"
  have sender: "login_of_id (database S) (m_sender r) \<noteq> None" if "r \<in> set ?rows" for r
    using history_rows_between [OF that] inv
    by (intro users_have_logins) (simp add: store_inv_def messages_inv_def)
  let ?ms = "map (\<lambda>r. \<lparr>dm_id = m_id r, dm_sender = m_sender r, dm_recipient = m_recipient r,
     dm_timestamp = m_create_at r, dm_message = getText (m_message r),
     dm_delivered = (m_delivered r \<noteq> 0)\<rparr>) ?rows"
  have loop: "for_each ?ms (\<lambda>m. bnd (on_db (getLoginById (dm_sender m))) (\<lambda>from_login.
       bnd (expected_value from_login) (\<lambda>l.
       ret \<lparr>he_from_login = l, he_message = dm_message m,
         he_timestamp = word_of_int (dm_timestamp m)\<rparr>))) (tick S)
     = (Inr (map (\<lambda>m. \<lparr>he_from_login = the (login_of_id (database S) (dm_sender m)),
         he_message = dm_message m, he_timestamp = word_of_int (dm_timestamp m)\<rparr>) ?ms), tick S)"
    by (rule for_each_pure) (auto simp: prog_simps on_db_lookups dest!: sender)
  have entries: "map (\<lambda>m. \<lparr>he_from_login = the (login_of_id (database S) (dm_sender m)),
      he_message = dm_message m, he_timestamp = word_of_int (dm_timestamp m)\<rparr>) ?ms
    = map (entry_of (database S)) ?rows"
    by (simp add: entry_of_def)
  show ?thesis
    using assms(1-4) loop unfolding entries
    by (simp add: handle_message_history_def prog_simps authorised_run on_db_lookups on_db_reads)
qed

lemma handle_message_history_no_peer:
  assumes "HistoryRequest_deserialize body = Inr req"
    and "token_login E (database S) (hreq_token req) = Some l"
    and "id_of_login (database S) l = Some a"
    and "id_of_login (database S) (hreq_peer_login req) = None"
  shows "handle_message_history E this body S = (Inl (BadExpectedAccess NotFound), tick S)"
  using assms
  by (simp add: handle_message_history_def prog_simps authorised_run on_db_lookups)

definition chat_entry_of :: "store \<Rightarrow> int \<Rightarrow> message_row \<Rightarrow> ChatListEntry" where
  "chat_entry_of s a r = \<lparr>cle_peer_login =
       (case login_of_id s (peer_of a r) of Some l \<Rightarrow> l | None \<Rightarrow> ''''),
     cle_message = getText (m_message r), cle_timestamp = word_of_int (m_create_at r)\<rparr>"

lemma handle_chat_list_run:
  assumes "ChatListRequest_deserialize body = Inr req"
    and "token_login E (database S) (clreq_token req) = Some l"
    and "id_of_login (database S) l = Some a"
  shows "handle_chat_list E this body S =
    (Inr (ChatListResponse_serialize
      \<lparr>clres_chats = map (chat_entry_of (database S) a) (last_rows a (database S)),
       clres_error = OK\<rparr>), note_error this OK (tick S))"
  using assms
  by (simp add: handle_chat_list_def prog_simps authorised_run on_db_lookups on_db_reads comp_def
      chat_entry_of_def [abs_def])

lemma handle_chat_list_undefined:
  assumes "ChatListRequest_deserialize body = Inr req"
    and "token_login E (database S) (clreq_token req) = Some l"
    and "id_of_login (database S) l = None"
  shows "handle_chat_list E this body S =
    (Inl (Undefined ''expected::error with a value''), tick S)"
  using assms
  by (simp add: handle_chat_list_def prog_simps authorised_run on_db_lookups)

lemma friend_ids:
  assumes "store_inv s" and "relation s a b \<noteq> Strangers"
  shows "a \<in> user_ids s" and "b \<in> user_ids s"
proof -
  from assms(2) obtain r where r: "r \<in> set (friendships s)" "of_pair (normalize a b) r"
    by (auto simp: relation_def split: option.splits dest: find_SomeD)
  then have "friendship_ok (user_ids s) r" using assms(1)
    by (simp add: store_inv_def friendships_inv_def)
  then show "a \<in> user_ids s" "b \<in> user_ids s" using r(2)
    by (auto simp: friendship_ok_def of_pair_def normalize_def split: if_splits)
qed

lemma handle_friend_list_run:
  assumes "FriendListRequest_deserialize body = Inr req"
    and "token_login E (database S) (flreq_token req) = Some l"
    and "id_of_login (database S) l = Some a" and inv: "store_inv (database S)"
  shows "\<exists>fs ps. handle_friend_list E this body S =
    (Inr (FriendListResponse_serialize
      \<lparr>flres_friends = map (\<lambda>i. the (login_of_id (database S) i)) fs,
       flres_pending_incoming = map (\<lambda>i. the (login_of_id (database S) i)) ps,
       flres_error = OK\<rparr>), tick S) \<and>
    set fs = {b. relation (database S) a b = Friends} \<and>
    set ps = {b. b \<noteq> a \<and> relation (database S) a b = Requested b}"
proof -
  have f: "friendships_inv (database (tick S))" using inv by (simp add: store_inv_def)
  obtain fs where fs: "getFriends a (database (tick S)) = (Inr fs, database (tick S))"
    "set fs = {b. relation (database S) a b = Friends}"
    using getFriends_set [OF f, of a] by auto
  obtain ps where ps: "getPendingIncoming a (database (tick S)) = (Inr ps, database (tick S))"
    "set ps = {b. b \<noteq> a \<and> relation (database S) a b = Requested b}"
    using getPendingIncoming_set [OF f, of a] by auto
  have "on_db (getFriends a) (tick S) = (Inr fs, tick S)"
    "on_db (getPendingIncoming a) (tick S) = (Inr ps, tick S)"
    using fs(1) ps(1) by (simp_all add: on_db_def tick_def)
  moreover have friend_has_login: "login_of_id (database S) i \<noteq> None"
    if "relation (database S) a i \<noteq> Strangers" for i
    using users_have_logins [OF friend_ids(2) [OF inv that]] .
  moreover have "\<forall>i \<in> set fs. login_of_id (database (tick S)) i \<noteq> None"
    using friend_has_login fs(2) by simp
  moreover have "\<forall>i \<in> set ps. login_of_id (database (tick S)) i \<noteq> None"
    using friend_has_login ps(2) by simp
  ultimately show ?thesis
    using assms(1-3) fs(2) ps(2)
    by (intro exI [of _ fs] exI [of _ ps] conjI)
      (simp_all add: handle_friend_list_def prog_simps authorised_run on_db_lookups logins_of_run)
qed

end
