(* ===== verification/Authentication.thy ===== *)
theory Authentication
  imports SessionBehaviour
begin

text \<open>
  \<^verbatim>\<open>handle_packet\<close> of \<^verbatim>\<open>include/client_session.hpp\<close> around the handlers: what an authentication
  does after its handler (login of the session, delivery, registry, answer), the general chat,
  the file handlers, and the requests that end the server.
\<close>

section \<open>After an authentication\<close>

definition entered :: "nat \<Rightarrow> string \<Rightarrow> server \<Rightarrow> server" where
  "entered this l S = update_client this (\<lambda>c. c\<lparr>current_login := l\<rparr>) S"

definition tokened :: "nat \<Rightarrow> string \<Rightarrow> server \<Rightarrow> server" where
  "tokened this t S = update_client this (\<lambda>c. c\<lparr>current_token := t\<rparr>) S"

lemma set_login_run [prog_simps]: "set_login this l S = (Inr (), entered this l S)"
  by (simp add: set_login_def entered_def prog_simps)

lemma set_token_run [prog_simps]: "set_token this t S = (Inr (), tokened this t S)"
  by (simp add: set_token_def tokened_def prog_simps)

lemma entered_simps [simp]:
  "database (entered this l S) = database S"
  "online_users (entered this l S) = online_users S"
  "files (entered this l S) = files S"
  "outbox (entered this l S) x = outbox S x"
  "clients (entered this l S) x = None \<longleftrightarrow> clients S x = None"
  by (simp_all add: entered_def outbox_def split: option.split)

lemma tokened_simps [simp]:
  "database (tokened this l S) = database S"
  "online_users (tokened this l S) = online_users S"
  "files (tokened this l S) = files S"
  "outbox (tokened this l S) x = outbox S x"
  "clients (tokened this l S) x = None \<longleftrightarrow> clients S x = None"
  by (simp_all add: tokened_def outbox_def split: option.split)

lemma login_of_entered: "clients S this \<noteq> None \<Longrightarrow> login_of (entered this l S) this = l"
  by (auto simp: login_of_def entered_def)

lemma outbox_addUser [simp]: "outbox (addUser l sid S) = outbox S"
  by (rule ext) (simp add: addUser_def outbox_def)

lemma database_addUser [simp]: "database (addUser l sid S) = database S"
  by (simp add: addUser_def)

lemma clients_addUser [simp]: "clients (addUser l sid S) = clients S"
  by (simp add: addUser_def)

lemma online_frame [simp]:
  "online (send_to sid t b S) = online S"
  "online (answered sid t b S) = online S"
  "online (S\<lparr>database := d\<rparr>) = online S"
  "online (send_dms sid bs S) = online S"
  "online (entered sid l S) = online S"
  by (rule ext, simp add: online_def)+

lemma handle_packet_cleared:
  "handle_packet E this type body S =
     bnd (dispatch E this type body) (\<lambda>(response, login, is_auth_success).
     bnd (if is_auth_success then
            bnd (set_login this login) (\<lambda>_.
            bnd (deliver_pending E this) (\<lambda>_.
            bnd (get_login this) (\<lambda>l.
            modify (addUser l this))))
          else ret ()) (\<lambda>_.
     if response \<noteq> [] then modify (answered this type response) else ret ())) (cleared this S)"
  unfolding handle_packet_def answer_modify by (simp add: prog_simps cleared_def)

lemma marked_simps [simp]:
  "users (marked ids s) = users s" "sessions (marked ids s) = sessions s"
  "friendships (marked ids s) = friendships s"
  by (simp_all add: marked_def)

text \<open>The state in which an authentication leaves the server.\<close>

definition authenticated :: "nat \<Rightarrow> packet_type \<Rightarrow> string \<Rightarrow> int \<Rightarrow> bytes \<Rightarrow> server \<Rightarrow> server" where
  "authenticated this type l i response S =
    (let rs = undelivered_rows i (database S);
         S1 = send_dms this (map (incoming_of (database S)) rs) (entered this l S)
     in answered this type response
          (addUser l this (S1\<lparr>database := marked (map m_id rs) (database S)\<rparr>)))"

lemma handle_packet_auth:
  assumes "dispatch E this type body (cleared this S) = (Inr (response, l, True), S1)"
    and "store_inv (database S1)" and "id_of_login (database S1) l = Some i"
    and "clients S1 this \<noteq> None" and "response \<noteq> []"
    and "length (undelivered_rows i (database S1)) \<le> max_variables E"
  shows "handle_packet E this type body S = (Inr (), authenticated this type l i response S1)"
proof -
  have l: "login_of (entered this l S1) this = l" using assms(4) by (rule login_of_entered)
  have "deliver_pending E this (entered this l S1) =
    (Inr (), (send_dms this (map (incoming_of (database S1)) (undelivered_rows i (database S1)))
        (entered this l S1))\<lparr>database :=
          marked (map m_id (undelivered_rows i (database S1))) (database S1)\<rparr>)"
    using deliver_pending_run [of "entered this l S1" this i E] assms(2,3,6) l by (simp add: Let_def)
  then show ?thesis
    using assms(1,5) l
    by (simp add: handle_packet_cleared prog_simps authenticated_def Let_def)
qed

lemma handle_packet_auth_overflow:
  assumes "dispatch E this type body (cleared this S) = (Inr (response, l, True), S1)"
    and "store_inv (database S1)" and "id_of_login (database S1) l = Some i"
    and "clients S1 this \<noteq> None"
    and "length (undelivered_rows i (database S1)) > max_variables E"
  shows "fst (handle_packet E this type body S) = Inl (SQLiteException ''too many SQL variables'')"
proof -
  have l: "login_of (entered this l S1) this = l" using assms(4) by (rule login_of_entered)
  have "fst (deliver_pending E this (entered this l S1)) =
      Inl (SQLiteException ''too many SQL variables'')"
    using deliver_pending_run [of "entered this l S1" this i E] assms(2,3,5) l by (simp add: Let_def)
  then obtain S2 where "deliver_pending E this (entered this l S1) =
      (Inl (SQLiteException ''too many SQL variables''), S2)"
    by (cases "deliver_pending E this (entered this l S1)") simp
  then show ?thesis
    using assms(1) by (simp add: handle_packet_cleared prog_simps)
qed

lemma authenticated_facts:
  assumes "clients S this \<noteq> None" and "messages_inv (database S)"
  shows "online (authenticated this type l i response S) l = Some this"
    and "k \<noteq> l \<Longrightarrow> online (authenticated this type l i response S) k = online S k"
    and "undelivered_rows i (database (authenticated this type l i response S)) = []"
    and "j \<noteq> i \<Longrightarrow> undelivered_rows j (database (authenticated this type l i response S))
      = undelivered_rows j (database S)"
    and "outbox (authenticated this type l i response S) this = outbox S this @
      map (\<lambda>r. full_packet DIRECT_MESSAGE (incoming_of (database S) r))
        (undelivered_rows i (database S)) @ [full_packet RESULT response]"
    and "x \<noteq> this \<Longrightarrow> outbox (authenticated this type l i response S) x = outbox S x"
    and "sessions (database (authenticated this type l i response S)) = sessions (database S)"
    and "users (database (authenticated this type l i response S)) = users (database S)"
  using assms
  by (simp_all add: authenticated_def Let_def users_online.lookup_add marked_all_delivered
      marked_others outbox_send_to outbox_send_dms comp_def)

section \<open>The three ways to authenticate\<close>

lemma undelivered_frame [simp]:
  "undelivered_rows i (with_session E s t u) = undelivered_rows i s"
  "undelivered_rows i (s\<lparr>sessions := x\<rparr>) = undelivered_rows i s"
  by (simp_all add: undelivered_rows_def with_session_def)

lemma with_session_simps [simp]:
  "users (with_session E s t u) = users s"
  "direct_messages (with_session E s t u) = direct_messages s"
  "friendships (with_session E s t u) = friendships s"
  "sessions (with_session E s t u) =
     sessions s @ [\<lparr>s_token = t, s_id = u, s_created_at = clock E (clock_pos s)\<rparr>]"
  "id_of_login (with_session E s t u) l = id_of_login s l"
  "login_of_id (with_session E s t u) i = login_of_id s i"
  by (simp_all add: with_session_def id_of_login_def login_of_id_def user_by_login_def user_by_id_def)

lemma store_inv_verifyUser:
  "store_inv s \<Longrightarrow> verifyUser E l p s = (r, s') \<Longrightarrow> store_inv s'"
  using preservesD [OF preserves_verifyUser, of s E l p] by simp

text \<open>\<^verbatim>\<open>handle_login\<close> with the right password.\<close>

lemma dispatch_login:
  assumes "AuthRequest_deserialize body = Inr req"
    and "password_ok E (database S) (areq_login req) (areq_password req)"
    and "id_of_login (database S) (areq_login req) = Some i"
    and "uuid E (uuid_pos (database S)) \<notin> s_token ` set (sessions (database S))"
  defines "t \<equiv> uuid E (uuid_pos (database S))"
  shows "dispatch E this LOGIN body S =
    (Inr (AuthResponse_serialize \<lparr>ares_token = t, ares_error = OK\<rparr>, areq_login req, True),
     note_error this OK (tokened this t (S\<lparr>database := with_session E (database S) t i\<rparr>)))"
  using assms
  by (simp add: dispatch_def handle_login_def prog_simps on_db_run [OF verifyUser_right])

lemma dispatch_login_wrong:
  assumes "AuthRequest_deserialize body = Inr req"
    and "\<not> password_ok E (database S) (areq_login req) (areq_password req)"
  shows "dispatch E this LOGIN body S =
    (Inr (error_reply LOGIN IncorrectCredentials, '''', False), note_error this IncorrectCredentials S)"
  using assms
  by (simp add: dispatch_def handle_login_def prog_simps on_db_run [OF verifyUser_wrong])

lemma dispatch_token_verify:
  assumes "TokenVerifyRequest_deserialize body = Inr req"
    and "token_login E (database S) (tvreq_old_token req) = Some l"
  shows "dispatch E this TOKEN_VERIFY body S =
    (Inr (TokenVerifyResponse_serialize \<lparr>tvres_error = OK\<rparr>, l, True),
     tokened this (tvreq_old_token req) (note_error this OK (tick S)))"
  using assms
  by (simp add: dispatch_def handle_token_verify_def prog_simps authorised_run)

lemma dispatch_token_verify_bad:
  assumes "TokenVerifyRequest_deserialize body = Inr req"
    and "getLoginByToken E (tvreq_old_token req) (database S) = (Inr (Inl e), s)"
  shows "dispatch E this TOKEN_VERIFY body S =
    (Inr (error_reply TOKEN_VERIFY e, '''', False), note_error this e (S\<lparr>database := s\<rparr>))"
  using assms
  by (simp add: dispatch_def handle_token_verify_def prog_simps on_db_run)

text \<open>\<^verbatim>\<open>handle_register\<close> of a free and of a taken login.\<close>

lemma dispatch_register_taken:
  assumes "AuthRequest_deserialize body = Inr req"
    and "id_of_login (database S) (areq_login req) \<noteq> None"
  shows "dispatch E this REGISTER body S =
    (Inr (error_reply REGISTER LoginExists, '''', False), note_error this LoginExists S)"
  using assms
  by (simp add: dispatch_def handle_register_def prog_simps on_db_run [OF registerUser_exists])

definition registered :: "env \<Rightarrow> string \<Rightarrow> string \<Rightarrow> store \<Rightarrow> store" where
  "registered E l p s = s\<lparr>uuid_pos := Suc (uuid_pos s),
      users := users s @ [\<lparr>u_id = users_seq s + 1, u_login = l, u_salt = uuid E (uuid_pos s),
        u_password = sha256 E (p @ uuid E (uuid_pos s))\<rparr>],
      users_seq := users_seq s + 1\<rparr>"

lemma registered_id:
  "id_of_login s l = None \<Longrightarrow> id_of_login (registered E l p s) l = Some (users_seq s + 1)"
  by (simp add: id_of_login_def registered_def user_by_login_def find_append)

lemma registered_password:
  "id_of_login s l = None \<Longrightarrow> nul_free (uuid E (uuid_pos s)) \<Longrightarrow> password_ok E (registered E l p s) l p"
  using sha256_no_nul [of E "p @ uuid E (uuid_pos s)"]
  by (simp add: password_ok_def id_of_login_def registered_def user_by_login_def find_append
      getText_def c_str_nul_free nul_free_def)

lemma dispatch_register:
  assumes "AuthRequest_deserialize body = Inr req"
    and "id_of_login (database S) (areq_login req) = None"
    and "users_seq (database S) < max_rowid"
    and "nul_free (uuid E (uuid_pos (database S)))"
    and "uuid E (Suc (uuid_pos (database S))) \<notin> s_token ` set (sessions (database S))"
  defines "t \<equiv> uuid E (Suc (uuid_pos (database S)))"
    and "s \<equiv> registered E (areq_login req) (areq_password req) (database S)"
  shows "dispatch E this REGISTER body S =
    (Inr (AuthResponse_serialize \<lparr>ares_token = t, ares_error = OK\<rparr>, areq_login req, True),
     note_error this OK (tokened this t (S\<lparr>database :=
       with_session E s t (users_seq (database S) + 1)\<rparr>)))"
proof -
  let ?l = "areq_login req" and ?p = "areq_password req"
  have reg: "on_db (registerUser E ?l ?p) S = (Inr OK, S\<lparr>database := s\<rparr>)"
    using registerUser_new [OF assms(2,3)] by (simp add: on_db_def s_def registered_def)
  have t: "t = uuid E (uuid_pos s)" and "sessions s = sessions (database S)"
    by (simp_all add: t_def s_def registered_def)
  then have "verifyUser E ?l ?p s = (Inr (Inr t), with_session E s t (users_seq (database S) + 1))"
    using verifyUser_right [of E s ?l ?p "users_seq (database S) + 1"] assms(2,4,5)
    by (simp add: s_def registered_id registered_password t_def)
  then have "on_db (verifyUser E ?l ?p) (S\<lparr>database := s\<rparr>) =
    (Inr (Inr t), S\<lparr>database := with_session E s t (users_seq (database S) + 1)\<rparr>)"
    by (simp add: on_db_def)
  then show ?thesis
    using reg assms(1) by (simp add: dispatch_def handle_register_def prog_simps)
qed

end
