(* ===== verification/Lasting.thy ===== *)
theory Lasting
  imports Authentication
begin

text \<open>
  Predicates of the database that last: what every operation of the repositories keeps, every
  handler of the server keeps.
\<close>

definition within :: "(store \<Rightarrow> bool) \<Rightarrow> server \<Rightarrow> bool" where
  "within K S \<longleftrightarrow> K (database S)"

lemma within_on_db [preserves_intros]:
  "preserves K m \<Longrightarrow> preserves (within K) (on_db m)"
  by (auto simp: preserves_def within_def on_db_def split: prod.splits)

lemma within_others [preserves_intros]:
  "preserves (within K) (on_files m)"
  "preserves (within K) (on_rand n)"
  "preserves (within K) (set_error sid e)"
  "preserves (within K) (set_token sid t)"
  "preserves (within K) (set_login sid l)"
  "preserves (within K) (get_login sid)"
  "preserves (within K) (modify (send_to sid ty b))"
  "preserves (within K) (modify (broadcast l ty b))"
  "preserves (within K) (modify (addUser l sid))"
  "preserves (within K) (modify (update_client sid f))"
  "preserves (within K) (notify l ty b)"
  "preserves (within K) (log_packet sid ty msg)"
  by (auto simp: preserves_def within_def on_files_def on_rand_def prog_simps broadcast_def
      notify_def bnd_def note_error_def split: prod.splits option.splits)

section \<open>All operations but the saving of a message\<close>

locale lasting =
  fixes K :: "store \<Rightarrow> bool"
  assumes users: "preserves K (registerUser E l p)" "preserves K (verifyUser E l p)"
      "preserves K (getLoginByToken E t)" "preserves K (logout t)"
    and friends: "preserves K (sendRequest a b)" "preserves K (acceptRequest a b)"
      "preserves K (rejectRequest a b)"
    and delivered: "preserves K (markDelivered E ids)"
begin

lemma handlers_keep:
  "preserves (within K) (handle_register E this body)"
  "preserves (within K) (handle_login E this body)"
  "preserves (within K) (handle_token_verify E this body)"
  "preserves (within K) (handle_logout this body)"
  "preserves (within K) (handle_message E this body)"
  "preserves (within K) (handle_upload E this body)"
  "preserves (within K) (handle_download E this body)"
  "preserves (within K) (handle_friend_request E this body)"
  "preserves (within K) (handle_friend_accept E this body)"
  "preserves (within K) (handle_friend_reject E this body)"
  "preserves (within K) (handle_friend_list E this body)"
  "preserves (within K) (handle_message_history E this body)"
  "preserves (within K) (handle_chat_list E this body)"
  "preserves (within K) (deliver_pending E this)"
  unfolding handle_register_def handle_login_def handle_token_verify_def handle_logout_def
    handler_defs logins_of_def deliver_pending_def
  by (intro preserves_intros users friends delivered)+

lemma plain_but_messages:
  "plain_handler type = Some h \<Longrightarrow> type \<noteq> DIRECT_MESSAGE \<Longrightarrow> preserves (within K) (h E this body)"
  by (cases type) (auto intro: handlers_keep)

lemma packet_from_plain:
  assumes "\<And>h. plain_handler type = Some h \<Longrightarrow> preserves (within K) (h E this body)"
  shows "preserves (within K) (handle_packet E this type body)"
  unfolding handle_packet_def dispatch_def case_prod_beta
  by (intro preserves_intros handlers_keep assms)

lemma packet_but_messages:
  "type \<noteq> DIRECT_MESSAGE \<Longrightarrow> preserves (within K) (handle_packet E this type body)"
  by (rule packet_from_plain) (rule plain_but_messages)

end

section \<open>All operations\<close>

locale lasting_always = lasting +
  assumes saved: "preserves K (saveMessage E a b m)"
    and cleaned: "preserves K (cleanExpiredTokens E)"
begin

lemma packet_keeps: "preserves (within K) (handle_packet E this type body)"
proof (rule packet_from_plain)
  fix h assume h: "plain_handler type = Some h"
  have "preserves (within K) (handle_direct_message E this body)"
    unfolding handler_defs by (intro preserves_intros users saved)
  with h show "preserves (within K) (h E this body)"
    using plain_but_messages [OF h] by (cases "type = DIRECT_MESSAGE") auto
qed

lemma step_keeps:
  assumes "within K S" and "server_step E e S = Some r"
  shows "within K (snd r)"
proof (cases e)
  case (Accept error)
  with assms show ?thesis by (auto simp: accept_handler_def prog_simps within_def)
next
  case (ReadComplete sid)
  have "preserves (within K) (read_handler E sid p rd)" for p rd
    unfolding read_handler_def by (intro preserves_intros packet_keeps)
  with ReadComplete assms show ?thesis
    by (auto simp: read_complete_def preserves_def prog_simps within_def
        split: option.splits if_splits)
next
  case (TimerFired error)
  have "preserves (within K) (timer_handler E error)"
    unfolding timer_handler_def schedule_def
    by (intro preserves_intros preserves_modify cleaned) (auto simp: within_def)
  with TimerFired assms show ?thesis by (auto simp: preserves_def split: if_splits)
qed (use assms in \<open>auto simp: arrive_def read_failed_def net_handler_def release_def destroy_session_def
    removeUser_def Let_def within_def split: if_splits option.splits sum.splits\<close>)

end

end
