(* ===== verification/MessageSafety.thy ===== *)
theory MessageSafety
  imports Lasting
begin

text \<open>
  Stored direct messages are safe: no request removes one or changes more of it than its
  delivered flag, and a new one appears only when an authorised user writes to a friend.
\<close>

section \<open>Programs that leave the stored messages alone\<close>

definition core :: "message_row \<Rightarrow> message_row" where
  "core r = r\<lparr>m_delivered := 0\<rparr>"

definition keeps_rows :: "message_row list \<Rightarrow> store \<Rightarrow> bool" where
  "keeps_rows c s \<longleftrightarrow> map core (direct_messages s) = c"

lemma map_core_marked [simp]:
  "map core (direct_messages (marked ids s)) = map core (direct_messages s)"
  by (simp add: marked_def comp_def core_def)

lemma preserves_keeps_rowsI:
  "(\<And>s. map core (direct_messages (snd (m s))) = map core (direct_messages s)) \<Longrightarrow>
    preserves (keeps_rows c) m"
  by (simp add: preserves_def keeps_rows_def)

lemma keeps_rows_table [preserves_intros]:
  "preserves (keeps_rows c) (system_now E)"
  "preserves (keeps_rows c) (draw_uuid E)"
  "preserves (keeps_rows c) (delete_session t)"
  "preserves (keeps_rows c) (insert_user l sa p)"
  "preserves (keeps_rows c) (insert_session t i k)"
  "preserves (keeps_rows c) (markDelivered E ids)"
  "preserves (keeps_rows c) (logout t)"
  by (rule preserves_keeps_rowsI,
      simp add: prog_simps delete_session_def insert_user_def insert_session_def
        markDelivered_run)+

lemma keeps_rows_friends [preserves_intros]:
  "preserves (keeps_rows c) (sendRequest a b)"
  "preserves (keeps_rows c) (acceptRequest a b)"
  "preserves (keeps_rows c) (rejectRequest a b)"
  by (rule preserves_keeps_rowsI,
      (auto simp: prog_simps sendRequest_def acceptRequest_def rejectRequest_def Let_def bnd_def
        insert_friendship_def split: prod.splits sum.splits option.splits)[1])+

lemma keeps_rows_users [preserves_intros]:
  "preserves (keeps_rows c) (registerUser E l p)"
  "preserves (keeps_rows c) (verifyUser E l p)"
  "preserves (keeps_rows c) (getLoginByToken E t)"
  unfolding registerUser_def generateSalt_def verifyUser_def verifyPassword_def Let_def
    getLoginByToken_def
  by (intro preserves_intros)+

interpretation rows: lasting "keeps_rows c" for c
  by unfold_locales (intro preserves_intros)+

section \<open>Direct messages\<close>

lemma handle_direct_message_no_sender:
  assumes "DirectMessageRequest_deserialize body = Inr req"
    and "token_login E (database S) (dmreq_token req) = Some l"
    and "id_of_login (database S) l = None \<or>
      id_of_login (database S) (dmreq_recipient_login req) = None"
  shows "database (snd (handle_direct_message E this body S)) = database (tick S)"
  using assms
  by (auto simp: handle_direct_message_def prog_simps authorised_run on_db_lookups dm_error_def
      split: option.splits)

lemma handle_direct_message_full:
  assumes "DirectMessageRequest_deserialize body = Inr req"
    and "token_login E (database S) (dmreq_token req) = Some l"
    and a: "id_of_login (database S) l = Some a"
    and b: "id_of_login (database S) (dmreq_recipient_login req) = Some b"
    and "friendships_inv (database S)" and "relation (database S) a b = Friends"
    and full: "\<not> messages_seq (database S) < max_rowid"
  shows "direct_messages (database (snd (handle_direct_message E this body S))) =
    direct_messages (database S)"
proof -
  have "\<exists>f. saveMessage E a b m (database (tick S)) =
      (Inl f, (database (tick S))\<lparr>clock_pos := Suc (clock_pos (database (tick S)))\<rparr>)" for m
    using full id_of_login_user [OF a] id_of_login_user [OF b]
    by (simp add: saveMessage_def prog_simps insert_message_def user_ids_def)
  then obtain f where "saveMessage E a b (dmreq_message req) (database (tick S)) =
      (Inl f, (database (tick S))\<lparr>clock_pos := Suc (clock_pos (database (tick S)))\<rparr>)" by blast
  then show ?thesis using assms
    by (simp add: handle_direct_message_def prog_simps authorised_run on_db_lookups
        on_db_areFriends on_db_run)
qed

lemma handle_packet_database:
  assumes "plain_handler type = Some h"
  shows "database (snd (handle_packet E this type body S)) =
    database (snd (h E this body (cleared this S)))"
proof -
  obtain r S' where run: "h E this body (cleared this S) = (r, S')" by force
  then show ?thesis
    using handle_packet_plain [OF assms, of E this body S _ S']
      handle_packet_plain_fault [OF assms, of E this body S _ S']
    by (cases r) auto
qed

lemma relation_cleared: "relation (database (cleared this S)) = relation (database S)"
  by simp

lemma direct_message_rows:
  assumes inv: "store_inv (database S)"
    and S': "S' = snd (handle_packet E this DIRECT_MESSAGE body S)"
  shows "map core (direct_messages (database S')) = map core (direct_messages (database S)) \<or>
    (\<exists>req l a b r. DirectMessageRequest_deserialize body = Inr req \<and>
       token_login E (database S) (dmreq_token req) = Some l \<and>
       id_of_login (database S) l = Some a \<and>
       id_of_login (database S) (dmreq_recipient_login req) = Some b \<and>
       relation (database S) a b = Friends \<and>
       direct_messages (database S') = direct_messages (database S) @ [r] \<and>
       m_sender r = a \<and> m_recipient r = b \<and> m_message r = dmreq_message req \<and> m_delivered r = 0)"
    (is "?same \<or> ?new")
proof -
  let ?C = "cleared this S"
  have db: "database S' = database (snd (handle_direct_message E this body ?C))"
    using handle_packet_database [of DIRECT_MESSAGE handle_direct_message] S' by simp
  have fr: "friendships_inv (database S)" using inv by (simp add: store_inv_def)
  show ?thesis
  proof (cases "DirectMessageRequest_deserialize body")
    case (Inl f)
    then show ?thesis using db by (simp add: handle_direct_message_def prog_simps)
  next
    case (Inr req)
    show ?thesis
    proof (cases "token_login E (database S) (dmreq_token req)")
      case None
      then obtain e s where "getLoginByToken E (dmreq_token req) (database ?C) = (Inr (Inl e), s)"
        "direct_messages s = direct_messages (database S)"
        using getLoginByToken_None [OF None] by auto
      then have ?same using db Inr
        by (simp add: handle_direct_message_def prog_simps on_db_run dm_error_def)
      then show ?thesis ..
    next
      case l: (Some l)
      then have l': "token_login E (database ?C) (dmreq_token req) = Some l" by simp
      show ?thesis
      proof (cases "id_of_login (database S) l = None \<or>
          id_of_login (database S) (dmreq_recipient_login req) = None")
        case True
        then have ?same
          using handle_direct_message_no_sender [OF Inr l', of this] db by simp
        then show ?thesis ..
      next
        case False
        then obtain a b where a: "id_of_login (database S) l = Some a"
          and b: "id_of_login (database S) (dmreq_recipient_login req) = Some b" by auto
        show ?thesis
        proof (cases "relation (database S) a b = Friends")
          case False
          then have ?same
            using handle_direct_message_strangers [OF Inr l', of a b this] a b fr db by simp
          then show ?thesis ..
        next
          case rel: True
          show ?thesis
            using handle_direct_message_friends [of body req E ?C l a b this]
              handle_direct_message_full [of body req E ?C l a b this] Inr l l' a b fr rel db
            by (cases "messages_seq (database S) < max_rowid")
              (auto simp: message_saved_def split: option.splits)
        qed
      qed
    qed
  qed
qed

end
