(* ===== verification/DefinedBehaviour.thy ===== *)
theory DefinedBehaviour
  imports MessageSafety
begin

text \<open>
  Where the code could run into undefined behaviour, and why it does not: the uninitialised id
  of \<^verbatim>\<open>verifyUser\<close>, the \<^verbatim>\<open>error()\<close> of an \<^verbatim>\<open>std::expected\<close> that holds a value, the buffers of
  the cipher, the queue of a session. What is left is the chat list of a user whose login has
  a zero byte.
\<close>

fun is_undefined :: "fault + 'a \<Rightarrow> bool" where
  "is_undefined (Inl (Undefined w)) \<longleftrightarrow> True"
| "is_undefined _ \<longleftrightarrow> False"

definition defined :: "(fault, 's, 'a) prog \<Rightarrow> bool" where
  "defined m \<longleftrightarrow> (\<forall>s. \<not> is_undefined (fst (m s)))"

named_theorems defined_intros "rules that show that a program never runs into undefined behaviour"

lemma definedI: "(\<And>s. \<not> is_undefined (fst (m s))) \<Longrightarrow> defined m"
  by (simp add: defined_def)

lemma defined_basic [defined_intros]:
  "defined (ret x)" "defined (gets f)" "defined (modify g)"
  "defined (throw (RuntimeError w))" "defined (throw (InvalidArgument w))"
  "defined (throw (BadExpectedAccess e))" "defined (throw (SQLiteException w))"
  "defined (throw (FilesystemError w))"
  by (simp_all add: defined_def prog_simps)

lemma defined_bnd [defined_intros]:
  assumes "defined m" and "\<And>x. defined (f x)"
  shows "defined (bnd m f)"
proof (rule definedI)
  fix s
  obtain r s' where run: "m s = (r, s')" by force
  with assms(1) have "\<not> is_undefined r" unfolding defined_def by (metis fst_conv)
  with run assms(2) show "\<not> is_undefined (fst (bnd m f s))"
    by (cases r) (auto simp: bnd_def defined_def elim: is_undefined.elims)
qed

lemma defined_if [defined_intros]:
  "(b \<Longrightarrow> defined m) \<Longrightarrow> (\<not> b \<Longrightarrow> defined n) \<Longrightarrow> defined (if b then m else n)"
  by simp

lemma defined_case_sum [defined_intros]:
  "(\<And>e. r = Inl e \<Longrightarrow> defined (f e)) \<Longrightarrow> (\<And>x. r = Inr x \<Longrightarrow> defined (g x)) \<Longrightarrow>
    defined (case r of Inl e \<Rightarrow> f e | Inr x \<Rightarrow> g x)"
  by (simp split: sum.split)

lemma defined_case_option [defined_intros]:
  "(r = None \<Longrightarrow> defined f) \<Longrightarrow> (\<And>x. r = Some x \<Longrightarrow> defined (g x)) \<Longrightarrow>
    defined (case r of None \<Rightarrow> f | Some x \<Rightarrow> g x)"
  by (simp split: option.split)

lemma defined_for_each [defined_intros]:
  "(\<And>x. x \<in> set xs \<Longrightarrow> defined (f x)) \<Longrightarrow> defined (for_each xs f)"
  by (induction xs) (auto intro!: defined_intros)

lemma defined_expected_value [defined_intros]: "defined (expected_value r)"
  by (cases r) (simp_all add: defined_intros)

section \<open>Repositories\<close>

lemma defined_tables [defined_intros]:
  "defined (system_now E)" "defined (draw_uuid E)" "defined (delete_session t)"
  "defined (insert_user l sa p)" "defined (insert_session t i k)"
  "defined (insert_message a b c m d)" "defined (insert_friendship a b st i)"
  by (simp_all add: defined_def prog_simps delete_session_def insert_user_def insert_session_def
      insert_message_def insert_friendship_def)

lemma defined_friends [defined_intros]:
  "defined (sendRequest a b)" "defined (acceptRequest a b)" "defined (rejectRequest a b)"
  "defined (getFriends a)" "defined (getPendingIncoming a)" "defined (areFriends a b)"
  unfolding sendRequest_def acceptRequest_def rejectRequest_def getFriends_def
    getPendingIncoming_def areFriends_def Let_def
  by (intro defined_intros)+

lemma defined_messages [defined_intros]:
  "defined (saveMessage E a b m)" "defined (getUndelivered a)" "defined (markDelivered E ids)"
  "defined (getLastMessages a)" "defined (getHistory a b n)"
  unfolding saveMessage_def getUndelivered_def markDelivered_def getHistory_def
  by (intro defined_intros | simp add: defined_def getLastMessages_run)+

lemma defined_users [defined_intros]:
  "defined (registerUser E l p)" "defined (getLoginByToken E t)" "defined (userExists l)"
  "defined (getIdByLogin l)" "defined (getLoginById i)" "defined (logout t)"
  "defined (cleanExpiredTokens E)"
  unfolding registerUser_def generateSalt_def Let_def getLoginByToken_def userExists_def
    getIdByLogin_def getLoginById_def logout_def cleanExpiredTokens_def
  by (intro defined_intros)+

text \<open>The user that was found for the password is found again for the id.\<close>

lemma defined_verifyUser [defined_intros]: "defined (verifyUser E l p)"
proof (rule definedI)
  fix s
  show "\<not> is_undefined (fst (verifyUser E l p s))"
  proof (cases "password_ok E s l p")
    case False
    then show ?thesis by (simp add: verifyUser_wrong)
  next
    case True
    then obtain r where r: "user_by_login l s = Some r"
      and pw: "sha256 E (p @ getText (u_salt r)) = getText (u_password r)"
      by (auto simp: password_ok_def)
    have "defined (bnd (insert_session t i n) (\<lambda>_. ret (Inr t)) :: string expected db)" for t i n
      by (intro defined_intros)
    then have "\<not> is_undefined (fst ((bnd (insert_session t i n) (\<lambda>_. ret (Inr t)) :: string expected db) s'))"
      for t i n s'
      unfolding defined_def by blast
    then show ?thesis
      using r pw by (simp add: verifyUser_def prog_simps)
  qed
qed

section \<open>Files and cipher\<close>

text \<open>
  What the two calls write together, for any data of fewer than \<open>2 ^ 31\<close> bytes: at most one
  block more when encrypting, no more than the input when decrypting.
\<close>

definition evp_bounds :: "env \<Rightarrow> bool" where
  "evp_bounds E \<longleftrightarrow> (\<forall>key iv d o1 o2.
     (EVP_EncryptUpdate E key iv d = Some o1 \<and> EVP_EncryptFinal E key iv d = Some o2 \<longrightarrow>
        length o1 + length o2 \<le> length d + 16) \<and>
     (EVP_DecryptUpdate E key iv d = Some o1 \<and> EVP_DecryptFinal E key iv d = Some o2 \<longrightarrow>
        length o1 + length o2 \<le> length d))"

lemma defined_encrypt [defined_intros]:
  assumes "evp_bounds E"
  shows "defined (encryptAES E pt key)"
proof -
  have len: "length (take n pt) \<le> length pt" for n by simp
  have "\<not> length o1 + length o2 > length pt + 16"
    if "EVP_EncryptUpdate E key iv (take n pt) = Some o1"
      "EVP_EncryptFinal E key iv (take n pt) = Some o2" for iv n o1 o2
    using assms that len [of n] unfolding evp_bounds_def
    by (meson add_le_mono1 leD le_trans)
  then show ?thesis
    unfolding encryptAES_def Let_def
    by (intro defined_intros) (simp_all add: defined_def ret_def)
qed

lemma decrypt_defined:
  assumes "evp_bounds E"
  shows "\<not> is_undefined (decryptAES E ct key)"
proof -
  have "\<not> length o1 + length o2 > length (drop 16 ct)"
    if "EVP_DecryptUpdate E key iv (take n (drop 16 ct)) = Some o1"
      "EVP_DecryptFinal E key iv (take n (drop 16 ct)) = Some o2" for iv n o1 o2
  proof -
    have "length o1 + length o2 \<le> length (take n (drop 16 ct))"
      using assms that unfolding evp_bounds_def by blast
    then show ?thesis by simp
  qed
  then show ?thesis by (auto simp: decryptAES_def Let_def split: option.split)
qed

lemma defined_files [defined_intros]:
  "defined (fileToBytes E f)" "defined (bytesToFile E f bs)"
  by (auto simp: fileToBytes_def bytesToFile_def Let_def intro!: defined_intros)

section \<open>Handlers\<close>

lemma defined_lifts [defined_intros]:
  "defined m \<Longrightarrow> defined (on_db m)"
  "defined n \<Longrightarrow> defined (on_files n)"
  "defined k \<Longrightarrow> defined (on_rand k)"
  by (auto simp: defined_def on_db_def on_files_def on_rand_def split: prod.split) (metis fst_conv)+

lemma defined_lift_res: "\<not> is_undefined r \<Longrightarrow> defined (lift_res r)"
  by (simp add: defined_def prog_simps)

lemma requests_defined [defined_intros]:
  "defined (lift_res (AuthRequest_deserialize b))"
  "defined (lift_res (TokenVerifyRequest_deserialize b))"
  "defined (lift_res (LogoutRequest_deserialize b))"
  "defined (lift_res (ChatSendRequest_deserialize b))"
  "defined (lift_res (FileUploadRequest_deserialize b))"
  "defined (lift_res (FileDownloadRequest_deserialize b))"
  "defined (lift_res (FriendRequest_deserialize b))"
  "defined (lift_res (FriendListRequest_deserialize b))"
  "defined (lift_res (DirectMessageRequest_deserialize b))"
  "defined (lift_res (HistoryRequest_deserialize b))"
  "defined (lift_res (ChatListRequest_deserialize b))"
  by (rule defined_lift_res, (blast elim: is_undefined.elims dest: bounds_fault_runtime AuthRequest_fault
      TokenVerifyRequest_fault LogoutRequest_fault ChatSendRequest_fault FileUploadRequest_fault
      FileDownloadRequest_fault FriendRequest_fault FriendListRequest_fault
      DirectMessageRequest_fault HistoryRequest_fault ChatListRequest_fault)[1])+

lemma defined_setters [defined_intros]:
  "defined (set_error sid e)" "defined (set_token sid t)" "defined (set_login sid l)"
  "defined (get_login sid)" "defined (notify l ty b)"
  by (auto simp: set_error_def set_token_def set_login_def get_login_def notify_def
      intro!: defined_intros)

lemma defined_log [defined_intros]: "defined (log_packet this type msg)"
  by (simp add: defined_def prog_simps)

lemma defined_auth [defined_intros]:
  "defined (handle_register E this body)" "defined (handle_login E this body)"
  "defined (handle_token_verify E this body)" "defined (handle_logout this body)"
  unfolding handle_register_def handle_login_def handle_token_verify_def handle_logout_def
  by (intro defined_intros)+

lemma defined_plain [defined_intros]:
  "defined (handle_message E this body)"
  "evp_bounds E \<Longrightarrow> defined (handle_upload E this body)"
  "evp_bounds E \<Longrightarrow> defined (handle_download E this body)"
  "defined (handle_friend_list E this body)" "defined (handle_message_history E this body)"
  "defined (handle_direct_message E this body)" "defined (deliver_pending E this)"
  unfolding handle_message_def handle_upload_def handle_download_def handle_friend_list_def
    logins_of_def handle_message_history_def handle_direct_message_def dm_error_def
    deliver_pending_def
  by (intro defined_intros defined_lift_res decrypt_defined; assumption)+

text \<open>
  The friend handlers read the error of an id only when it is missing: the target's login was
  found just before, so its id is there.
\<close>

lemma friend_ids_defined:
  assumes "\<And>a b. defined (k a b)"
  shows "defined (bnd (on_db (userExists l)) (\<lambda>err.
     if \<not> ok err then friend_error this err
     else
     bnd (on_db (getIdByLogin login)) (\<lambda>x.
     bnd (on_db (getIdByLogin l)) (\<lambda>y.
     if \<not> (has_value x \<and> has_value y) then
       bnd (expected_error x) (\<lambda>first.
       bnd (if ok first then expected_error y else expected_error x) (friend_error this))
     else
     bnd (expected_value x) (\<lambda>a. bnd (expected_value y) (\<lambda>b. k a b))))))"
proof (rule definedI)
  fix S
  have err: "\<not> is_undefined (fst (friend_error this e S))" for e
    by (simp add: friend_error_def prog_simps set_error_def)
  have k: "\<not> is_undefined (fst (k a b S))" for a b
    using assms by (simp add: defined_def)
  show "\<not> is_undefined (fst (bnd (on_db (userExists l)) (\<lambda>err.
     if \<not> ok err then friend_error this err
     else
     bnd (on_db (getIdByLogin login)) (\<lambda>x.
     bnd (on_db (getIdByLogin l)) (\<lambda>y.
     if \<not> (has_value x \<and> has_value y) then
       bnd (expected_error x) (\<lambda>first.
       bnd (if ok first then expected_error y else expected_error x) (friend_error this))
     else
     bnd (expected_value x) (\<lambda>a. bnd (expected_value y) (\<lambda>b. k a b))))) S))"
    using err k
    by (cases "id_of_login (database S) l"; cases "id_of_login (database S) login")
      (simp_all add: prog_simps on_db_lookups)
qed

lemma defined_friend_error [defined_intros]: "defined (friend_error this e)"
  unfolding friend_error_def by (intro defined_intros)

lemma defined_friend_handlers [defined_intros]:
  "defined (handle_friend_request E this body)" "defined (handle_friend_accept E this body)"
  "defined (handle_friend_reject E this body)"
  unfolding handle_friend_request_def handle_friend_accept_def handle_friend_reject_def
  by (intro defined_bnd defined_case_sum requests_defined defined_lifts defined_users
      defined_friend_error friend_ids_defined defined_if defined_friends defined_setters
      defined_basic)+

text \<open>The id of a user that a token stands for is there when no login has a zero byte.\<close>

lemma chat_list_defined:
  assumes "users_inv (database S)" and "clean_logins (database S)"
  shows "\<not> is_undefined (fst (handle_chat_list E this body S))"
proof (cases "ChatListRequest_deserialize body")
  case (Inl f)
  then show ?thesis using bounds_fault_runtime [OF ChatListRequest_fault [OF Inl]]
    by (auto simp: handle_chat_list_def prog_simps)
next
  case (Inr req)
  show ?thesis
  proof (cases "token_login E (database S) (clreq_token req)")
    case None
    then obtain e s where "getLoginByToken E (clreq_token req) (database S) = (Inr (Inl e), s)"
      using getLoginByToken_None [OF None] by blast
    then show ?thesis using Inr by (simp add: handle_chat_list_def prog_simps on_db_run)
  next
    case (Some l)
    then obtain i where "login_of_id (database S) i = Some l"
      by (auto simp: token_login_def split: option.splits if_splits)
    then have "id_of_login (database S) l = Some i"
      using directory.inverse [of "database S" l i] assms by simp
    then show ?thesis using handle_chat_list_run [OF Inr Some] by simp
  qed
qed

lemma handle_packet_defined:
  assumes "evp_bounds E" and "users_inv (database S)" and "clean_logins (database S)"
  shows "\<not> is_undefined (fst (handle_packet E this type body S))"
proof (cases "type = CHAT_LIST")
  case True
  obtain r S' where run: "handle_chat_list E this body (cleared this S) = (r, S')" by force
  with chat_list_defined [of "cleared this S" E this body] assms(2,3)
  have r: "\<not> is_undefined r" by simp
  show ?thesis
  proof (cases r)
    case (Inl f)
    with run r show ?thesis
      using handle_packet_plain_fault [of CHAT_LIST handle_chat_list E this body S f S'] True
      by (cases f) auto
  next
    case (Inr reply)
    with run show ?thesis
      using handle_packet_plain [of CHAT_LIST handle_chat_list E this body S reply S'] True by simp
  qed
next
  case False
  then have plain: "defined (h E this body)" if "plain_handler type = Some h" for h
    using that assms(1) by (cases type) (auto intro: defined_intros)
  have "defined (handle_packet E this type body)"
    unfolding handle_packet_def dispatch_def case_prod_beta
    by (intro defined_intros plain)
  then show ?thesis by (simp add: defined_def)
qed

lemma server_step_defined:
  assumes "evp_bounds E" and "server_inv S" and "clean_logins (database S)"
    and "server_step E e S = Some r"
  shows "\<not> is_undefined (fst r)"
proof (cases e)
  case (ReadComplete sid)
  have inv: "users_inv (database S)" using assms(2) by (simp add: server_inv_def store_inv_def)
  have "\<not> is_undefined (fst (read_handler E sid packet rd S))" for packet rd
  proof -
    obtain q S' where "handle_packet E sid (fst packet) (snd packet) S = (q, S')" by force
    with handle_packet_defined [OF assms(1) inv assms(3), of sid "fst packet" "snd packet"]
    show ?thesis
      by (cases q) (auto simp: read_handler_def prog_simps elim: is_undefined.elims)
  qed
  then show ?thesis using assms(4) ReadComplete
    by (auto simp: read_complete_def prog_simps split: option.splits if_splits)
next
  case (TimerFired error)
  then show ?thesis using assms(4)
    by (auto simp: timer_handler_def prog_simps on_db_def cleaner_run schedule_def split: if_splits)
qed (use assms(4) server_inv_net_handler(2) [OF assms(2)] server_inv_read_failed(2) [OF assms(2)]
    in \<open>auto simp: accept_handler_def prog_simps release_def
      split: if_splits option.splits dest!: server_inv_net_handler(2) [OF assms(2)]
        server_inv_read_failed(2) [OF assms(2)]\<close>)

end
