(* ===== verification/Demo.thy ===== *)
theory Demo
  imports DefinedBehaviour
begin

text \<open>
  A concrete environment and a small concrete server, on which the witnesses of the properties
  are evaluated. The libraries are replaced by simple functions that keep their contracts.
\<close>

definition demo_env :: env where
  "demo_env = \<lparr>clock = (\<lambda>k. 1000 + int k), uuid = (\<lambda>k. ''u'' @ replicate k CHR ''x''),
     SHA256 = (\<lambda>m. take 32 (m @ replicate 32 0)),
     RAND_bytes = (\<lambda>k n. Some (replicate n (of_nat k))),
     EVP_CTX_new = True,
     EVP_EncryptInit = (\<lambda>key iv. True), EVP_EncryptUpdate = (\<lambda>key iv pt. Some pt),
     EVP_EncryptFinal = (\<lambda>key iv pt. Some [1]),
     EVP_DecryptInit = (\<lambda>key iv. True), EVP_DecryptUpdate = (\<lambda>key iv ct. Some (butlast ct)),
     EVP_DecryptFinal = (\<lambda>key iv ct. Some []),
     max_variables = 2, can_write = (\<lambda>f. f \<noteq> ''''), can_read = (\<lambda>f. f \<noteq> '''')\<rparr>"

lemma demo_contracts:
  "sha_contract demo_env" "rand_contract demo_env" "evp_contract demo_env"
  by (simp_all add: sha_contract_def rand_contract_def evp_contract_def demo_env_def min_def)

lemma demo_env_sel [simp]:
  "clock demo_env k = 1000 + int k" "uuid demo_env k = ''u'' @ replicate k CHR ''x''"
  "RAND_bytes demo_env k n = Some (replicate n (of_nat k))" "max_variables demo_env = 2"
  "can_write demo_env f \<longleftrightarrow> f \<noteq> ''''" "can_read demo_env f \<longleftrightarrow> f \<noteq> ''''"
  by (simp_all add: demo_env_def)

text \<open>Alice and Bob are friends, Carol has asked Bob, Bob has one message from Alice to read.\<close>

definition demo_user :: "int \<Rightarrow> string \<Rightarrow> user_row" where
  "demo_user i l = \<lparr>u_id = i, u_login = l, u_salt = ''s'',
     u_password = sha256 demo_env (''pw'' @ ''s'')\<rparr>"

definition demo_store :: store where
  "demo_store = \<lparr>
     users = [demo_user 1 ''alice'', demo_user 2 ''bob'', demo_user 3 ''carol''],
     friendships =
       [\<lparr>f_id = 1, f_user1 = 1, f_user2 = 2, f_status = ''accepted'', f_initiator = 1\<rparr>,
        \<lparr>f_id = 2, f_user1 = 2, f_user2 = 3, f_status = ''pending'', f_initiator = 3\<rparr>],
     direct_messages = [\<lparr>m_id = 1, m_sender = 1, m_recipient = 2, m_create_at = 950,
       m_message = ''hi'', m_delivered = 0\<rparr>],
     sessions = [\<lparr>s_token = ''ta'', s_id = 1, s_created_at = 900\<rparr>,
       \<lparr>s_token = ''tb'', s_id = 2, s_created_at = 901\<rparr>,
       \<lparr>s_token = ''old'', s_id = 2, s_created_at = - 604800\<rparr>],
     users_seq = 3, friendships_seq = 2, messages_seq = 1, clock_pos = 0, uuid_pos = 0\<rparr>"

lemma demo_store_sel [simp]:
  "users demo_store = [demo_user 1 ''alice'', demo_user 2 ''bob'', demo_user 3 ''carol'']"
  "clock_pos demo_store = 0" "uuid_pos demo_store = 0"
  "users_seq demo_store = 3" "friendships_seq demo_store = 2" "messages_seq demo_store = 1"
  by (simp_all add: demo_store_def)

lemma demo_user_sel [simp]:
  "u_id (demo_user i l) = i" "u_login (demo_user i l) = l" "u_salt (demo_user i l) = ''s''"
  "u_password (demo_user i l) = sha256 demo_env (''pw'' @ ''s'')"
  by (simp_all add: demo_user_def)

lemma demo_users: "user_ids demo_store = {1, 2, 3}"
  by (auto simp: user_ids_def)

lemma demo_inv: "store_inv demo_store"
proof -
  have "users_inv demo_store"
    by (simp add: users_inv_def ids_ok_def max_rowid_def)
  moreover have "friendships_inv demo_store"
    by (simp add: friendships_inv_def demo_users)
      (simp add: demo_store_def ids_ok_def max_rowid_def friendship_ok_def)
  moreover have "messages_inv demo_store"
    by (simp add: messages_inv_def demo_users) (simp add: demo_store_def ids_ok_def max_rowid_def)
  moreover have "sessions_inv demo_store"
    by (simp add: sessions_inv_def demo_users) (simp add: demo_store_def)
  ultimately show ?thesis by (simp add: store_inv_def)
qed

lemma demo_ids:
  "id_of_login demo_store ''alice'' = Some 1" "id_of_login demo_store ''bob'' = Some 2"
  "id_of_login demo_store ''carol'' = Some 3" "id_of_login demo_store ''dave'' = None"
  by (simp_all add: id_of_login_def user_by_login_def)

lemma demo_logins:
  "login_of_id demo_store 1 = Some ''alice''" "login_of_id demo_store 2 = Some ''bob''"
  "login_of_id demo_store 3 = Some ''carol''"
  by (simp_all add: login_of_id_def user_by_id_def getText_def c_str_def)

lemma demo_tokens:
  "token_login demo_env demo_store ''ta'' = Some ''alice''"
  "token_login demo_env demo_store ''tb'' = Some ''bob''"
  "token_login demo_env demo_store ''old'' = None"
  "token_login demo_env demo_store ''no'' = None"
  using demo_logins
  by (simp_all add: token_login_def session_by_token_def demo_store_def TOKEN_TTL_def)

lemma demo_relations:
  "relation demo_store 1 2 = Friends" "relation demo_store 2 1 = Friends"
  "relation demo_store 2 3 = Requested 3" "relation demo_store 1 3 = Strangers"
  by (simp_all add: relation_def demo_store_def normalize_def of_pair_def relation_of_row_def)

lemma demo_undelivered:
  "undelivered_rows 2 demo_store = direct_messages demo_store" "undelivered_rows 1 demo_store = []"
  by (simp_all add: undelivered_rows_def demo_store_def)

lemma demo_password: "password_ok demo_env demo_store ''bob'' ''pw''"
proof -
  have salt: "getText ''s'' = ''s''" by (simp add: getText_def c_str_def)
  have "nul_free (sha256 demo_env (''pw'' @ ''s''))" using sha256_no_nul by (simp add: nul_free_def)
  then have "getText (sha256 demo_env (''pw'' @ ''s'')) = sha256 demo_env (''pw'' @ ''s'')"
    by (simp add: getText_def)
  then show ?thesis
    by (simp add: password_ok_def user_by_login_def salt)
qed

text \<open>Two sessions: number 0 is Alice's, number 1 is Bob's, both online.\<close>

definition demo_server :: server where
  "demo_server = \<lparr>database = demo_store, online_users = [(''alice'', 0), (''bob'', 1)],
     clients = [0 \<mapsto> new_client\<lparr>current_login := ''alice''\<rparr>, 1 \<mapsto> new_client\<lparr>current_login := ''bob''\<rparr>],
     next_client = 2, files = Map.empty, rand_pos = 0, timer_armed = True,
     console = []\<rparr>"

lemma demo_server_sel [simp]:
  "database demo_server = demo_store" "online_users demo_server = [(''alice'', 0), (''bob'', 1)]"
  "clients demo_server 0 \<noteq> None" "clients demo_server 1 \<noteq> None"
  "clients demo_server (Suc 0) \<noteq> None"
  "files demo_server = Map.empty" "next_client demo_server = 2" "rand_pos demo_server = 0"
  by (simp_all add: demo_server_def)

lemma demo_sessions:
  "getSession ''alice'' demo_server = Some 0" "getSession ''bob'' demo_server = Some 1"
  "getSession ''carol'' demo_server = None"
  by (simp_all add: getSession_def lock_def)

lemma demo_server_inv: "server_inv demo_server"
proof -
  have "online_inv demo_server" by (simp add: online_inv_def logins_def)
  moreover have "clients_inv demo_server"
    by (auto simp: clients_inv_def demo_server_def new_client_def new_net_inv split: if_splits)
  ultimately show ?thesis by (simp add: server_inv_def demo_inv)
qed

end
