(* ===== verification/ComponentProperties.thy ===== *)
theory ComponentProperties
  imports Demo
begin

text \<open>
  The properties of the single components: byte order and message formats, framing and the
  sending queue, cryptography, error codes, tokens, passwords and friendships.
\<close>

section \<open>Formats\<close>

text \<open>A 32-bit number sent by a host of either byte order is read as the same number by a
  host of either byte order, and it travels as its big-endian bytes.\<close>

theorem byte_order_independent:
  "ntohl h' (u32_of_mem h' (mem_of_u32 h (htonl h w))) = w \<and> mem_of_u32 h (htonl h w) = net_bytes w"
proof -
  have "mem_of_u32 h (htonl h w) = net_bytes w" by (rule mem_htonl)
  moreover have "ntohl h' (u32_of_mem h' (net_bytes w)) = net_u32 (net_bytes w)"
    by (rule ntohl_mem) simp
  ultimately show ?thesis by simp
qed

text \<open>C30: A request body is accepted exactly when it is the serialisation of a well-formed
  request followed by anything, and then it is read as that request.\<close>

theorem requests_accepted_exactly:
  "(AuthRequest_deserialize body = Inr r1 \<longleftrightarrow>
      AuthRequest_wf r1 \<and> (\<exists>junk. body = AuthRequest_serialize r1 @ junk)) \<and>
   (TokenVerifyRequest_deserialize body = Inr r2 \<longleftrightarrow>
      TokenVerifyRequest_wf r2 \<and> (\<exists>junk. body = TokenVerifyRequest_serialize r2 @ junk)) \<and>
   (LogoutRequest_deserialize body = Inr r3 \<longleftrightarrow>
      LogoutRequest_wf r3 \<and> (\<exists>junk. body = LogoutRequest_serialize r3 @ junk)) \<and>
   (ChatSendRequest_deserialize body = Inr r4 \<longleftrightarrow>
      ChatSendRequest_wf r4 \<and> (\<exists>junk. body = ChatSendRequest_serialize r4 @ junk)) \<and>
   (FileUploadRequest_deserialize body = Inr r5 \<longleftrightarrow>
      FileUploadRequest_wf r5 \<and> (\<exists>junk. body = FileUploadRequest_serialize r5 @ junk)) \<and>
   (FileDownloadRequest_deserialize body = Inr r6 \<longleftrightarrow>
      FileDownloadRequest_wf r6 \<and> (\<exists>junk. body = FileDownloadRequest_serialize r6 @ junk)) \<and>
   (FriendRequest_deserialize body = Inr r7 \<longleftrightarrow>
      FriendRequest_wf r7 \<and> (\<exists>junk. body = FriendRequest_serialize r7 @ junk)) \<and>
   (FriendListRequest_deserialize body = Inr r8 \<longleftrightarrow>
      FriendListRequest_wf r8 \<and> (\<exists>junk. body = FriendListRequest_serialize r8 @ junk)) \<and>
   (DirectMessageRequest_deserialize body = Inr r9 \<longleftrightarrow>
      DirectMessageRequest_wf r9 \<and> (\<exists>junk. body = DirectMessageRequest_serialize r9 @ junk)) \<and>
   (HistoryRequest_deserialize body = Inr r10 \<longleftrightarrow>
      HistoryRequest_wf r10 \<and> (\<exists>junk. body = HistoryRequest_serialize r10 @ junk)) \<and>
   (ChatListRequest_deserialize body = Inr r11 \<longleftrightarrow>
      ChatListRequest_wf r11 \<and> (\<exists>junk. body = ChatListRequest_serialize r11 @ junk))"
  by (intro conjI AuthRequest_accepts TokenVerifyRequest_accepts LogoutRequest_accepts
      ChatSendRequest_accepts FileUploadRequest_accepts FileDownloadRequest_accepts
      FriendRequest_accepts FriendListRequest_accepts DirectMessageRequest_accepts
      HistoryRequest_accepts ChatListRequest_accepts)



text \<open>What the server sends is read back by the client as it was: pushed messages,
  histories with all their entries, chat lists, friend lists and downloaded files.\<close>

theorem answers_round_trip:
  "(DirectMessageIncoming_wf d \<longrightarrow> DirectMessageIncoming_deserialize (DirectMessageIncoming_serialize d) = Inr d) \<and>
   (HistoryResponse_wf h \<longrightarrow> HistoryResponse_deserialize (HistoryResponse_serialize h) = Inr h) \<and>
   (ChatListResponse_wf c \<longrightarrow> ChatListResponse_deserialize (ChatListResponse_serialize c) = Inr c) \<and>
   (FriendListResponse_wf f \<longrightarrow> FriendListResponse_deserialize (FriendListResponse_serialize f) = Inr f) \<and>
   (FileDownloadResponse_wf b \<longrightarrow> FileDownloadResponse_deserialize (FileDownloadResponse_serialize b) = Inr b)"
  using DirectMessageIncoming_roundtrip [of d "[]"] HistoryResponse_roundtrip [of h "[]"]
    ChatListResponse_roundtrip [of c "[]"] FriendListResponse_roundtrip [of f "[]"]
    FileDownloadResponse_roundtrip [of b "[]"]
  by simp

theorem answers_round_trip_witness:
  "HistoryResponse_deserialize (HistoryResponse_serialize \<lparr>hres_messages =
      [\<lparr>he_from_login = ''bob'', he_message = ''hi'', he_timestamp = - 5\<rparr>], hres_error = OK\<rparr>) =
    Inr \<lparr>hres_messages = [\<lparr>he_from_login = ''bob'', he_message = ''hi'', he_timestamp = - 5\<rparr>],
      hres_error = OK\<rparr>"
proof -
  let ?h = "\<lparr>hres_messages = [\<lparr>he_from_login = ''bob'', he_message = ''hi'', he_timestamp = - 5\<rparr>],
      hres_error = OK\<rparr>"
  have "HistoryResponse_wf ?h"
    by (simp add: HistoryResponse_wf_def HistoryEntry_wf_def wf_vector_def wf_string_def fits32_def
        HistoryEntry_serialize_def serialize_def ser_string_def ser_i64_def pack_append pack_i64_append
        enc_bytes_def)
  then show ?thesis using answers_round_trip [of _ ?h] by blast
qed

section \<open>Transport\<close>

text \<open>C23: However the network cuts the byte stream into pieces, a session hands on exactly the
  packets that the peer sent, in their order, and waits for the next header.\<close>

theorem frames_survive_segmentation:
  assumes "list_all sendable ps" and "concat cs = concat (map (\<lambda>(t, b). full_packet t b) ps)"
  shows "receive_chunks cs start_reader = (ps, start_reader)"
  using assms by (rule receive_frames_any_chunks)

theorem frames_survive_segmentation_witness:
  "receive_chunks (map (\<lambda>b. [b]) (full_packet LOGIN [7] @ full_packet LOGOUT [])) start_reader =
    ([(LOGIN, [7]), (LOGOUT, [])], start_reader)"
proof -
  have "concat (map (\<lambda>b. [b]) bs) = bs" for bs :: bytes by (induction bs) simp_all
  then show ?thesis
    using frames_survive_segmentation [of "[(LOGIN, [7]), (LOGOUT, [])]"
        "map (\<lambda>b. [b]) (full_packet LOGIN [7] @ full_packet LOGOUT [])"]
    by (simp add: sendable_def fits32_def del: map_append)
qed

text \<open>C32: The blocking receiver gets back what the blocking sender sent when the body has at most
  ten megabytes; it refuses a longer one by its header, before reading it.\<close>

theorem blocking_transfer:
  assumes "proper_type t" and "fits32 (length body)" and "sock_write_error s = None"
    and "sock_in r = sock_out (snd (send_packet_sync t body s)) @ rest" and "sock_out s = []"
  shows "recv_packet_sync r =
    (if length body \<le> 10485760 then (Inr (t, body), r\<lparr>sock_in := rest\<rparr>)
     else (Inl (RuntimeError ''packet too large''), r\<lparr>sock_in := body @ rest\<rparr>))"
proof -
  have inp: "sock_in r = full_packet t body @ rest"
    using assms(3-5) by (simp add: send_packet_sync_def prog_simps)
  show ?thesis
  proof (cases "length body \<le> 10485760")
    case True
    then show ?thesis using recv_sends [OF assms(1) True inp] by simp
  next
    case False
    then show ?thesis
      using recv_after_header [of "net_bytes (u32_of_packet_type t) @ net_bytes (of_nat (length body))"
          r "body @ rest"] inp assms(2)
      by (simp add: full_packet_def)
  qed
qed

theorem blocking_transfer_witness:
  "recv_packet_sync \<lparr>sock_in = sock_out (snd (send_packet_sync LOGIN [1, 2]
      \<lparr>sock_in = [], sock_out = [], sock_write_error = None\<rparr>)) @ [9], sock_out = [],
      sock_write_error = None\<rparr> =
    (Inr (LOGIN, [1, 2]), \<lparr>sock_in = [9], sock_out = [], sock_write_error = None\<rparr>)"
  using blocking_transfer [of LOGIN "[1, 2]" "\<lparr>sock_in = [], sock_out = [], sock_write_error = None\<rparr>"
      "\<lparr>sock_in = sock_out (snd (send_packet_sync LOGIN [1, 2]
        \<lparr>sock_in = [], sock_out = [], sock_write_error = None\<rparr>)) @ [9], sock_out = [],
        sock_write_error = None\<rparr>" "[9]"]
  by (simp add: fits32_def)

text \<open>C24: Whatever the order of sends, posted closures and completions, the queue is never read
  or popped when empty, at most one write is outstanding, and the packets written so far are a
  prefix of the packets sent.\<close>

theorem sends_are_written_in_order:
  assumes "net_run es new_net = Some r"
  shows "\<exists>n. r = Inr n \<and> length (in_flight n) \<le> 1 \<and>
    wire n @ write_queue n @ posted n = sent_packets es"
proof -
  obtain n where "r = Inr n" "net_inv n" "accepted n = accepted new_net @ sent_packets es"
    using net_run_inv [OF new_net_inv assms] by blast
  then show ?thesis by (auto simp: net_inv_def accepted_def new_net_def)
qed

theorem sends_are_written_in_order_witness:
  "\<exists>n. net_run [Send LOGIN [], RunPosted, Send LOGOUT [], WriteDone False, RunPosted] new_net =
     Some (Inr n) \<and> wire n = [full_packet LOGIN []] \<and> length (in_flight n) \<le> 1"
proof -
  obtain n where run: "net_run [Send LOGIN [], RunPosted, Send LOGOUT [], WriteDone False, RunPosted]
      new_net = Some (Inr n)" and wire: "wire n = [full_packet LOGIN []]"
    by (simp add: new_net_def send_packet_def run_posted_def do_write_def write_done_def Let_def)
  show ?thesis using sends_are_written_in_order [OF run] run wire by auto
qed

text \<open>Nothing stays behind: from any state a session can reach while its socket is open,
  running the posted closures and completing the writes puts every packet sent on the wire.\<close>

theorem every_packet_gets_written:
  assumes "net_run es new_net = Some (Inr n)" and "sock_open n"
  shows "\<exists>n'. net_run (replicate (length (posted n)) RunPosted @
      replicate (length (write_queue n @ posted n)) (WriteDone False)) n = Some (Inr n') \<and>
    wire n' = sent_packets es"
proof -
  have inv: "net_inv n" and acc: "wire n @ write_queue n @ posted n = sent_packets es"
    using net_run_inv [OF new_net_inv assms(1)] by (auto simp: accepted_def new_net_def)
  obtain m where m: "net_run (replicate (length (posted n)) RunPosted) n = Some (Inr m)"
    "net_inv m" "sock_open m" "wire m = wire n" "write_queue m = write_queue n @ posted n"
    using run_posted_all [OF inv assms(2)] by blast
  obtain n' where "net_run (replicate (length (write_queue m)) (WriteDone False)) m = Some (Inr n')"
    "wire n' = wire m @ write_queue m"
    using write_all [OF m(2,3)] by blast
  then show ?thesis using m acc by (auto simp: net_run_append)
qed

theorem every_packet_gets_written_witness:
  "\<exists>n n'. net_run [Send LOGIN [], Send LOGOUT [1]] new_net = Some (Inr n) \<and>
     net_run [RunPosted, RunPosted, WriteDone False, WriteDone False] n = Some (Inr n') \<and>
     wire n' = [full_packet LOGIN [], full_packet LOGOUT [1]]"
proof -
  obtain n where run: "net_run [Send LOGIN [], Send LOGOUT [1]] new_net = Some (Inr n)"
    and n: "sock_open n" "length (posted n) = 2" "write_queue n = []"
    by (simp add: new_net_def send_packet_def)
  from every_packet_gets_written [OF run n(1)] run n show ?thesis
    by (simp add: numeral_2_eq_2)
qed

section \<open>Cryptography and codes\<close>

text \<open>Decryption under the same key undoes encryption, for every input short enough for the
  length argument of the library.\<close>

theorem decryption_undoes_encryption:
  assumes "evp_contract E" and "rand_contract E" and "length key = 32"
    and "RAND_bytes E k 16 = Some iv" and "length pt + 16 < 2 ^ 31"
  shows "\<exists>ct. encryptAES E pt key k = (Inr ct, Suc k) \<and> decryptAES E ct key = Inr pt"
  using assms by (rule decrypt_encrypt)

theorem decryption_undoes_encryption_witness:
  "\<exists>ct. encryptAES demo_env [1, 2, 3] SERVER_KEY 5 = (Inr ct, 6) \<and>
     decryptAES demo_env ct SERVER_KEY = Inr [1, 2, 3]"
  using decryption_undoes_encryption [OF demo_contracts(3,2), of SERVER_KEY 5 "replicate 16 5" "[1, 2, 3]"]
  by (simp add: SERVER_KEY_def)

text \<open>A password digest is a text of 64 characters without zero bytes, so the database gives
  it back whole, and two digests are equal exactly when the hashes are.\<close>

theorem digests_are_faithful:
  assumes "sha_contract E"
  shows "length (sha256 E m) = 64 \<and> getText (sha256 E m) = sha256 E m \<and>
    (sha256 E m = sha256 E n \<longleftrightarrow> SHA256 E (stringToBytes m) = SHA256 E (stringToBytes n))"
  using sha256_length [OF assms] sha256_no_nul [of E m] sha256_eq_iff [OF assms]
  by (simp add: getText_def nul_free_def)

theorem digests_are_faithful_witness: "length (sha256 demo_env ''pw'') = 64"
  using digests_are_faithful [OF demo_contracts(1), of "''pw''" "''''"] by simp

text \<open>Every declared error code has a text of its own for the user, and no declared error
  passes for success.\<close>

theorem error_texts_are_distinct:
  "distinct (map codeErrorText declared_codes) \<and> length (filter ok declared_codes) = 1"
  by (rule conjI [OF distinct_codeErrorText]) (simp add: declared_codes_def ok_iff code_defs)

section \<open>Tokens, passwords, friendships\<close>

lemma tokens_differ: "NonAuthorized \<noteq> TokenExpired"
  by (simp add: code_defs)

lemma find_without_token: "find (\<lambda>r. s_token r = t') (filter (\<lambda>r. s_token r \<noteq> t) rs) =
    (if t' = t then None else find (\<lambda>r. s_token r = t') rs)"
  by (induction rs) auto

text \<open>A token check says who the token belongs to while it is at most seven days old; an
  older token is refused and deleted, an unknown one is refused; other tokens are not touched.\<close>

theorem token_check:
  assumes "store_inv s"
  shows "\<exists>answer s'. getLoginByToken E t s = (Inr answer, s') \<and>
    answer = (case session_by_token t s of
        None \<Rightarrow> Inl NonAuthorized
      | Some r \<Rightarrow> if clock E (clock_pos s) - s_created_at r > TOKEN_TTL then Inl TokenExpired
          else Inr (the (login_of_id s (s_id r)))) \<and>
    (\<forall>t'. session_by_token t' s' =
      (if t' = t \<and> answer = Inl TokenExpired then None else session_by_token t' s))"
proof (cases "session_by_token t s")
  case None
  then show ?thesis by (simp add: token_unknown)
next
  case (Some r)
  show ?thesis
  proof (cases "clock E (clock_pos s) - s_created_at r > TOKEN_TTL")
    case True
    have "session_by_token t' (s\<lparr>sessions := filter (\<lambda>r. s_token r \<noteq> t) (sessions s), clock_pos := n\<rparr>) =
        (if t' = t then None else session_by_token t' s)" for t' n
      by (simp add: session_by_token_def find_without_token)
    then show ?thesis using token_expired [OF Some True] True Some by simp
  next
    case False
    have "s_id r \<in> user_ids s"
      using session_by_token_Some [OF Some] assms by (auto simp: store_inv_def sessions_inv_def)
    then obtain l where "login_of_id s (s_id r) = Some l" using users_have_logins by blast
    then show ?thesis using token_live [OF Some] False Some by simp
  qed
qed

theorem token_check_witness:
  "\<exists>s'. getLoginByToken demo_env ''old'' demo_store = (Inr (Inl TokenExpired), s') \<and>
     session_by_token ''old'' s' = None"
proof -
  have "session_by_token ''old'' demo_store =
      Some \<lparr>s_token = ''old'', s_id = 2, s_created_at = - 604800\<rparr>"
    by (simp add: session_by_token_def demo_store_def)
  then show ?thesis
    using token_check [OF demo_inv, of demo_env "''old''"] by (auto simp: TOKEN_TTL_def)
qed

text \<open>The cleaner removes exactly the sessions that a token check at the same time would call
  expired, and nothing else from the database.\<close>

theorem cleaner_removes_the_expired:
  "\<exists>s'. cleanExpiredTokens E s = (Inr (), s') \<and>
    sessions s' = filter (\<lambda>r. clock E (clock_pos s) \<le> s_created_at r + 7 * 24 * 60 * 60) (sessions s) \<and>
    users s' = users s \<and> friendships s' = friendships s \<and> direct_messages s' = direct_messages s"
  by (auto simp: cleaner_run TOKEN_TTL_def algebra_simps intro!: filter_cong)

text \<open>After a registration exactly those passwords verify whose salted hash is the one of the
  password given; another user's password verifies as before.\<close>

theorem registered_password_verifies:
  assumes "sha_contract E" and "nul_free (uuid E (uuid_pos s))"
    and "id_of_login s l = None" and "users_seq s < max_rowid"
  shows "\<exists>s'. registerUser E l p s = (Inr OK, s') \<and>
    (\<forall>q. fst (verifyPassword E l q s') = Inr (SHA256 E (stringToBytes (q @ uuid E (uuid_pos s))) =
       SHA256 E (stringToBytes (p @ uuid E (uuid_pos s))))) \<and>
    (\<forall>l' q. l' \<noteq> l \<longrightarrow> fst (verifyPassword E l' q s') = fst (verifyPassword E l' q s))"
proof -
  let ?s = "registered E l p s"
  have run: "registerUser E l p s = (Inr OK, ?s)"
    using registerUser_new [OF assms(3,4)] by (simp add: registered_def)
  have none: "find (\<lambda>r. u_login r = l) (users s) = None"
    using assms(3) by (simp add: id_of_login_def user_by_login_def)
  have digest: "getText (sha256 E m) = sha256 E m" for m
    using sha256_no_nul [of E m] by (simp add: getText_def nul_free_def)
  have "fst (verifyPassword E l q ?s) = Inr (SHA256 E (stringToBytes (q @ uuid E (uuid_pos s))) =
       SHA256 E (stringToBytes (p @ uuid E (uuid_pos s))))" for q
    using none assms(2) sha256_eq_iff [OF assms(1)]
    by (simp add: verifyPassword_run registered_def user_by_login_def find_append digest)
      (simp add: getText_def)
  moreover have "fst (verifyPassword E l' q ?s) = fst (verifyPassword E l' q s)" if "l' \<noteq> l" for l' q
    using that
    by (simp add: verifyPassword_run registered_def user_by_login_def find_append split: option.split)
  ultimately show ?thesis using run by blast
qed

theorem registered_password_verifies_witness:
  "\<exists>s'. registerUser demo_env ''dave'' ''pw'' demo_store = (Inr OK, s') \<and>
     fst (verifyPassword demo_env ''dave'' ''pw'' s') = Inr True"
  using registered_password_verifies [OF demo_contracts(1), of demo_store "''dave''" "''pw''"]
  by (auto simp: demo_ids max_rowid_def nul_free_def)

text \<open>The three operations of the friendship table implement the specification of a
  friendship: from nothing to a request to friends or back, with the answer for every case, and
  without touching any other pair of users.\<close>

theorem friendship_operations_refine:
  assumes "store_inv s" and "a \<noteq> b" and "a \<in> user_ids s" and "b \<in> user_ids s"
    and "friendships_seq s < max_rowid"
    and "(op, spec) \<in> {(sendRequest, request_spec), (acceptRequest, accept_spec),
      (rejectRequest, reject_spec)}"
  shows "\<exists>s'. op a b s = (Inr (fst (spec a (relation s a b))), s') \<and> store_inv s' \<and>
    changes_only a b (snd (spec a (relation s a b))) s s'"
proof -
  have inv: "friendships_inv s" using assms(1) by (simp add: store_inv_def)
  have "preserves store_inv (op a b)" using assms(6) by (auto intro: preserves_intros)
  moreover have "\<exists>s'. op a b s = (Inr (fst (spec a (relation s a b))), s') \<and>
      changes_only a b (snd (spec a (relation s a b))) s s'"
    using assms(6) sendRequest_refines [OF inv assms(2-5)] acceptRequest_refines [OF inv]
      rejectRequest_refines [OF inv] by auto
  ultimately show ?thesis using preservesD [of store_inv "op a b" s] assms(1) by auto
qed

theorem friendship_operations_refine_witness:
  "\<exists>s'. acceptRequest 2 3 demo_store = (Inr OK, s') \<and> changes_only 2 3 Friends demo_store s'"
  using friendship_operations_refine [OF demo_inv, of 2 3 acceptRequest accept_spec]
  by (auto simp: demo_users demo_relations max_rowid_def)

text \<open>Marking the messages that were delivered to one user leaves nothing undelivered for
  that user and everything that waits for the others.\<close>

theorem delivery_marks_one_user:
  assumes "messages_inv s" and "length (undelivered_rows a s) \<le> max_variables E"
  shows "\<exists>s'. markDelivered E (map m_id (undelivered_rows a s)) s = (Inr (), s') \<and>
    undelivered_rows a s' = [] \<and> (\<forall>b. b \<noteq> a \<longrightarrow> undelivered_rows b s' = undelivered_rows b s)"
  using assms by (simp add: markDelivered_run marked_all_delivered marked_others)

theorem delivery_marks_one_user_witness:
  "\<exists>s'. markDelivered demo_env (map m_id (undelivered_rows 2 demo_store)) demo_store = (Inr (), s') \<and>
     undelivered_rows 2 s' = []"
  using delivery_marks_one_user [of demo_store 2 demo_env] demo_inv
  by (auto simp: store_inv_def demo_undelivered) (auto simp: demo_store_def)

end
