(* ===== verification/Answers.thy ===== *)
theory Answers
  imports SessionBehaviour
begin

text \<open>
  What a session of the server sends: every request that is served is answered by exactly one
  \<^verbatim>\<open>RESULT\<close> packet, whose body is the response message of that request; everything else a
  handler sends, to whatever session, is one of the five notifications.
\<close>

section \<open>The protocol\<close>

text \<open>The types that the server answers.\<close>

definition expects_answer :: "packet_type \<Rightarrow> bool" where
  "expects_answer t \<longleftrightarrow> t \<in> {REGISTER, LOGIN, TOKEN_VERIFY} \<or> plain_handler t \<noteq> None"

text \<open>The response message that belongs to a request.\<close>

fun answers :: "packet_type \<Rightarrow> bytes \<Rightarrow> bool" where
  "answers REGISTER b = (\<exists>r. b = AuthResponse_serialize r)"
| "answers LOGIN b = (\<exists>r. b = AuthResponse_serialize r)"
| "answers TOKEN_VERIFY b = (\<exists>r. b = TokenVerifyResponse_serialize r)"
| "answers MESSAGE b = (\<exists>r. b = ChatResponse_serialize r)"
| "answers UPLOAD b = (\<exists>r. b = FileUploadResponse_serialize r)"
| "answers DOWNLOAD b = (\<exists>r. b = FileDownloadResponse_serialize r)"
| "answers FRIEND_REQUEST b = (\<exists>r. b = FriendResponse_serialize r)"
| "answers FRIEND_ACCEPT b = (\<exists>r. b = FriendResponse_serialize r)"
| "answers FRIEND_REJECT b = (\<exists>r. b = FriendResponse_serialize r)"
| "answers FRIEND_LIST b = (\<exists>r. b = FriendListResponse_serialize r)"
| "answers DIRECT_MESSAGE b = (\<exists>r. b = DirectMessageResponse_serialize r)"
| "answers MESSAGE_HISTORY b = (\<exists>r. b = HistoryResponse_serialize r)"
| "answers CHAT_LIST b = (\<exists>r. b = ChatListResponse_serialize r)"
| "answers _ b = False"

text \<open>What is pushed to a session without a request of its own.\<close>

fun is_note :: "packet_type \<times> bytes \<Rightarrow> bool" where
  "is_note (MESSAGE, b) = (\<exists>r. b = ChatIncoming_serialize r)"
| "is_note (DIRECT_MESSAGE, b) = (\<exists>r. b = DirectMessageIncoming_serialize r)"
| "is_note (FRIEND_NEW_REQUEST, b) = True"
| "is_note (FRIEND_REQUEST_ACCEPTED, b) = True"
| "is_note (FRIEND_REQUEST_REJECTED, b) = True"
| "is_note (_, b) = False"

lemma expects_plain: "plain_handler t = Some h \<Longrightarrow> expects_answer t"
  by (simp add: expects_answer_def)

lemma is_note_not_result: "is_note p \<Longrightarrow> fst p \<noteq> RESULT"
  by (cases p rule: is_note.cases) auto

lemma answers_nonempty: "answers t b \<Longrightarrow> b \<noteq> []"
  by (cases t)
    (auto simp: ChatResponse_serialize_def FileUploadResponse_serialize_def
      FileDownloadResponse_serialize_def FriendListResponse_serialize_def
      DirectMessageResponse_serialize_def HistoryResponse_serialize_def
      ChatListResponse_serialize_def TokenVerifyResponse_serialize_def AuthResponse_serialize_def
      FriendResponse_serialize_def serialize_def ser_error_def pack_ui32_def net_bytes_def)

section \<open>What a handler returns\<close>

definition returns :: "('a \<Rightarrow> bool) \<Rightarrow> ('f, 's, 'a) prog \<Rightarrow> bool" where
  "returns Q m \<longleftrightarrow> (\<forall>s x s'. m s = (Inr x, s') \<longrightarrow> Q x)"

named_theorems returns_intros "rules for what a program returns"

lemma returnsD: "returns Q m \<Longrightarrow> m s = (Inr x, s') \<Longrightarrow> Q x"
  unfolding returns_def by blast

lemma returns_ret [returns_intros]: "Q x \<Longrightarrow> returns Q (ret x)"
  by (simp add: returns_def prog_simps)

lemma returns_bnd [returns_intros]: "(\<And>x. returns Q (f x)) \<Longrightarrow> returns Q (bnd m f)"
  by (auto simp: returns_def bnd_def split: prod.splits sum.splits)

lemma returns_if [returns_intros]:
  "returns Q m \<Longrightarrow> returns Q n \<Longrightarrow> returns Q (if b then m else n)"
  by simp

lemma returns_case_sum [returns_intros]:
  "(\<And>e. returns Q (f e)) \<Longrightarrow> (\<And>x. returns Q (g x)) \<Longrightarrow>
    returns Q (case r of Inl e \<Rightarrow> f e | Inr x \<Rightarrow> g x)"
  by (simp split: sum.split)

lemma returns_errors [returns_intros]:
  "t \<in> {FRIEND_REQUEST, FRIEND_ACCEPT, FRIEND_REJECT} \<Longrightarrow> returns (answers t) (friend_error this e)"
  "returns (answers DIRECT_MESSAGE) (dm_error this e)"
  by (auto simp: friend_error_def dm_error_def intro!: returns_intros)

lemma plain_answers: "plain_handler t = Some h \<Longrightarrow> returns (answers t) (h E this body)"
  by (cases t; clarsimp simp: handler_defs; (intro returns_intros; auto)?)

lemma auth_answers:
  "returns (\<lambda>r. answers REGISTER (fst r)) (handle_register E this body)"
  "returns (\<lambda>r. answers LOGIN (fst r)) (handle_login E this body)"
  "returns (\<lambda>r. answers TOKEN_VERIFY (fst r)) (handle_token_verify E this body)"
  unfolding handle_register_def handle_login_def handle_token_verify_def
  by ((intro returns_intros; auto)[1])+

lemma dispatch_answers:
  "returns (\<lambda>r. if expects_answer t then answers t (fst r) else fst r = [])
    (dispatch E this t body)"
proof (cases "plain_handler t")
  case (Some h)
  have "fst r = reply \<Longrightarrow> answers t reply \<Longrightarrow> answers t (fst r)" for r :: auth_result and reply
    by simp
  from Some plain_answers [OF Some, of E this body] show ?thesis
    by (auto simp: plain_dispatch expects_plain returns_def bnd_def prog_simps
        split: prod.splits sum.splits)
next
  case None
  show ?thesis
  proof (cases "t \<in> {REGISTER, LOGIN, TOKEN_VERIFY}")
    case True
    then have "expects_answer t" by (simp add: expects_answer_def)
    with True show ?thesis
      by (auto simp: dispatch_def auth_answers simp del: answers.simps)
  next
    case False
    with None have "\<not> expects_answer t" by (simp add: expects_answer_def)
    with False None show ?thesis
      by (auto simp: dispatch_def intro!: returns_intros)
  qed
qed

section \<open>What a handler sends\<close>

text \<open>The packets that \<open>send_packet\<close> has accepted, one after another.\<close>

definition frames :: "(packet_type \<times> bytes) list \<Rightarrow> bytes list" where
  "frames ps = map (\<lambda>(t, b). full_packet t b) ps"

definition sent :: "(packet_type \<times> bytes) list \<Rightarrow> net \<Rightarrow> net" where
  "sent ps n = n\<lparr>posted := posted n @ frames ps\<rparr>"

lemma frames_simps [simp]:
  "frames [] = []"
  "frames (p # ps) = full_packet (fst p) (snd p) # frames ps"
  "frames (ps @ qs) = frames ps @ frames qs"
  by (simp_all add: frames_def case_prod_beta)

lemma sent_simps [simp]:
  "sent [] n = n"
  "sent qs (sent ps n) = sent (ps @ qs) n"
  "accepted (sent ps n) = accepted n @ frames ps"
  by (simp_all add: sent_def accepted_def)

lemma send_packet_sent: "send_packet t b n = sent [(t, b)] n"
  by (simp add: send_packet_def sent_def)

text \<open>
  A session \<open>c\<close> became \<open>c'\<close> by being sent packets that satisfy \<open>P\<close>; its reading half was not
  touched.
\<close>

definition told :: "(packet_type \<times> bytes \<Rightarrow> bool) \<Rightarrow> client \<Rightarrow> client \<Rightarrow> bool" where
  "told P c c' \<longleftrightarrow> reader c' = reader c \<and> reading c' = reading c \<and>
     (\<exists>ps. list_all P ps \<and> net c' = sent ps (net c))"

definition view :: "nat \<Rightarrow> server \<Rightarrow> nat \<times> client option" where
  "view sid S = (next_client S, clients S sid)"

definition grown :: "nat \<Rightarrow> nat \<times> client option \<Rightarrow> server \<Rightarrow> bool" where
  "grown sid v S \<longleftrightarrow> rel_prod (=) (rel_option (told is_note)) v (view sid S)"

lemma told_refl [simp]: "told P c c"
  by (auto simp: told_def intro: exI [of _ "[]"])

lemma told_same: "reader c' = reader c \<Longrightarrow> reading c' = reading c \<Longrightarrow> net c' = net c \<Longrightarrow> told P c c'"
  by (auto simp: told_def intro: exI [of _ "[]"])

lemma told_trans: "told P a b \<Longrightarrow> told P b c \<Longrightarrow> told P a c"
  by (auto simp: told_def intro: exI [of _ "_ @ _"])

lemma grown_refl [simp]: "grown sid (view sid S) S"
  by (simp add: grown_def view_def option.rel_refl)

lemma grown_step:
  assumes "grown sid v S" and "next_client S' = next_client S"
    and "rel_option (told is_note) (clients S sid) (clients S' sid)"
  shows "grown sid v S'"
proof -
  have "transp (told is_note)" by (auto intro: transpI told_trans)
  then have "transp (rel_option (told is_note))" by (rule option.rel_transp)
  then show ?thesis
    using assms by (cases v) (auto simp: grown_def view_def dest: transpD)
qed

lemma grown_outbox:
  assumes "grown sid (view sid S) S'"
  shows "\<exists>pushed. list_all is_note pushed \<and> outbox S' sid = outbox S sid @ frames pushed \<and>
    (clients S' sid = None \<longleftrightarrow> clients S sid = None)"
proof (cases "clients S sid")
  case None
  with assms show ?thesis
    by (intro exI [of _ "[]"]) (cases "clients S' sid", simp_all add: grown_def view_def outbox_def)
next
  case (Some c)
  with assms obtain c' where "clients S' sid = Some c'" "told is_note c c'"
    by (cases "clients S' sid") (simp_all add: grown_def view_def)
  with Some show ?thesis by (auto simp: told_def sent_def outbox_def)
qed

lemma outbox_after_answer:
  assumes p: "outbox S1 sid = outbox S sid @ frames pushed" "clients S1 sid = None \<longleftrightarrow> clients S sid = None"
  shows "outbox (if b then answered this t reply S1 else S1) sid = outbox S sid @ frames (pushed @
    (if sid = this \<and> clients S sid \<noteq> None \<and> b then [(RESULT, reply)] else []))"
proof -
  have "outbox (if b then answered this t reply S1 else S1) sid =
      (if b \<and> sid = this \<and> clients S1 sid \<noteq> None then outbox S1 sid @ [full_packet RESULT reply]
       else outbox S1 sid)"
    by (simp add: outbox_send_to)
  then show ?thesis unfolding p by simp
qed

lemma grown_update_client:
  assumes "\<And>c. told is_note c (f c)"
  shows "preserves (grown sid c0) (modify (update_client x f))"
proof (rule preserves_modify)
  fix S assume "grown sid c0 S"
  then show "grown sid c0 (update_client x f S)"
    by (rule grown_step) (simp, cases "clients S sid", auto simp: assms option.rel_refl)
qed

lemma grown_frame [preserves_intros]:
  "preserves (grown sid c0) (on_db m)"
  "preserves (grown sid c0) (on_files m')"
  "preserves (grown sid c0) (on_rand m'')"
  "preserves (grown sid c0) (modify (addUser l x))"
  "preserves (grown sid c0) (get_login x)"
  by (auto simp: preserves_def grown_def view_def on_db_def on_files_def on_rand_def prog_simps addUser_def
      split: prod.splits)

lemma grown_setters [preserves_intros]:
  "preserves (grown sid c0) (set_error x e)"
  "preserves (grown sid c0) (set_token x t)"
  "preserves (grown sid c0) (set_login x l)"
  unfolding set_error_def set_token_def set_login_def
  by (intro grown_update_client told_same; simp)+

lemma grown_send_to:
  assumes "is_note (t, b)"
  shows "preserves (grown sid c0) (modify (send_to x t b))"
  unfolding send_to_def
  by (intro grown_update_client)
    (use assms in \<open>auto simp: told_def send_packet_sent intro!: exI [of _ "[(t, b)]"]\<close>)

lemma grown_send [preserves_intros]:
  "preserves (grown sid c0) (modify (send_to x DIRECT_MESSAGE (DirectMessageIncoming_serialize r)))"
  "t \<in> {FRIEND_NEW_REQUEST, FRIEND_REQUEST_ACCEPTED, FRIEND_REQUEST_REJECTED} \<Longrightarrow>
    preserves (grown sid c0) (notify l t b)"
  unfolding notify_def by (auto intro!: preserves_intros grown_send_to)

lemma grown_put_line [simp]: "grown sid c0 (put_line l S) = grown sid c0 S"
  by (simp add: grown_def view_def)

lemma grown_broadcast [preserves_intros]:
  "preserves (grown sid c0) (modify (broadcast l MESSAGE (ChatIncoming_serialize r)))"
proof (rule broadcast_preserves)
  fix x S assume "grown sid c0 S"
  with preservesD [OF grown_send_to, of "MESSAGE" "ChatIncoming_serialize r" sid c0 S x]
  show "grown sid c0 (send_to x MESSAGE (ChatIncoming_serialize r) S)" by (auto simp: prog_simps)
qed simp

lemma grown_log [preserves_intros]: "preserves (grown sid c0) (log_packet x type msg)"
  by (rule preserves_log_packet) simp

lemma grown_handlers [preserves_intros]:
  "preserves (grown sid c0) (handle_register E this body)"
  "preserves (grown sid c0) (handle_login E this body)"
  "preserves (grown sid c0) (handle_token_verify E this body)"
  "preserves (grown sid c0) (handle_logout this body)"
  "preserves (grown sid c0) (handle_message E this body)"
  "preserves (grown sid c0) (handle_upload E this body)"
  "preserves (grown sid c0) (handle_download E this body)"
  "preserves (grown sid c0) (handle_friend_request E this body)"
  "preserves (grown sid c0) (handle_friend_accept E this body)"
  "preserves (grown sid c0) (handle_friend_reject E this body)"
  "preserves (grown sid c0) (handle_friend_list E this body)"
  "preserves (grown sid c0) (handle_direct_message E this body)"
  "preserves (grown sid c0) (handle_message_history E this body)"
  "preserves (grown sid c0) (handle_chat_list E this body)"
  "preserves (grown sid c0) (deliver_pending E this)"
  unfolding handle_register_def handle_login_def handle_token_verify_def handle_logout_def
    handler_defs logins_of_def deliver_pending_def
  by (intro preserves_intros; simp)+

lemma grown_plain: "plain_handler t = Some h \<Longrightarrow> preserves (grown sid c0) (h E this body)"
  by (cases t) (auto intro: preserves_intros)

lemma grown_dispatch: "preserves (grown sid c0) (dispatch E this t body)"
  unfolding dispatch_def by (intro preserves_intros grown_plain)

section \<open>Serving one packet\<close>

lemma bnd_InrE:
  assumes "bnd m f s = (Inr x, s')"
  obtains y s1 where "m s = (Inr y, s1)" and "f y s1 = (Inr x, s')"
  using assms by (auto simp: bnd_def split: prod.splits sum.splits)

text \<open>What follows an authentication, and the parts of a run of \<open>handle_packet\<close>.\<close>

abbreviation enter :: "env \<Rightarrow> nat \<Rightarrow> bool \<Rightarrow> string \<Rightarrow> unit act" where
  "enter E this auth l \<equiv> if auth then bnd (set_login this l) (\<lambda>_. bnd (deliver_pending E this) (\<lambda>_.
     bnd (get_login this) (\<lambda>l. modify (addUser l this)))) else ret ()"

lemma handle_packet_parts:
  assumes "handle_packet E this t b S = (Inr u, S')"
  obtains reply l auth S0 v S1 where "dispatch E this t b (cleared this S) = (Inr (reply, l, auth), S0)"
    and "enter E this auth l S0 = (Inr v, S1)"
    and "S' = (if reply \<noteq> [] then answered this t reply S1 else S1)"
proof -
  have run: "handle_packet E this t b S = bnd (dispatch E this t b) (\<lambda>(reply, l, auth).
      bnd (enter E this auth l) (\<lambda>_. if reply \<noteq> [] then modify (answered this t reply) else ret ()))
      (cleared this S)"
    unfolding handle_packet_def answer_modify by (simp add: prog_simps cleared_def)
  from assms [unfolded run] obtain y S0 where d: "dispatch E this t b (cleared this S) = (Inr y, S0)"
    and rest: "(case y of (reply, l, auth) \<Rightarrow> bnd (enter E this auth l) (\<lambda>_. if reply \<noteq> []
      then modify (answered this t reply) else ret ())) S0 = (Inr u, S')"
    by (rule bnd_InrE)
  obtain reply l auth where y: "y = (reply, l, auth)" by (rule prod_cases3)
  note d = d [unfolded y] and rest = rest [unfolded y prod.case]
  obtain v S1 where "enter E this auth l S0 = (Inr v, S1)"
    and "S' = (if reply \<noteq> [] then answered this t reply S1 else S1)"
    using rest by (rule bnd_InrE) (auto simp: prog_simps split: if_splits)
  with d show thesis by (rule that)
qed

lemma cleared_grown: "grown sid (view sid S) (cleared this S)"
  by (rule grown_step [OF grown_refl])
    (simp_all add: cleared_def, cases "clients S sid", auto simp: option.rel_refl intro!: told_same)

lemma handle_packet_says:
  assumes "handle_packet E this t b S = (Inr u, S')"
  shows "\<exists>S1. (\<forall>sid. grown sid (view sid S) S1) \<and>
    (if expects_answer t then \<exists>reply. answers t reply \<and> S' = answered this t reply S1
     else S' = S1)"
  using assms
proof (rule handle_packet_parts)
  fix reply l auth S0 v S1
  assume d: "dispatch E this t b (cleared this S) = (Inr (reply, l, auth), S0)"
    and after: "enter E this auth l S0 = (Inr v, S1)"
    and S': "S' = (if reply \<noteq> [] then answered this t reply S1 else S1)"
  have reply: "if expects_answer t then answers t reply else reply = []"
    using returnsD [OF dispatch_answers d] unfolding fst_conv .
  have "grown sid (view sid S) S0" for sid
    using preservesD [OF grown_dispatch cleared_grown] d by (metis snd_conv)
  moreover have "preserves (grown sid c0) (enter E this auth l)" for sid c0
    by (intro preserves_intros)
  ultimately have "grown sid (view sid S) S1" for sid
    using preservesD after by (metis snd_conv)
  with S' reply show ?thesis
    by (intro exI [of _ S1] conjI) (auto dest: answers_nonempty)
qed

end
