(* ===== verification/ClientAsyncHandler.thy ===== *)
theory ClientAsyncHandler
  imports Network
begin

text \<open>
  \<^verbatim>\<open>include/client_async_handler.hpp\<close>: the client's end of the connection. It remembers the
  types of the requests that are not answered yet, parses every answer as the answer to the
  oldest of them, and hands what it parsed to the callbacks that are set.
\<close>

section \<open>State\<close>

text \<open>
  A \<^verbatim>\<open>std::function\<close> member is empty or a function, which changes the world \<open>'w\<close> that its
  closure refers to.
\<close>

record 'w callbacks =
  on_token_response :: "(TokenVerifyResponse \<Rightarrow> 'w \<Rightarrow> 'w) option"
  on_auth_response :: "(AuthResponse \<Rightarrow> 'w \<Rightarrow> 'w) option"
  on_chat_incoming :: "(ChatIncoming \<Rightarrow> 'w \<Rightarrow> 'w) option"
  on_dm_incoming :: "(DirectMessageIncoming \<Rightarrow> 'w \<Rightarrow> 'w) option"
  on_friend_response :: "(FriendResponse \<Rightarrow> 'w \<Rightarrow> 'w) option"
  on_friend_list_response :: "(FriendListResponse \<Rightarrow> 'w \<Rightarrow> 'w) option"
  on_history_response :: "(HistoryResponse \<Rightarrow> 'w \<Rightarrow> 'w) option"
  on_chat_list :: "(ChatListResponse \<Rightarrow> 'w \<Rightarrow> 'w) option"
  on_friend_new_request :: "(unit \<Rightarrow> 'w \<Rightarrow> 'w) option"
  on_message :: "(string \<Rightarrow> 'w \<Rightarrow> 'w) option"

record 'w async_handler =
  callbacks :: "'w callbacks"
  messages :: "string list"
  pending_requests :: "packet_type list"
  base_net :: net
  base_reader :: reader
  base_reading :: bool
  world :: 'w

type_synonym ('w, 'a) client_prog = "(fault, 'w async_handler, 'a) prog"

section \<open>Sending\<close>

text \<open>
  A thread that calls \<^verbatim>\<open>send_request\<close> takes two steps that other threads can come between:
  the push under \<^verbatim>\<open>pending_mutex\<close>, and the post to the executor.
\<close>

datatype thread_step = PushPending packet_type | PostPacket packet_type bytes

definition send_request :: "packet_type \<Rightarrow> bytes \<Rightarrow> thread_step list" where
  "send_request type body = [PushPending type, PostPacket type body]"

fun run_thread_step :: "thread_step \<Rightarrow> 'w async_handler \<Rightarrow> 'w async_handler" where
  "run_thread_step (PushPending type) H = H\<lparr>pending_requests := pending_requests H @ [type]\<rparr>"
| "run_thread_step (PostPacket type body) H = H\<lparr>base_net := send_packet type body (base_net H)\<rparr>"

section \<open>Receiving\<close>

text \<open>\<^verbatim>\<open>if(callback) callback(argument)\<close>\<close>

definition invoke :: "('w callbacks \<Rightarrow> ('a \<Rightarrow> 'w \<Rightarrow> 'w) option) \<Rightarrow> 'a \<Rightarrow> ('w, unit) client_prog" where
  "invoke callback x =
     modify (\<lambda>H. case callback (callbacks H) of
                    None \<Rightarrow> H | Some f \<Rightarrow> H\<lparr>world := f x (world H)\<rparr>)"

text \<open>The \<^verbatim>\<open>switch\<close> over the type of the request that an answer belongs to.\<close>

fun handle_answer :: "packet_type \<Rightarrow> bytes \<Rightarrow> ('w, unit) client_prog" where
  "handle_answer TOKEN_VERIFY body =
     bnd (lift_res (TokenVerifyResponse_deserialize body)) (invoke on_token_response)"
| "handle_answer REGISTER body =
     bnd (lift_res (AuthResponse_deserialize body)) (invoke on_auth_response)"
| "handle_answer LOGIN body =
     bnd (lift_res (AuthResponse_deserialize body)) (invoke on_auth_response)"
| "handle_answer FRIEND_REQUEST body =
     bnd (lift_res (FriendResponse_deserialize body)) (invoke on_friend_response)"
| "handle_answer FRIEND_ACCEPT body =
     bnd (lift_res (FriendResponse_deserialize body)) (invoke on_friend_response)"
| "handle_answer FRIEND_REJECT body =
     bnd (lift_res (FriendResponse_deserialize body)) (invoke on_friend_response)"
| "handle_answer FRIEND_LIST body =
     bnd (lift_res (FriendListResponse_deserialize body)) (invoke on_friend_list_response)"
| "handle_answer MESSAGE_HISTORY body =
     bnd (lift_res (HistoryResponse_deserialize body)) (invoke on_history_response)"
| "handle_answer CHAT_LIST body =
     bnd (lift_res (ChatListResponse_deserialize body)) (invoke on_chat_list)"
| "handle_answer _ body = ret ()"

text \<open>The lock block at the end: the oldest line goes when there are more than 200.\<close>

definition push_line :: "string \<Rightarrow> ('w, unit) client_prog" where
  "push_line line =
     modify (\<lambda>H. let ms = messages H @ [line]
                 in H\<lparr>messages := (if length ms > 200 then tl ms else ms)\<rparr>)"

text \<open>
  An answer that belongs to no request leaves the switch; an exception leaves the handler,
  with the request already taken off the queue. \<open>line\<close> is never assigned.
\<close>

definition handle_switch :: "packet_type \<Rightarrow> bytes \<Rightarrow> ('w, unit) client_prog" where
  "handle_switch type body =
    (if type = MESSAGE then
       bnd (lift_res (ChatIncoming_deserialize body)) (invoke on_chat_incoming)
     else if type = DIRECT_MESSAGE then
       bnd (lift_res (DirectMessageIncoming_deserialize body)) (invoke on_dm_incoming)
     else if type = FRIEND_NEW_REQUEST \<or> type = FRIEND_REQUEST_ACCEPTED \<or>
       type = FRIEND_REQUEST_REJECTED then
       invoke on_friend_new_request ()
     else if type = RESULT then
       bnd (gets pending_requests) (\<lambda>pending.
       case pending of
         [] \<Rightarrow> ret ()
       | original # rest \<Rightarrow>
           bnd (modify (\<lambda>H. H\<lparr>pending_requests := rest\<rparr>)) (\<lambda>_.
           handle_answer original body))
     else ret ())"

definition handle_packet_async :: "packet_type \<Rightarrow> bytes \<Rightarrow> ('w, unit) client_prog" where
  "handle_packet_async type body =
     (let line = '''' in bnd (handle_switch type body) (\<lambda>_. push_line line))"

end
