(* ===== verification/TokenStorage.thy ===== *)
theory TokenStorage
  imports Codes
begin

text \<open>
  \<^verbatim>\<open>client/token_storage.hpp\<close> and \<^verbatim>\<open>client/error_codes_handler_qml.hpp\<close>, and what the client uses
  of Qt: the conversions between \<^verbatim>\<open>QString\<close> and bytes, and files.
\<close>

section \<open>Qt\<close>

text \<open>
  A \<^verbatim>\<open>QString\<close> is a sequence of UTF-16 code units. The conversions, the directory for the
  application's data and the answers of \<^verbatim>\<open>open\<close> and \<^verbatim>\<open>remove\<close> are parameters.
\<close>

type_synonym qstring = "16 word list"
type_synonym qfiles = "qstring \<Rightarrow> bytes option"

record qt =
  fromStdString :: "string \<Rightarrow> qstring"
  toStdString :: "qstring \<Rightarrow> string"
  toUtf8 :: "qstring \<Rightarrow> bytes"
  fromUtf8 :: "bytes \<Rightarrow> qstring"
  trimmed :: "qstring \<Rightarrow> qstring"
  writableLocation :: qstring
  open_write :: "qstring \<Rightarrow> bool"
  open_read :: "qstring \<Rightarrow> bool"
  may_remove :: "qstring \<Rightarrow> bool"

text \<open>A \<^verbatim>\<open>QString\<close> of ASCII characters.\<close>

definition ascii :: "string \<Rightarrow> bool" where
  "ascii s \<longleftrightarrow> (\<forall>c \<in> set s. (of_char c :: nat) < 128)"

definition qascii :: "string \<Rightarrow> qstring" where
  "qascii s = map (\<lambda>c. of_nat (of_char c)) s"

section \<open>Token storage\<close>

definition filePath :: "qt \<Rightarrow> qstring" where
  "filePath Q = (let dir = writableLocation Q in dir @ qascii ''/token'')"

text \<open>\<^verbatim>\<open>QIODevice::Truncate\<close>: the token replaces the content of the file.\<close>

definition save :: "qt \<Rightarrow> qstring \<Rightarrow> qfiles \<Rightarrow> qfiles" where
  "save Q token fs =
     (if open_write Q (filePath Q) then fs(filePath Q \<mapsto> toUtf8 Q token) else fs)"

definition load :: "qt \<Rightarrow> qfiles \<Rightarrow> qstring" where
  "load Q fs =
     (case fs (filePath Q) of
        None \<Rightarrow> []
      | Some content \<Rightarrow>
          if \<not> open_read Q (filePath Q) then [] else trimmed Q (fromUtf8 Q content))"

definition clear_storage :: "qt \<Rightarrow> qfiles \<Rightarrow> qfiles" where
  "clear_storage Q fs = (if may_remove Q (filePath Q) then fs(filePath Q := None) else fs)"

section \<open>Error texts\<close>

definition isOk :: "u32 \<Rightarrow> bool" where
  "isOk c = (let e = ErrorCode c in ok e)"

definition textError :: "qt \<Rightarrow> u32 \<Rightarrow> qstring" where
  "textError Q c = (let e = ErrorCode c in fromStdString Q (codeErrorText e))"

section \<open>What the code relies on\<close>

text \<open>
  The documented behaviour of the conversions on ASCII text: each code unit is the character,
  UTF-8 is one byte for each, and trimming takes white space off the ends only.
\<close>

definition qt_contract :: "qt \<Rightarrow> bool" where
  "qt_contract Q \<longleftrightarrow>
     (\<forall>s. ascii s \<longrightarrow> fromStdString Q s = qascii s \<and> toStdString Q (qascii s) = s \<and>
        toUtf8 Q (qascii s) = map byte_of_char s \<and> fromUtf8 Q (map byte_of_char s) = qascii s) \<and>
     (\<forall>q. q \<noteq> [] \<and> 32 < hd q \<and> hd q < 127 \<and> 32 < last q \<and> last q < 127 \<longrightarrow> trimmed Q q = q) \<and>
     trimmed Q [] = []"

text \<open>Text without white space, as a token is.\<close>

definition graphic :: "string \<Rightarrow> bool" where
  "graphic s \<longleftrightarrow> (\<forall>c \<in> set s. 32 < (of_char c :: nat) \<and> (of_char c :: nat) < 127)"

lemma graphic_ascii: "graphic s \<Longrightarrow> ascii s"
  by (force simp: graphic_def ascii_def)

lemma unat_of_char16 [simp]: "unat (of_nat (of_char c) :: 16 word) = (of_char c :: nat)"
proof -
  have "(of_char c :: nat) mod 256 = of_char c" by (rule of_char_mod_256)
  then have "(of_char c :: nat) < 256" by (metis mod_less_divisor zero_less_numeral)
  then have "(of_char c :: nat) < 65536" by linarith
  then show ?thesis by (simp add: unat_of_nat)
qed

lemma graphic_units: "graphic s \<Longrightarrow> q \<in> set (qascii s) \<Longrightarrow> 32 < q \<and> q < 127"
  by (auto simp: graphic_def qascii_def word_less_nat_alt)

lemma trimmed_graphic:
  assumes "qt_contract Q" and "graphic s"
  shows "trimmed Q (qascii s) = qascii s"
proof (cases "s = []")
  case True
  with assms(1) show ?thesis by (simp add: qt_contract_def qascii_def)
next
  case False
  then have "qascii s \<noteq> []" by (simp add: qascii_def)
  with assms show ?thesis by (simp add: qt_contract_def graphic_units)
qed

lemma load_save:
  assumes "qt_contract Q" and "graphic t"
    and "open_write Q (filePath Q)" and "open_read Q (filePath Q)"
  shows "load Q (save Q (fromStdString Q t) fs) = qascii t"
  using assms trimmed_graphic [OF assms(1,2)] graphic_ascii [OF assms(2)]
  by (simp add: load_def save_def qt_contract_def)

lemma load_clear: "may_remove Q (filePath Q) \<Longrightarrow> load Q (clear_storage Q fs) = []"
  by (simp add: load_def clear_storage_def)

section \<open>The token store interface\<close>

text \<open>
  What the adapter relies on: a token that was put is what is got, a second one replaces the
  first, and after wiping there is none.
\<close>

locale token_store =
  fixes ready :: "'q \<Rightarrow> bool"
    and good :: "'t \<Rightarrow> bool"
    and none :: 't
    and put :: "'q \<Rightarrow> 't \<Rightarrow> 's \<Rightarrow> 's"
    and wipe :: "'q \<Rightarrow> 's \<Rightarrow> 's"
    and get :: "'q \<Rightarrow> 's \<Rightarrow> 't"
  assumes get_put: "ready q \<Longrightarrow> good t \<Longrightarrow> get q (put q t s) = t"
    and put_put: "put q t (put q u s) = put q t s"
    and get_wipe: "ready q \<Longrightarrow> get q (wipe q s) = none"
begin

lemma last_login: "ready q \<Longrightarrow> good t \<Longrightarrow> get q (fold (put q) (us @ [t]) s) = t"
  by (simp add: get_put)

lemma logins_collapse: "us \<noteq> [] \<Longrightarrow> fold (put q) us s = put q (last us) s"
proof (induction us arbitrary: s rule: rev_induct)
  case (snoc u us)
  then show ?case by (cases "us = []") (simp_all add: put_put)
qed simp

lemma logged_out: "ready q \<Longrightarrow> get q (wipe q (put q t s)) = none"
  by (rule get_wipe)

end

definition storage_ready :: "qt \<Rightarrow> bool" where
  "storage_ready Q \<longleftrightarrow> qt_contract Q \<and> open_write Q (filePath Q) \<and> open_read Q (filePath Q) \<and>
     may_remove Q (filePath Q)"

lemma toStdString_qascii: "qt_contract Q \<Longrightarrow> graphic t \<Longrightarrow> toStdString Q (qascii t) = t"
  using graphic_ascii [of t] by (simp add: qt_contract_def)

interpretation token_file: token_store storage_ready graphic "[]"
  "\<lambda>Q t. save Q (fromStdString Q t)" clear_storage "\<lambda>Q fs. toStdString Q (load Q fs)"
proof unfold_locales
  fix Q t and s :: qfiles
  assume "storage_ready Q" "graphic t"
  then show "toStdString Q (load Q (save Q (fromStdString Q t) s)) = t"
    by (simp add: storage_ready_def load_save toStdString_qascii)
next
  fix Q t u and s :: qfiles
  show "save Q (fromStdString Q t) (save Q (fromStdString Q u) s) = save Q (fromStdString Q t) s"
    by (simp add: save_def)
next
  fix Q and s :: qfiles
  assume "storage_ready Q"
  then show "toStdString Q (load Q (clear_storage Q s)) = []"
    using toStdString_qascii [of Q "[]"] by (simp add: storage_ready_def load_clear graphic_def qascii_def)
qed

end
