(* ===== verification/ClientHandlerQml.thy ===== *)
theory ClientHandlerQml
  imports ClientAsyncHandler TokenStorage Crypto
begin

text \<open>
  \<^verbatim>\<open>client/client_handler_qml.hpp\<close>: the commands that the user interface calls. A command runs
  on the interface's thread; what it sends is the list of steps that the thread takes on the
  connection, in order. Debug output is left out.
\<close>

section \<open>State\<close>

text \<open>Signals of the adapter, which go straight to the interface.\<close>

datatype adapter_signal = tokenReady | messageSent qstring qstring i64

text \<open>\<open>handler_alive\<close> is whether the \<^verbatim>\<open>weak_ptr\<close> can be locked.\<close>

record adapter =
  handler_alive :: bool
  token :: string
  storage :: qfiles
  emitted :: "adapter_signal list"
  thread_steps :: "thread_step list"

type_synonym 'a command = "(fault, adapter, 'a) prog"

definition ClientHandlerQml :: "qfiles \<Rightarrow> adapter" where
  "ClientHandlerQml fs = \<lparr>handler_alive = True, token = '''', storage = fs, emitted = [],
     thread_steps = []\<rparr>"

definition emit :: "adapter_signal \<Rightarrow> unit command" where
  "emit s = modify (\<lambda>A. A\<lparr>emitted := emitted A @ [s]\<rparr>)"

definition p_send_request :: "packet_type \<Rightarrow> bytes \<Rightarrow> unit command" where
  "p_send_request type body =
     modify (\<lambda>A. A\<lparr>thread_steps := thread_steps A @ send_request type body\<rparr>)"

definition p_send_packet :: "packet_type \<Rightarrow> bytes \<Rightarrow> unit command" where
  "p_send_packet type body =
     modify (\<lambda>A. A\<lparr>thread_steps := thread_steps A @ [PostPacket type body]\<rparr>)"

text \<open>\<^verbatim>\<open>auto p = handler.lock(); if(!p) return;\<close>\<close>

definition locked :: "'a \<Rightarrow> 'a command \<Rightarrow> 'a command" where
  "locked otherwise m = bnd (gets handler_alive) (\<lambda>p. if \<not> p then ret otherwise else m)"

section \<open>The token\<close>

definition isTokenReady :: "adapter \<Rightarrow> bool" where
  "isTokenReady A \<longleftrightarrow> token A \<noteq> ''''"

definition setToken :: "qt \<Rightarrow> string \<Rightarrow> unit command" where
  "setToken Q t =
     bnd (modify (\<lambda>A. A\<lparr>token := t\<rparr>)) (\<lambda>_.
     (let qtoken = fromStdString Q t in
      bnd (modify (\<lambda>A. A\<lparr>storage := save Q qtoken (storage A)\<rparr>)) (\<lambda>_.
      emit tokenReady)))"

definition checkSavedToken :: "qt \<Rightarrow> bool command" where
  "checkSavedToken Q =
     bnd (gets (\<lambda>A. load Q (storage A))) (\<lambda>saved.
     if saved = [] then ret False
     else locked False
       (let req = \<lparr>tvreq_old_token = toStdString Q saved\<rparr> in
        bnd (p_send_request TOKEN_VERIFY (TokenVerifyRequest_serialize req)) (\<lambda>_. ret True)))"

definition logout_qml :: "qt \<Rightarrow> unit command" where
  "logout_qml Q = locked ()
     (bnd (gets token) (\<lambda>tok.
      bnd (if tok \<noteq> '''' then
             (let req = \<lparr>lreq_old_token = tok\<rparr> in
              p_send_packet LOGOUT (LogoutRequest_serialize req))
           else ret ()) (\<lambda>_.
      bnd (modify (\<lambda>A. A\<lparr>token := ''''\<rparr>)) (\<lambda>_.
      modify (\<lambda>A. A\<lparr>storage := clear_storage Q (storage A)\<rparr>)))))"

section \<open>Requests\<close>

definition registerUser_qml :: "qt \<Rightarrow> env \<Rightarrow> qstring \<Rightarrow> qstring \<Rightarrow> unit command" where
  "registerUser_qml Q E login password = locked ()
     (let req = \<lparr>areq_login = toStdString Q login,
        areq_password = sha256 E (toStdString Q password)\<rparr> in
      p_send_request REGISTER (AuthRequest_serialize req))"

definition loginUser :: "qt \<Rightarrow> env \<Rightarrow> qstring \<Rightarrow> qstring \<Rightarrow> unit command" where
  "loginUser Q E login password = locked ()
     (let req = \<lparr>areq_login = toStdString Q login,
        areq_password = sha256 E (toStdString Q password)\<rparr> in
      p_send_request LOGIN (AuthRequest_serialize req))"

text \<open>The two file commands are empty in the source.\<close>

definition uploadFile :: "unit command" where
  "uploadFile = ret ()"

definition downloadFile :: "unit command" where
  "downloadFile = ret ()"

definition sendMessageGeneralChat :: "qt \<Rightarrow> qstring \<Rightarrow> unit command" where
  "sendMessageGeneralChat Q message = locked ()
     (bnd (gets token) (\<lambda>tok.
      (let req = \<lparr>csreq_token = tok, csreq_message = toStdString Q message\<rparr> in
       p_send_request MESSAGE (ChatSendRequest_serialize req))))"

definition sendFriendRequest :: "qt \<Rightarrow> qstring \<Rightarrow> unit command" where
  "sendFriendRequest Q target_login = locked ()
     (bnd (gets token) (\<lambda>tok.
      (let req = \<lparr>freq_token = tok, freq_target_login = toStdString Q target_login\<rparr> in
       p_send_request FRIEND_REQUEST (FriendRequest_serialize req))))"

definition acceptFriendRequest :: "qt \<Rightarrow> qstring \<Rightarrow> unit command" where
  "acceptFriendRequest Q target_login = locked ()
     (bnd (gets token) (\<lambda>tok.
      (let req = \<lparr>freq_token = tok, freq_target_login = toStdString Q target_login\<rparr> in
       p_send_request FRIEND_ACCEPT (FriendRequest_serialize req))))"

definition rejectFriendRequest :: "qt \<Rightarrow> qstring \<Rightarrow> unit command" where
  "rejectFriendRequest Q target_login = locked ()
     (bnd (gets token) (\<lambda>tok.
      (let req = \<lparr>freq_token = tok, freq_target_login = toStdString Q target_login\<rparr> in
       p_send_request FRIEND_REJECT (FriendRequest_serialize req))))"

definition getFriendList :: "unit command" where
  "getFriendList = locked ()
     (bnd (gets token) (\<lambda>tok.
      (let req = \<lparr>flreq_token = tok\<rparr> in
       p_send_request FRIEND_LIST (FriendListRequest_serialize req))))"

text \<open>\<open>now\<close> is the client's clock in whole seconds.\<close>

definition sendDirectMessage :: "qt \<Rightarrow> int \<Rightarrow> qstring \<Rightarrow> qstring \<Rightarrow> unit command" where
  "sendDirectMessage Q now recipientLogin message = locked ()
     (bnd (gets token) (\<lambda>tok.
      (let req = \<lparr>dmreq_token = tok, dmreq_recipient_login = toStdString Q recipientLogin,
         dmreq_message = toStdString Q message\<rparr> in
       bnd (emit (messageSent recipientLogin message (word_of_int now))) (\<lambda>_.
       p_send_request DIRECT_MESSAGE (DirectMessageRequest_serialize req)))))"

definition getHistoryDirectMessage :: "qt \<Rightarrow> qstring \<Rightarrow> unit command" where
  "getHistoryDirectMessage Q peerLogin = locked ()
     (bnd (gets token) (\<lambda>tok.
      (let req = \<lparr>hreq_token = tok, hreq_peer_login = toStdString Q peerLogin\<rparr> in
       p_send_request MESSAGE_HISTORY (HistoryRequest_serialize req))))"

definition getLastMessages_qml :: "unit command" where
  "getLastMessages_qml = locked ()
     (bnd (gets token) (\<lambda>tok.
      (let req = \<lparr>clreq_token = tok\<rparr> in
       p_send_request CHAT_LIST (ChatListRequest_serialize req))))"

section \<open>The commands of the interface\<close>

datatype qml_command =
    CheckSavedToken
  | Logout
  | RegisterUser qstring qstring
  | LoginUser qstring qstring
  | UploadFile
  | DownloadFile
  | SendMessageGeneralChat qstring
  | SendFriendRequest qstring
  | AcceptFriendRequest qstring
  | RejectFriendRequest qstring
  | GetFriendList
  | SendDirectMessage int qstring qstring
  | GetHistoryDirectMessage qstring
  | GetLastMessages

fun run_command :: "qt \<Rightarrow> env \<Rightarrow> qml_command \<Rightarrow> unit command" where
  "run_command Q E CheckSavedToken = bnd (checkSavedToken Q) (\<lambda>_. ret ())"
| "run_command Q E Logout = logout_qml Q"
| "run_command Q E (RegisterUser l p) = registerUser_qml Q E l p"
| "run_command Q E (LoginUser l p) = loginUser Q E l p"
| "run_command Q E UploadFile = uploadFile"
| "run_command Q E DownloadFile = downloadFile"
| "run_command Q E (SendMessageGeneralChat m) = sendMessageGeneralChat Q m"
| "run_command Q E (SendFriendRequest l) = sendFriendRequest Q l"
| "run_command Q E (AcceptFriendRequest l) = acceptFriendRequest Q l"
| "run_command Q E (RejectFriendRequest l) = rejectFriendRequest Q l"
| "run_command Q E GetFriendList = getFriendList"
| "run_command Q E (SendDirectMessage now l m) = sendDirectMessage Q now l m"
| "run_command Q E (GetHistoryDirectMessage l) = getHistoryDirectMessage Q l"
| "run_command Q E GetLastMessages = getLastMessages_qml"

end
