(* ===== verification/NetworkBridge.thy ===== *)
theory NetworkBridge
  imports ClientAsyncHandler TokenStorage
begin

text \<open>
  \<^verbatim>\<open>client/network_bridge.hpp\<close>: the callbacks that the bridge installs in the handler. They run on
  the network thread; \<^verbatim>\<open>QMetaObject::invokeMethod\<close> with \<^verbatim>\<open>Qt::QueuedConnection\<close> puts a closure
  that emits one signal into the event queue of the interface's thread. The queue, as the list
  of signals its closures will emit, is the world of the callbacks.
\<close>

section \<open>Signals\<close>

text \<open>A \<^verbatim>\<open>QVariant\<close> holds a string or a number here; a \<^verbatim>\<open>QVariantHash\<close> is a map.\<close>

datatype qvariant = QStr qstring | QLongLong i64

type_synonym qhash = "string \<Rightarrow> qvariant option"

datatype bridge_signal =
    tokenVerify u32
  | authResult qstring u32
  | chatMessageReceived qstring qstring
  | directMessageReceived qstring qstring i64
  | friendRequestResult u32
  | friendListReceived "qstring list" "qstring list"
  | historyReceived "qhash list"
  | chatListReceived "qhash list"
  | friendNewRequest

definition invokeMethod :: "bridge_signal \<Rightarrow> bridge_signal list \<Rightarrow> bridge_signal list" where
  "invokeMethod s queue = queue @ [s]"

section \<open>The constructor\<close>

definition history_entry :: "qt \<Rightarrow> HistoryEntry \<Rightarrow> qhash" where
  "history_entry Q m =
     [''from'' \<mapsto> QStr (fromStdString Q (he_from_login m)),
      ''message'' \<mapsto> QStr (fromStdString Q (he_message m)),
      ''timestamp'' \<mapsto> QLongLong (he_timestamp m)]"

definition chat_entry :: "qt \<Rightarrow> ChatListEntry \<Rightarrow> qhash" where
  "chat_entry Q m =
     [''peer'' \<mapsto> QStr (fromStdString Q (cle_peer_login m)),
      ''message'' \<mapsto> QStr (fromStdString Q (cle_message m)),
      ''timestamp'' \<mapsto> QLongLong (cle_timestamp m)]"

definition NetworkBridge :: "qt \<Rightarrow> bridge_signal list callbacks" where
  "NetworkBridge Q = \<lparr>
     on_token_response = Some (\<lambda>res. invokeMethod (tokenVerify (code_value (tvres_error res)))),
     on_auth_response = Some (\<lambda>res.
       invokeMethod (authResult (fromStdString Q (ares_token res)) (code_value (ares_error res)))),
     on_chat_incoming = Some (\<lambda>res.
       invokeMethod (chatMessageReceived (fromStdString Q (cin_sender_login res))
         (fromStdString Q (cin_message res)))),
     on_dm_incoming = Some (\<lambda>res.
       invokeMethod (directMessageReceived (fromStdString Q (dmin_sender_login res))
         (fromStdString Q (dmin_message res)) (dmin_timestamp res))),
     on_friend_response = Some (\<lambda>res.
       invokeMethod (friendRequestResult (code_value (fres_error res)))),
     on_friend_list_response = Some (\<lambda>res.
       let friends = map (fromStdString Q) (flres_friends res);
           pending = map (fromStdString Q) (flres_pending_incoming res)
       in invokeMethod (friendListReceived friends pending)),
     on_history_response = Some (\<lambda>res.
       let list = map (history_entry Q) (hres_messages res)
       in invokeMethod (historyReceived list)),
     on_chat_list = Some (\<lambda>res.
       let lastMessages = map (chat_entry Q) (clres_chats res)
       in invokeMethod (chatListReceived lastMessages)),
     on_friend_new_request = Some (\<lambda>_. invokeMethod friendNewRequest),
     on_message = None\<rparr>"

end
