(* ===== verification/ClientMain.thy ===== *)
theory ClientMain
  imports ClientHandlerQml NetworkBridge
begin

text \<open>
  \<^verbatim>\<open>client/main.cpp\<close>: the client process. Two threads share the handler: \<^verbatim>\<open>io_thread\<close> runs the
  completion handlers of the socket, the interface's thread runs commands and the queued
  signals. A step is one completion handler, one atomic step of a command, or the delivery of
  one signal. Nothing catches an exception of a completion handler, so it ends the process.
\<close>

section \<open>State\<close>

record client_app =
  handler :: "bridge_signal list async_handler"
  adapter :: adapter
  shown :: "bridge_signal list"

type_synonym 'a app_prog = "(fault, client_app, 'a) prog"

text \<open>
  \<^verbatim>\<open>main\<close>: the handler of a connected socket, which starts to read, the bridge and the adapter.
\<close>

definition client_main :: "qt \<Rightarrow> qfiles \<Rightarrow> client_app" where
  "client_main Q fs = \<lparr>
     handler = \<lparr>callbacks = NetworkBridge Q, messages = [], pending_requests = [],
       base_net = new_net, base_reader = start_reader, base_reading = True, world = []\<rparr>,
     adapter = ClientHandlerQml fs, shown = []\<rparr>"

definition on_adapter :: "'a command \<Rightarrow> 'a app_prog" where
  "on_adapter m A = (case m (adapter A) of (r, a) \<Rightarrow> (r, A\<lparr>adapter := a\<rparr>))"

section \<open>The interface's thread\<close>

text \<open>The two lambdas that \<^verbatim>\<open>main\<close> connects.\<close>

fun connected :: "qt \<Rightarrow> bridge_signal \<Rightarrow> unit command" where
  "connected Q (authResult tok error) =
     (let e = ErrorCode error in if ok e then setToken Q (toStdString Q tok) else ret ())"
| "connected Q (tokenVerify error) =
     (let e = ErrorCode error in
      if ok e then bnd (gets (\<lambda>A. toStdString Q (load Q (storage A)))) (setToken Q) else ret ())"
| "connected Q _ = ret ()"

text \<open>The event loop takes the first closure; \<open>shown\<close> is what the interface was told.\<close>

definition deliver_signal :: "qt \<Rightarrow> client_app \<Rightarrow> ((fault + unit) \<times> client_app) option" where
  "deliver_signal Q A =
     (case world (handler A) of
        [] \<Rightarrow> None
      | s # queue \<Rightarrow>
          Some (on_adapter (connected Q s)
            (A\<lparr>handler := (handler A)\<lparr>world := queue\<rparr>, shown := shown A @ [s]\<rparr>)))"

text \<open>The next step of the command that is running.\<close>

definition thread_handler :: "client_app \<Rightarrow> client_app option" where
  "thread_handler A =
     (case thread_steps (adapter A) of
        [] \<Rightarrow> None
      | t # ts \<Rightarrow> Some (A\<lparr>handler := run_thread_step t (handler A),
          adapter := (adapter A)\<lparr>thread_steps := ts\<rparr>\<rparr>))"

section \<open>The network thread\<close>

definition on_handler :: "(bridge_signal list, 'a) client_prog \<Rightarrow> 'a app_prog" where
  "on_handler m A = (case m (handler A) of (r, h) \<Rightarrow> (r, A\<lparr>handler := h\<rparr>))"

definition set_reader :: "reader \<Rightarrow> (bridge_signal list, unit) client_prog" where
  "set_reader r = modify (\<lambda>H. H\<lparr>base_reader := r\<rparr>)"

definition client_read :: "client_app \<Rightarrow> ((fault + unit) \<times> client_app) option" where
  "client_read A =
     (if \<not> base_reading (handler A) then None
      else (case read_step (base_reader (handler A)) of
              None \<Rightarrow> None
            | Some (None, r) \<Rightarrow> Some (on_handler (set_reader r) A)
            | Some (Some packet, r) \<Rightarrow>
                Some (on_handler (bnd (handle_packet_async (fst packet) (snd packet))
                  (\<lambda>_. set_reader r)) A)))"

definition client_net :: "net_event \<Rightarrow> client_app \<Rightarrow> ((fault + unit) \<times> client_app) option" where
  "client_net e A =
     (case net_step e (base_net (handler A)) of
        None \<Rightarrow> None
      | Some (Inl f) \<Rightarrow> Some (Inl f, A)
      | Some (Inr n) \<Rightarrow> Some (Inr (), A\<lparr>handler := (handler A)\<lparr>base_net := n\<rparr>\<rparr>))"

definition client_read_failed :: "client_app \<Rightarrow> ((fault + unit) \<times> client_app) option" where
  "client_read_failed A =
     (if \<not> base_reading (handler A) then None
      else client_net ReadFailed (A\<lparr>handler := (handler A)\<lparr>base_reading := False\<rparr>\<rparr>))"

definition client_arrive :: "bytes \<Rightarrow> client_app \<Rightarrow> client_app" where
  "client_arrive bs A = A\<lparr>handler := (handler A)\<lparr>base_reader :=
     (base_reader (handler A))\<lparr>inbuf := inbuf (base_reader (handler A)) @ bs\<rparr>\<rparr>\<rparr>"

section \<open>The client process\<close>

text \<open>
  A command or a signal starts when the thread has finished the one before. Bytes that
  arrive from the server are an event as well.
\<close>

datatype client_event =
    Command qml_command
  | ThreadStep
  | Signal
  | ClientRead
  | ClientReadFail
  | ClientRunPost
  | ClientWriteDone bool

fun client_step ::
  "qt \<Rightarrow> env \<Rightarrow> client_event \<Rightarrow> client_app \<Rightarrow> ((fault + unit) \<times> client_app) option" where
  "client_step Q E (Command c) A =
     (if thread_steps (adapter A) = [] then Some (on_adapter (run_command Q E c) A) else None)"
| "client_step Q E ThreadStep A = map_option (\<lambda>A'. (Inr (), A')) (thread_handler A)"
| "client_step Q E Signal A =
     (if thread_steps (adapter A) = [] then deliver_signal Q A else None)"
| "client_step Q E ClientRead A = client_read A"
| "client_step Q E ClientReadFail A = client_read_failed A"
| "client_step Q E ClientRunPost A = client_net RunPosted A"
| "client_step Q E (ClientWriteDone error) A = client_net (WriteDone error) A"

section \<open>From the start to the exit code\<close>

text \<open>
  \<^verbatim>\<open>main\<close> connects before it creates anything else; a refused connection throws, and nothing
  catches that. It returns \<open>-1\<close> when the interface could not be loaded. Otherwise it serves events
  until \<^verbatim>\<open>app.exec\<close> returns the exit code, which happens between two commands; then the
  \<^verbatim>\<open>io_context\<close> is stopped and joined, so closures and bytes that wait are dropped. The refusal, the
  load and the exit code are parameters.
\<close>

datatype client_exit = Returned int | Terminated fault

datatype main_event = Happens client_event | BytesArrive bytes

fun client_exec ::
  "qt \<Rightarrow> env \<Rightarrow> int \<Rightarrow> main_event list \<Rightarrow> client_app \<Rightarrow> (client_exit \<times> client_app) option" where
  "client_exec Q E exitCode [] A =
     (if thread_steps (adapter A) = [] then Some (Returned exitCode, A) else None)"
| "client_exec Q E exitCode (BytesArrive bs # es) A = client_exec Q E exitCode es (client_arrive bs A)"
| "client_exec Q E exitCode (Happens e # es) A =
     (case client_step Q E e A of
        None \<Rightarrow> None
      | Some (Inl f, B) \<Rightarrow> if es = [] then Some (Terminated f, B) else None
      | Some (Inr _, B) \<Rightarrow> client_exec Q E exitCode es B)"

text \<open>What the program leaves: how it ended, and the files.\<close>

definition client_program ::
  "qt \<Rightarrow> env \<Rightarrow> string option \<Rightarrow> bool \<Rightarrow> int \<Rightarrow> main_event list \<Rightarrow> qfiles \<Rightarrow> (client_exit \<times> qfiles) option" where
  "client_program Q E refused no_window exitCode es fs =
     (case refused of
        Some what \<Rightarrow> Some (Terminated (SystemError what), fs)
      | None \<Rightarrow>
          if no_window then Some (Returned (- 1), fs)
          else map_option (\<lambda>(x, B). (x, storage (adapter B)))
            (client_exec Q E exitCode es (client_main Q fs)))"

end
