(* ===== verification/Conversation.thy ===== *)
theory Conversation
  imports Answers ClientMain
begin

text \<open>
  One client and the server together, joined by a TCP connection: the session \<open>sid\<close> of the
  server and the client process, with the bytes on the way in each direction. The server goes
  on serving any other sessions; the two threads of the client, the connection and the server
  take their steps in any order.
\<close>

section \<open>Connection\<close>

text \<open>
  \<open>up\<close> and \<open>down\<close> are the bytes on the way to the server and to the client, \<open>taken_up\<close> and
  \<open>taken_down\<close> how many bytes of what the writers were given have entered the connection. A
  process that an exception ended takes no more steps.
\<close>

record conversation =
  server_side :: process
  client_side :: client_app
  client_fault :: "fault option"
  up :: bytes
  down :: bytes
  taken_up :: nat
  taken_down :: nat

text \<open>What the completed and the outstanding writes of a session handed to the system.\<close>

definition handed :: "net \<Rightarrow> bytes" where
  "handed n = concat (wire n @ in_flight n)"

definition take_bytes :: "nat \<Rightarrow> nat \<Rightarrow> net \<Rightarrow> bytes" where
  "take_bytes taken k n = take k (drop taken (handed n))"

definition client_net_of :: "conversation \<Rightarrow> net" where
  "client_net_of s = base_net (handler (client_side s))"

text \<open>A packet of 4 GiB or more has no header that tells its length.\<close>

definition headers_fit :: "net \<Rightarrow> bool" where
  "headers_fit n \<longleftrightarrow> (\<forall>p \<in> set (accepted n). fits32 (length p - 8))"

definition session_fits :: "nat \<Rightarrow> server \<Rightarrow> bool" where
  "session_fits sid S = (case clients S sid of None \<Rightarrow> True | Some c \<Rightarrow> headers_fit (net c))"

section \<open>Steps\<close>

text \<open>Bytes reach the session \<open>sid\<close> from the client only.\<close>

fun arrives_at :: "nat \<Rightarrow> event \<Rightarrow> bool" where
  "arrives_at sid (Arrive x bs) = (x = sid)"
| "arrives_at sid _ = False"

inductive conversation_step :: "qt \<Rightarrow> env \<Rightarrow> nat \<Rightarrow> conversation \<Rightarrow> conversation \<Rightarrow> bool"
  for Q :: qt and E :: env and sid :: nat where
  serve: "server_side s = Running S \<Longrightarrow> \<not> arrives_at sid e \<Longrightarrow> server_step E e S = Some r \<Longrightarrow>
    session_fits sid (snd r) \<Longrightarrow> conversation_step Q E sid s (s\<lparr>server_side := outcome r\<rparr>)"
| act: "client_fault s = None \<Longrightarrow> client_step Q E e (client_side s) = Some (x, A) \<Longrightarrow>
    headers_fit (base_net (handler A)) \<Longrightarrow>
    conversation_step Q E sid s (s\<lparr>client_side := A,
      client_fault := (case x of Inl f \<Rightarrow> Some f | Inr _ \<Rightarrow> None)\<rparr>)"
| upload: "taken_up s + k \<le> length (handed (client_net_of s)) \<Longrightarrow>
    conversation_step Q E sid s (s\<lparr>up := up s @ take_bytes (taken_up s) k (client_net_of s),
      taken_up := taken_up s + k\<rparr>)"
| download: "server_side s = Running S \<Longrightarrow> clients S sid = Some c \<Longrightarrow>
    taken_down s + k \<le> length (handed (net c)) \<Longrightarrow>
    conversation_step Q E sid s (s\<lparr>down := down s @ take_bytes (taken_down s) k (net c),
      taken_down := taken_down s + k\<rparr>)"
| reach_server: "server_side s = Running S \<Longrightarrow> clients S sid \<noteq> None \<Longrightarrow>
    conversation_step Q E sid s (s\<lparr>server_side := Running (arrive sid (take k (up s)) S),
      up := drop k (up s)\<rparr>)"
| reach_client: "client_fault s = None \<Longrightarrow>
    conversation_step Q E sid s (s\<lparr>client_side := client_arrive (take k (down s)) (client_side s),
      down := drop k (down s)\<rparr>)"

inductive_cases conversation_stepE: "conversation_step Q E sid s t"

text \<open>The server has just accepted the session of a client that was just started.\<close>

definition connected_pair :: "qt \<Rightarrow> qfiles \<Rightarrow> server \<Rightarrow> conversation" where
  "connected_pair Q qfs S = \<lparr>server_side = Running S, client_side = client_main Q qfs,
     client_fault = None, up = [], down = [], taken_up = 0, taken_down = 0\<rparr>"

inductive conversing ::
  "qt \<Rightarrow> env \<Rightarrow> store \<Rightarrow> files \<Rightarrow> qfiles \<Rightarrow> nat \<Rightarrow> conversation \<Rightarrow> bool"
  for Q :: qt and E :: env and s0 :: store and fs :: files and qfs :: qfiles and sid :: nat where
  connect: "reachable E s0 fs (Running S) \<Longrightarrow> clients S sid = Some new_client \<Longrightarrow>
    conversing Q E s0 fs qfs sid (connected_pair Q qfs S)"
| progress: "conversing Q E s0 fs qfs sid s \<Longrightarrow> conversation_step Q E sid s t \<Longrightarrow>
    conversing Q E s0 fs qfs sid t"

section \<open>What a reader will read\<close>

text \<open>
  A reader whose buffer and the bytes that follow are exactly the rest of a stream of frames:
  it will read the packets \<open>ps\<close> and nothing else.
\<close>

definition feeds :: "reader \<Rightarrow> bytes \<Rightarrow> (packet_type \<times> bytes) list \<Rightarrow> bool" where
  "feeds r rest ps \<longleftrightarrow>
     (case rstate r of
        ReadHeader \<Rightarrow> inbuf r @ rest = concat (frames ps)
      | ReadBody t n \<Rightarrow>
          (case ps of
             [] \<Rightarrow> False
           | p # ps' \<Rightarrow> t = fst p \<and> n = length (snd p) \<and> inbuf r @ rest = snd p @ concat (frames ps')))"

lemma feeds_arrive:
  "feeds r (bs @ rest) ps \<Longrightarrow> feeds (r\<lparr>inbuf := inbuf r @ bs\<rparr>) rest ps"
  by (auto simp: feeds_def split: read_state.splits list.splits)

lemma feeds_send: "feeds r rest ps \<Longrightarrow> feeds r (rest @ concat (frames qs)) (ps @ qs)"
  by (auto simp: feeds_def append_assoc [symmetric] simp del: append_assoc
      split: read_state.splits list.splits)

lemma header_alone [simp]:
  "proper_type t \<Longrightarrow> header_type (take 8 (full_packet t b)) = t"
  "header_length (take 8 (full_packet t b)) = of_nat (length b)"
  "drop 8 (full_packet t b) = b"
  using header_of_full_packet [of t b "[]"] by simp_all

lemma feeds_header:
  assumes f: "feeds r rest ps" and "read_step r = Some (None, r')" and ok: "list_all sendable ps"
  shows "feeds r' rest ps"
proof -
  from assms(2) have r: "rstate r = ReadHeader" "8 \<le> length (inbuf r)"
    and r': "r' = \<lparr>inbuf = drop 8 (inbuf r), rstate = parse_header_and_read_body (take 8 (inbuf r))\<rparr>"
    by (auto simp: read_step_def split: read_state.splits if_splits)
  from f r(1) have bytes: "inbuf r @ rest = concat (frames ps)" by (simp add: feeds_def)
  with r(2) obtain t b qs where ps: "ps = (t, b) # qs"
    by (cases ps) auto
  have "take 8 (inbuf r) = take 8 (full_packet t b @ concat (frames qs))"
    using r(2) arg_cong [OF bytes, of "take 8"] by (simp add: ps)
  moreover have "drop 8 (inbuf r) @ rest = b @ concat (frames qs)"
    using r(2) arg_cong [OF bytes, of "drop 8"] by (simp add: ps)
  ultimately show ?thesis
    using ok by (simp add: feeds_def r' ps parse_header_and_read_body_def sendable_def)
qed

lemma feeds_packet:
  assumes "feeds r rest ps" and "read_step r = Some (Some p, r')"
  shows "\<exists>ps'. ps = p # ps' \<and> feeds r' rest ps'"
proof -
  from assms(2) obtain t n where r: "rstate r = ReadBody t n" "n \<le> length (inbuf r)"
    and p: "p = (t, take n (inbuf r))" and r': "r' = \<lparr>inbuf = drop n (inbuf r), rstate = ReadHeader\<rparr>"
    by (auto simp: read_step_def split: read_state.splits if_splits)
  from assms(1) r(1) obtain q ps' where ps: "ps = q # ps'" "t = fst q" "n = length (snd q)"
    and bytes: "inbuf r @ rest = snd q @ concat (frames ps')"
    by (auto simp: feeds_def split: list.splits)
  have "take n (inbuf r) = snd q" "drop n (inbuf r) @ rest = concat (frames ps')"
    using r(2) arg_cong [OF bytes, of "take n"] arg_cong [OF bytes, of "drop n"]
    by (simp_all add: ps)
  with ps p r' show ?thesis by (simp add: feeds_def)
qed

text \<open>A reader that is stuck and to which nothing comes has no packet left to read.\<close>

lemma feeds_nothing:
  assumes "feeds r [] ps" and "read_step r = None"
  shows "ps = []"
  using assms
  by (cases ps) (auto simp: feeds_def read_step_def split: read_state.splits if_splits)

section \<open>Running a conversation\<close>

text \<open>The same steps as a function, for concrete runs.\<close>

datatype link_event =
    Serve event
  | Act client_event
  | Upload nat
  | Download nat
  | ReachServer nat
  | ReachClient nat

fun link_step :: "qt \<Rightarrow> env \<Rightarrow> nat \<Rightarrow> link_event \<Rightarrow> conversation \<Rightarrow> conversation option" where
  "link_step Q E sid (Serve e) s =
     (case server_side s of
        Exited f S \<Rightarrow> None
      | Running S \<Rightarrow>
          (case server_step E e S of
             None \<Rightarrow> None
           | Some r \<Rightarrow>
               if arrives_at sid e \<or> \<not> session_fits sid (snd r) then None
               else Some (s\<lparr>server_side := outcome r\<rparr>)))"
| "link_step Q E sid (Act e) s =
     (if client_fault s \<noteq> None then None
      else (case client_step Q E e (client_side s) of
              None \<Rightarrow> None
            | Some (x, A) \<Rightarrow>
                if headers_fit (base_net (handler A)) then
                  Some (s\<lparr>client_side := A,
                    client_fault := (case x of Inl f \<Rightarrow> Some f | Inr _ \<Rightarrow> None)\<rparr>)
                else None))"
| "link_step Q E sid (Upload k) s =
     (if taken_up s + k \<le> length (handed (client_net_of s)) then
        Some (s\<lparr>up := up s @ take_bytes (taken_up s) k (client_net_of s),
          taken_up := taken_up s + k\<rparr>)
      else None)"
| "link_step Q E sid (Download k) s =
     (case server_side s of
        Exited f S \<Rightarrow> None
      | Running S \<Rightarrow>
          (case clients S sid of
             None \<Rightarrow> None
           | Some c \<Rightarrow>
               if taken_down s + k \<le> length (handed (net c)) then
                 Some (s\<lparr>down := down s @ take_bytes (taken_down s) k (net c),
                   taken_down := taken_down s + k\<rparr>)
               else None))"
| "link_step Q E sid (ReachServer k) s =
     (case server_side s of
        Exited f S \<Rightarrow> None
      | Running S \<Rightarrow>
          if clients S sid = None then None
          else Some (s\<lparr>server_side := Running (arrive sid (take k (up s)) S), up := drop k (up s)\<rparr>))"
| "link_step Q E sid (ReachClient k) s =
     (if client_fault s \<noteq> None then None
      else Some (s\<lparr>client_side := client_arrive (take k (down s)) (client_side s),
        down := drop k (down s)\<rparr>))"

fun link_run :: "qt \<Rightarrow> env \<Rightarrow> nat \<Rightarrow> link_event list \<Rightarrow> conversation \<Rightarrow> conversation option" where
  "link_run Q E sid [] s = Some s"
| "link_run Q E sid (e # es) s =
     (case link_step Q E sid e s of None \<Rightarrow> None | Some t \<Rightarrow> link_run Q E sid es t)"

lemma link_step_sound:
  assumes "link_step Q E sid e s = Some t"
  shows "conversation_step Q E sid s t"
proof (cases e)
  case (Serve e')
  then obtain S r where "server_side s = Running S" "server_step E e' S = Some r"
    "\<not> arrives_at sid e'" "session_fits sid (snd r)" "t = s\<lparr>server_side := outcome r\<rparr>"
    using assms by (auto split: process.splits option.splits if_splits)
  then show ?thesis by (simp add: conversation_step.serve)
qed (use assms in \<open>auto intro: conversation_step.intros
  split: process.splits option.splits if_splits prod.splits\<close>)

lemma link_run_sound:
  "link_run Q E sid es s = Some t \<Longrightarrow> conversing Q E s0 fs qfs sid s \<Longrightarrow>
    conversing Q E s0 fs qfs sid t"
proof (induction es arbitrary: s)
  case (Cons e es)
  then obtain u where "link_step Q E sid e s = Some u" "link_run Q E sid es u = Some t"
    by (auto split: option.splits)
  with Cons show ?case using conversing.progress link_step_sound by blast
qed simp

end
