(* ===== verification/AnswerDecoding.thy ===== *)
theory AnswerDecoding
  imports Answers ClientAsyncHandler
begin

text \<open>
  The client reads back every packet that the server sends: a message whose serialisation is
  shorter than 4 GiB has only lengths that fit their prefixes, so parsing it succeeds.
\<close>

section \<open>Short encodings are well formed\<close>

definition tight :: "('a \<Rightarrow> bytes) \<Rightarrow> ('a \<Rightarrow> bool) \<Rightarrow> bool" where
  "tight enc w \<longleftrightarrow> (\<forall>x. fits32 (length (enc x)) \<longrightarrow> w x)"

named_theorems tight_intros "rules for encodings whose length bounds every length inside"

lemma tightD: "tight enc w \<Longrightarrow> fits32 (length (enc x)) \<Longrightarrow> w x"
  by (simp add: tight_def)

lemma fits32_mono: "fits32 n \<Longrightarrow> m \<le> n \<Longrightarrow> fits32 m"
  by (simp add: fits32_def)

lemma fits32_add: "fits32 (m + n) \<Longrightarrow> fits32 m \<and> fits32 n"
  by (simp add: fits32_def)

lemma length_enc_bytes [simp]: "length (enc_bytes bs) = 4 + length bs"
  by (simp add: enc_bytes_def)

lemma tight_string [tight_intros]: "tight enc_string wf_string"
  by (auto simp: tight_def enc_string_def wf_string_def dest: fits32_add)

lemma tight_any [tight_intros]: "tight enc (\<lambda>_. True)"
  by (simp add: tight_def)

lemma tight_pair [tight_intros]:
  "tight e1 w1 \<Longrightarrow> tight e2 w2 \<Longrightarrow> tight (enc_pair e1 e2) (pred_prod w1 w2)"
  by (auto simp: tight_def dest: fits32_add)

lemma length_concat_ge:
  assumes "\<And>x. 0 < length (e x)"
  shows "length xs \<le> length (concat (map e xs))"
    and "x \<in> set xs \<Longrightarrow> length (e x) \<le> length (concat (map e xs))"
proof -
  show "length xs \<le> length (concat (map e xs))"
  proof (induction xs)
    case (Cons y ys)
    then show ?case using assms [of y] by (simp del: length_greater_0_conv)
  qed simp
  show "x \<in> set xs \<Longrightarrow> length (e x) \<le> length (concat (map e xs))"
    by (induction xs) auto
qed

lemma tight_vector [tight_intros]:
  assumes "tight e w" and "\<And>x. 0 < length (e x)"
  shows "tight (enc_vector e) (wf_vector w)"
  unfolding tight_def
proof (intro allI impI)
  fix xs assume "fits32 (length (enc_vector e xs))"
  then have all: "fits32 (length (concat (map e xs)))"
    by (auto simp: enc_vector_def elim: fits32_mono)
  have "fits32 (length (e x))" if "x \<in> set xs" for x
    using fits32_mono [OF all] length_concat_ge(2) [OF assms(2) that] .
  then show "wf_vector w xs"
    using tightD [OF assms(1)] fits32_mono [OF all length_concat_ge(1) [OF assms(2)]]
    by (simp add: wf_vector_def list_all_iff)
qed

lemma tight_struct [tight_intros]:
  "tight se w \<Longrightarrow> tight (\<lambda>x. enc_bytes (se x)) (\<lambda>x. w x \<and> fits32 (length (se x)))"
  by (auto simp: tight_def dest: fits32_add)

lemma enc_nonempty [simp]: "enc_bytes bs \<noteq> []" "enc_string s \<noteq> []"
  by (simp_all add: enc_string_def enc_bytes_def net_bytes_def)

section \<open>The messages that the client parses\<close>

lemma AuthResponse_fits: "fits32 (length (AuthResponse_serialize r)) \<Longrightarrow> AuthResponse_wf r"
  using tightD [OF tight_pair [OF tight_string tight_any, of enc_error]]
  unfolding AuthResponse_serialize_def AuthResponse_wf_def string_error.serialize_enc
  by fastforce

lemma ChatIncoming_fits: "fits32 (length (ChatIncoming_serialize r)) \<Longrightarrow> ChatIncoming_wf r"
  using tightD [OF tight_pair [OF tight_string tight_string]]
  unfolding ChatIncoming_serialize_def ChatIncoming_wf_def string_pair.serialize_enc
  by fastforce

lemma three_fits:
  "fits32 (length (serialize (ser_pair ser_string (ser_pair ser_string ser_i64)) (a, b, n))) \<Longrightarrow>
    wf_string a \<and> wf_string b"
  using tightD [OF tight_pair [OF tight_string tight_pair [OF tight_string tight_any, of enc_i64]]]
  unfolding string_string_number.serialize_enc by fastforce

lemma DirectMessageIncoming_fits:
  "fits32 (length (DirectMessageIncoming_serialize r)) \<Longrightarrow> DirectMessageIncoming_wf r"
  unfolding DirectMessageIncoming_serialize_def DirectMessageIncoming_wf_def by (rule three_fits)

lemma tight_entries [tight_intros]:
  "tight ChatListEntry_serialize ChatListEntry_wf"
  "tight HistoryEntry_serialize HistoryEntry_wf"
  unfolding tight_def ChatListEntry_serialize_def ChatListEntry_wf_def HistoryEntry_serialize_def
    HistoryEntry_wf_def
  using three_fits by auto

lemma FriendListResponse_fits:
  assumes "fits32 (length (FriendListResponse_serialize r))"
  shows "FriendListResponse_wf r"
proof -
  have "tight (enc_pair (enc_vector enc_string) (enc_pair (enc_vector enc_string) enc_error))
    (pred_prod (wf_vector wf_string) (pred_prod (wf_vector wf_string) (\<lambda>_. True)))"
    by (intro tight_intros) simp_all
  from tightD [OF this] assms show ?thesis
    unfolding FriendListResponse_serialize_def FriendListResponse_wf_def
      string_lists_error.serialize_enc
    by fastforce
qed

lemma ChatListResponse_fits:
  assumes "fits32 (length (ChatListResponse_serialize r))"
  shows "ChatListResponse_wf r"
proof -
  have "tight (enc_pair (enc_vector (\<lambda>x. enc_bytes (ChatListEntry_serialize x))) enc_error)
    (pred_prod (wf_vector (\<lambda>x. ChatListEntry_wf x \<and> fits32 (length (ChatListEntry_serialize x))))
      (\<lambda>_. True))"
    by (intro tight_intros) simp_all
  from tightD [OF this] assms show ?thesis
    unfolding ChatListResponse_serialize_def ChatListResponse_wf_def
      chat_entries_error.serialize_enc
    by fastforce
qed

lemma HistoryResponse_fits:
  assumes "fits32 (length (HistoryResponse_serialize r))"
  shows "HistoryResponse_wf r"
proof -
  have "tight (enc_pair (enc_vector (\<lambda>x. enc_bytes (HistoryEntry_serialize x))) enc_error)
    (pred_prod (wf_vector (\<lambda>x. HistoryEntry_wf x \<and> fits32 (length (HistoryEntry_serialize x))))
      (\<lambda>_. True))"
    by (intro tight_intros) simp_all
  from tightD [OF this] assms show ?thesis
    unfolding HistoryResponse_serialize_def HistoryResponse_wf_def
      history_entries_error.serialize_enc
    by fastforce
qed

text \<open>Hence what the server serialised and the client received whole is read back.\<close>

lemmas whole_roundtrips =
  AuthResponse_roundtrip [where junk = "[]", simplified]
  TokenVerifyResponse_roundtrip [where junk = "[]", simplified]
  FriendResponse_roundtrip [where junk = "[]", simplified]
  FriendListResponse_roundtrip [where junk = "[]", simplified]
  HistoryResponse_roundtrip [where junk = "[]", simplified]
  ChatListResponse_roundtrip [where junk = "[]", simplified]
  ChatIncoming_roundtrip [where junk = "[]", simplified]
  DirectMessageIncoming_roundtrip [where junk = "[]", simplified]

lemmas fits_wf = AuthResponse_fits FriendListResponse_fits ChatListResponse_fits
  HistoryResponse_fits ChatIncoming_fits DirectMessageIncoming_fits

section \<open>The client's handler on the server's packets\<close>

lemma invoke_run: "\<exists>H'. invoke cb x H = (Inr (), H') \<and> pending_requests H' = pending_requests H \<and>
    base_net H' = base_net H \<and> base_reader H' = base_reader H \<and> base_reading H' = base_reading H"
  by (auto simp: invoke_def prog_simps split: option.split)

lemma push_line_run: "push_line l H = (Inr (), H\<lparr>messages :=
    (if length (messages H) \<ge> 200 then tl (messages H @ [l]) else messages H @ [l])\<rparr>)"
  by (simp add: push_line_def prog_simps Let_def)

text \<open>What a handler leaves alone of the connection.\<close>

definition same_link :: "'w async_handler \<Rightarrow> 'w async_handler \<Rightarrow> bool" where
  "same_link H H' \<longleftrightarrow> base_net H' = base_net H \<and> base_reader H' = base_reader H \<and>
     base_reading H' = base_reading H"

definition handles :: "('w, unit) client_prog \<Rightarrow> 'w async_handler \<Rightarrow> packet_type list \<Rightarrow> bool" where
  "handles m H pending \<longleftrightarrow>
     (\<exists>H'. m H = (Inr (), H') \<and> pending_requests H' = pending \<and> same_link H H')"

lemma handles_ret: "handles (ret ()) H (pending_requests H)"
  by (simp add: handles_def same_link_def prog_simps)

lemma handles_invoke: "handles (invoke cb x) H (pending_requests H)"
  using invoke_run [of cb x H] by (auto simp: handles_def same_link_def)

lemma handles_parse:
  "\<exists>x. r = Inr x \<Longrightarrow> handles (bnd (lift_res r) (invoke cb)) H (pending_requests H)"
  using handles_invoke [of cb _ H] by (auto simp: handles_def prog_simps)

lemma handle_answer_handles:
  assumes "answers t b" and "fits32 (length b)"
  shows "handles (handle_answer t b) H (pending_requests H)"
  using assms
  by (cases t) (auto simp: handles_ret fits_wf whole_roundtrips intro!: handles_parse)

lemma handle_packet_note:
  assumes "is_note (t, b)" and "fits32 (length b)"
  shows "handles (handle_packet_async t b) H (pending_requests H)"
proof -
  have "handles (handle_switch t b) H (pending_requests H)"
    using assms by (cases t)
      (auto simp: handle_switch_def handles_invoke fits_wf whole_roundtrips intro!: handles_parse)
  then show ?thesis
    by (auto simp: handle_packet_async_def handles_def same_link_def prog_simps push_line_run)
qed

lemma handle_packet_answer_of:
  assumes "answers t b" and "fits32 (length b)" and "pending_requests H = t # rest"
  shows "handles (handle_packet_async RESULT b) H rest"
proof -
  have "handles (handle_answer t b) (H\<lparr>pending_requests := rest\<rparr>) rest"
    using handle_answer_handles [OF assms(1,2), of "H\<lparr>pending_requests := rest\<rparr>"] by simp
  then show ?thesis
    using assms(3)
    by (auto simp: handle_packet_async_def handle_switch_def handles_def same_link_def prog_simps
        push_line_run)
qed

end
