(* ===== verification/ConversationInvariant.thy ===== *)
theory ConversationInvariant
  imports Conversation AnswerDecoding
begin

text \<open>
  The invariant of a client and the server in conversation. The client's queue of pending
  requests is two queues in a row: the requests whose answers are on the way to the client,
  then the requests that are on the way to the server.
\<close>

section \<open>What one step of the server does to a session\<close>

definition quiet_move :: "client \<Rightarrow> client \<Rightarrow> bool" where
  "quiet_move c c' \<longleftrightarrow>
     (reader c' = reader c \<or> read_step (reader c) = Some (None, reader c')) \<and>
     (\<exists>ps. list_all is_note ps \<and> accepted (net c') = accepted (net c) @ frames ps)"

definition answering :: "packet_type \<Rightarrow> bytes \<Rightarrow> (packet_type \<times> bytes) list \<Rightarrow> bool" where
  "answering t b ps \<longleftrightarrow>
     (\<exists>pushed. list_all is_note pushed \<and>
        (if expects_answer t then \<exists>reply. answers t reply \<and> ps = pushed @ [(RESULT, reply)]
         else ps = pushed))"

definition serving_move :: "client \<Rightarrow> client \<Rightarrow> bool" where
  "serving_move c c' \<longleftrightarrow>
     (\<exists>t b ps. read_step (reader c) = Some (Some (t, b), reader c') \<and> answering t b ps \<and>
        accepted (net c') = accepted (net c) @ frames ps)"

definition session_moves :: "nat \<Rightarrow> server \<Rightarrow> server \<Rightarrow> bool" where
  "session_moves sid S S' \<longleftrightarrow> next_client S \<le> next_client S' \<and>
     (case clients S sid of
        None \<Rightarrow> sid < next_client S \<longrightarrow> clients S' sid = None
      | Some c \<Rightarrow> (case clients S' sid of None \<Rightarrow> True
          | Some c' \<Rightarrow> quiet_move c c' \<or> serving_move c c'))"

lemma quiet_same: "reader c' = reader c \<Longrightarrow> accepted (net c') = accepted (net c) \<Longrightarrow> quiet_move c c'"
  by (auto simp: quiet_move_def intro: exI [of _ "[]"])

lemma quiet_told: "told is_note c c' \<Longrightarrow> quiet_move c c'"
  by (auto simp: told_def quiet_move_def)

lemma moves_grown:
  assumes "grown sid (view sid S) S'"
  shows "session_moves sid S S'"
  using assms
  by (cases "clients S sid"; cases "clients S' sid")
    (auto simp: session_moves_def grown_def view_def quiet_told)

lemma moves_net_handler:
  assumes "server_inv S" and "net_handler x e S = Some (Inr u, S')" and "sent_packets [e] = []"
  shows "session_moves sid S S'"
proof -
  from assms(2) obtain c n where c: "clients S x = Some c" and n: "net_step e (net c) = Some (Inr n)"
    and S': "S' = update_client x (\<lambda>c. c\<lparr>net := n\<rparr>) S"
    by (auto simp: net_handler_def split: option.splits sum.splits)
  from c assms(1) have "net_inv (net c)" by (auto simp: server_inv_def clients_inv_def)
  from net_step_inv [OF this n] assms(3) have "accepted n = accepted (net c)" by auto
  with c S' show ?thesis
    by (auto simp: session_moves_def quiet_same split: option.splits)
qed

lemma moves_read_complete:
  assumes "read_complete E x S = Some (Inr u, S')"
  shows "session_moves sid S S'"
proof -
  from assms obtain c p r where c: "clients S x = Some c" and r: "read_step (reader c) = Some (p, r)"
    by (auto simp: read_complete_def split: option.splits if_splits)
  show ?thesis
  proof (cases p)
    case None
    with assms c r have "S' = update_client x (\<lambda>c. c\<lparr>reader := r\<rparr>) S"
      by (auto simp: read_complete_def prog_simps split: if_splits)
    with c r None show ?thesis
      by (auto simp: session_moves_def quiet_move_def split: option.splits intro: exI [of _ "[]"])
  next
    case (Some packet)
    obtain t b where tb: "packet = (t, b)" by force
    with assms c r Some have "read_handler E x (t, b) r S = (Inr u, S')"
      by (auto simp: read_complete_def split: if_splits)
    then obtain v S2 where h: "handle_packet E x t b S = (Inr v, S2)"
      and S': "S' = update_client x (\<lambda>c. c\<lparr>reader := r\<rparr>) S2"
      by (auto simp: read_handler_def prog_simps elim!: bnd_InrE)
    from handle_packet_says [OF h] obtain S1 where g0: "\<forall>y. grown y (view y S) S1"
      and S2: "if expects_answer t then \<exists>reply. answers t reply \<and> S2 = answered x t reply S1
        else S2 = S1" by blast
    have g: "grown y (view y S) S1" for y using g0 by blast
    show ?thesis
    proof (cases "sid = x")
      case False
      with S2 S' have "clients S' sid = clients S1 sid" "next_client S' = next_client S1"
        by (auto split: if_splits)
      with moves_grown [OF g [of sid]] show ?thesis unfolding session_moves_def by (simp only:)
    next
      case True
      from g [of x] c obtain c1 where c1: "clients S1 x = Some c1" "told is_note c c1"
        and nc: "next_client S1 = next_client S"
        by (cases "clients S1 x") (auto simp: grown_def view_def)
      from c1(2) obtain pushed where pushed: "list_all is_note pushed" "net c1 = sent pushed (net c)"
        by (auto simp: told_def)
      obtain ps c2 where c2: "clients S' x = Some c2" "reader c2 = r"
        and acc: "accepted (net c2) = accepted (net c) @ frames ps" and ps: "answering t b ps"
      proof (cases "expects_answer t")
        case True
        with S2 obtain reply where reply: "answers t reply" "S2 = answered x t reply S1" by auto
        with True pushed c1 S' that [of _ "pushed @ [(RESULT, reply)]"] show ?thesis
          by (auto simp: answering_def send_packet_sent)
      next
        case False
        with S2 pushed c1 S' that [of _ pushed] show ?thesis by (auto simp: answering_def)
      qed
      have "next_client S' = next_client S" using S2 S' nc by (auto split: if_splits)
      moreover have "serving_move c c2"
        unfolding serving_move_def using r Some tb c2(2) acc ps by blast
      ultimately show ?thesis using True c c2 by (simp add: session_moves_def)
    qed
  qed
qed

lemma server_step_moves:
  assumes inv: "server_inv S" and step: "server_step E e S = Some (Inr u, S')"
    and other: "\<not> arrives_at sid e"
  shows "session_moves sid S S'"
proof (cases e)
  case (Accept error)
  have "clients S (next_client S) = None"
    using inv by (auto simp: server_inv_def clients_inv_def intro: ccontr)
  with Accept step show ?thesis
    by (auto simp: accept_handler_def prog_simps session_moves_def quiet_same
        split: if_splits option.splits)
next
  case (Arrive x bs)
  with step other show ?thesis
    by (auto simp: arrive_def session_moves_def quiet_same split: if_splits option.splits)
next
  case (ReadComplete x)
  with step moves_read_complete show ?thesis by simp
next
  case (ReadFail x)
  let ?S = "update_client x (\<lambda>c. c\<lparr>reading := False\<rparr>) S"
  from ReadFail step have h: "net_handler x ReadFailed ?S = Some (Inr u, S')"
    by (auto simp: read_failed_def split: option.splits if_splits)
  have "server_inv ?S" using inv by (rule server_inv_update_client) simp
  from moves_net_handler [OF this h] have "session_moves sid ?S S'" by simp
  then show ?thesis
    by (auto simp: session_moves_def quiet_move_def serving_move_def split: option.splits if_splits)
next
  case (Release x)
  with step show ?thesis
    by (auto simp: release_def destroy_session_def removeUser_def session_moves_def quiet_same Let_def
        split: option.splits if_splits)
next
  case (TimerFired error)
  with step show ?thesis
    by (auto simp: timer_handler_def on_db_def schedule_def prog_simps session_moves_def quiet_same
        split: if_splits option.splits prod.splits sum.splits elim!: bnd_InrE)
qed (use step inv moves_net_handler in auto)

section \<open>The invariant\<close>

definition session_of :: "nat \<Rightarrow> conversation \<Rightarrow> client option" where
  "session_of sid s = (case server_side s of Running S \<Rightarrow> clients S sid | Exited f S \<Rightarrow> None)"

definition pending_of :: "conversation \<Rightarrow> packet_type list" where
  "pending_of s = pending_requests (handler (client_side s))"

definition steps_of :: "conversation \<Rightarrow> thread_step list" where
  "steps_of s = thread_steps (adapter (client_side s))"

definition requests_in :: "(packet_type \<times> bytes) list \<Rightarrow> packet_type list" where
  "requests_in ps = map fst (filter (\<lambda>p. expects_answer (fst p)) ps)"

definition answers_in :: "(packet_type \<times> bytes) list \<Rightarrow> bytes list" where
  "answers_in ps = map snd (filter (\<lambda>p. fst p = RESULT) ps)"

definition said :: "packet_type \<times> bytes \<Rightarrow> bool" where
  "said p \<longleftrightarrow> fst p = RESULT \<or> is_note p"

text \<open>The request that the interface's thread has pushed and not posted yet.\<close>

fun in_hand :: "thread_step list \<Rightarrow> packet_type list" where
  "in_hand [PostPacket t b] = (if expects_answer t then [t] else [])"
| "in_hand _ = []"

definition thread_shape :: "thread_step list \<Rightarrow> bool" where
  "thread_shape ts \<longleftrightarrow> ts = [] \<or> (\<exists>t b. expects_answer t \<and> proper_type t \<and> ts = send_request t b) \<or>
     (\<exists>t b. proper_type t \<and> ts = [PostPacket t b])"

text \<open>
  \<open>A\<close> is on the way to the server, \<open>D\<close> on the way to the client, \<open>ts\<close> are the requests that \<open>D\<close>
  answers and \<open>out\<close> those still to be answered. When the session is gone nothing more comes.
\<close>

definition flowing ::
  "nat \<Rightarrow> conversation \<Rightarrow> (packet_type \<times> bytes) list \<Rightarrow> (packet_type \<times> bytes) list \<Rightarrow> bytes \<Rightarrow>
    packet_type list \<Rightarrow> packet_type list \<Rightarrow> bool" where
  "flowing sid s A D rest ts out \<longleftrightarrow>
     list_all sendable A \<and> list_all sendable D \<and> list_all said D \<and>
     feeds (base_reader (handler (client_side s))) (down s @ rest) D \<and>
     list_all2 answers ts (answers_in D) \<and> pending_of s = ts @ out \<and>
     (\<forall>c. session_of sid s = Some c \<longrightarrow>
        rest = drop (taken_down s) (concat (accepted (net c))) \<and>
        taken_down s \<le> length (concat (accepted (net c))) \<and>
        feeds (reader c) (up s @ drop (taken_up s) (concat (accepted (client_net_of s)))) A \<and>
        out = requests_in A @ in_hand (steps_of s))"

definition steady :: "nat \<Rightarrow> conversation \<Rightarrow> bool" where
  "steady sid s \<longleftrightarrow>
     (\<forall>S. server_side s = Running S \<longrightarrow> server_inv S \<and> sid < next_client S) \<and>
     client_fault s = None \<and> net_inv (client_net_of s) \<and> thread_shape (steps_of s) \<and>
     taken_up s \<le> length (concat (accepted (client_net_of s)))"

definition conversation_inv :: "nat \<Rightarrow> conversation \<Rightarrow> bool" where
  "conversation_inv sid s \<longleftrightarrow> steady sid s \<and> (\<exists>A D rest ts out. flowing sid s A D rest ts out)"

lemma conversation_invI: "flowing sid s A D rest ts out \<Longrightarrow> steady sid s \<Longrightarrow> conversation_inv sid s"
  unfolding conversation_inv_def by blast

lemma conversation_invE:
  assumes "conversation_inv sid s"
  obtains A D rest ts out where "flowing sid s A D rest ts out" and "steady sid s"
  using assms unfolding conversation_inv_def by blast

lemma in_simps [simp]:
  "requests_in [] = []"
  "requests_in (p # ps) = (if expects_answer (fst p) then fst p # requests_in ps else requests_in ps)"
  "requests_in (ps @ qs) = requests_in ps @ requests_in qs"
  "answers_in [] = []"
  "answers_in (p # ps) = (if fst p = RESULT then snd p # answers_in ps else answers_in ps)"
  "answers_in (ps @ qs) = answers_in ps @ answers_in qs"
  by (simp_all add: requests_in_def answers_in_def)

lemma answers_in_pushed: "list_all is_note ps \<Longrightarrow> answers_in ps = []"
  by (induction ps) (auto dest: is_note_not_result)

lemma said_proper: "said p \<Longrightarrow> proper_type (fst p)"
  by (cases p rule: is_note.cases) (auto simp: said_def)

lemma expects_proper: "expects_answer t \<Longrightarrow> proper_type t"
  by (cases t) (auto simp: expects_answer_def)

lemma answering_said:
  "answering t b ps \<Longrightarrow> list_all said ps \<and>
    list_all2 answers (if expects_answer t then [t] else []) (answers_in ps)"
  by (auto simp: answering_def said_def list_all_iff answers_in_pushed split: if_splits)

lemma headers_fit_sendable:
  assumes "headers_fit n" and "set (frames ps) \<subseteq> set (accepted n)"
    and "\<forall>p \<in> set ps. proper_type (fst p)"
  shows "list_all sendable ps"
  unfolding list_all_iff
proof
  fix p assume p: "p \<in> set ps"
  then have "full_packet (fst p) (snd p) \<in> set (frames ps)"
    by (auto simp: frames_def case_prod_beta)
  with assms(2) have "full_packet (fst p) (snd p) \<in> set (accepted n)" by blast
  with assms(1) have "fits32 (length (full_packet (fst p) (snd p)) - 8)"
    unfolding headers_fit_def by blast
  with assms(3) p show "sendable p" by (simp add: sendable_def)
qed

section \<open>Steps of the server\<close>

lemma flowing_server:
  assumes f: "flowing sid s A D rest ts out" and c: "session_of sid s = Some c"
    and c': "clients S' sid = Some c'" and fit: "headers_fit (net c')"
    and acc: "accepted (net c') = accepted (net c) @ frames ps"
    and said: "list_all said ps" and A': "list_all sendable A'"
    and up: "feeds (reader c') (up s @ drop (taken_up s) (concat (accepted (client_net_of s)))) A'"
    and new: "requests_in A = new @ requests_in A'" "list_all2 answers new (answers_in ps)"
  shows "flowing sid (s\<lparr>server_side := Running S'\<rparr>) A' (D @ ps) (rest @ concat (frames ps))
    (ts @ new) (requests_in A' @ in_hand (steps_of s))"
proof -
  have "list_all sendable ps"
    using headers_fit_sendable [OF fit, of ps] said said_proper by (auto simp: acc list_all_iff)
  moreover have "feeds (base_reader (handler (client_side s))) ((down s @ rest) @ concat (frames ps)) (D @ ps)"
    using f by (intro feeds_send) (simp add: flowing_def)
  ultimately show ?thesis
    using f c c' acc said A' up new
    by (simp add: flowing_def session_of_def pending_of_def steps_of_def client_net_of_def
        list_all2_appendI)
qed

lemma flowing_gone:
  assumes "flowing sid s A D rest ts out" and "session_of sid (s\<lparr>server_side := p\<rparr>) = None"
  shows "flowing sid (s\<lparr>server_side := p\<rparr>) A D rest ts out"
  using assms by (simp add: flowing_def pending_of_def)

lemma flowing_moves:
  assumes f: "flowing sid s A D rest ts out" and c: "session_of sid s = Some c"
    and c': "clients S' sid = Some c'" and fit: "headers_fit (net c')"
    and moves: "quiet_move c c' \<or> serving_move c c'"
  shows "\<exists>A D rest ts out. flowing sid (s\<lparr>server_side := Running S'\<rparr>) A D rest ts out"
proof -
  let ?line = "up s @ drop (taken_up s) (concat (accepted (client_net_of s)))"
  have up: "feeds (reader c) ?line A" and ok: "list_all sendable A"
    using f c by (auto simp: flowing_def)
  from moves show ?thesis
  proof
    assume "quiet_move c c'"
    then obtain ps where ps: "list_all is_note ps"
        "accepted (net c') = accepted (net c) @ frames ps"
      and rd: "reader c' = reader c \<or> read_step (reader c) = Some (None, reader c')"
      by (auto simp: quiet_move_def)
    have said: "list_all said ps" using ps(1) by (simp add: said_def list_all_iff)
    have "feeds (reader c') ?line A" using rd up feeds_header [OF up _ ok] by auto
    from flowing_server [OF f c c' fit ps(2) said ok this, of "[]"] ps(1)
    show ?thesis by (simp add: answers_in_pushed) blast
  next
    assume "serving_move c c'"
    then obtain t b ps where rd: "read_step (reader c) = Some (Some (t, b), reader c')"
      and ps: "answering t b ps" "accepted (net c') = accepted (net c) @ frames ps"
      by (auto simp: serving_move_def)
    from feeds_packet [OF up rd] obtain A' where A: "A = (t, b) # A'"
      and up': "feeds (reader c') ?line A'" by blast
    let ?new = "if expects_answer t then [t] else []"
    have "requests_in A = ?new @ requests_in A'" "list_all sendable A'" using A ok by simp_all
    with flowing_server [OF f c c' fit ps(2) _ _ up', of ?new] answering_said [OF ps(1)]
    show ?thesis by blast
  qed
qed

lemma serve_keeps:
  assumes inv: "conversation_inv sid s" and S: "server_side s = Running S"
    and other: "\<not> arrives_at sid e" and step: "server_step E e S = Some r"
    and fit: "session_fits sid (snd r)"
  shows "conversation_inv sid (s\<lparr>server_side := outcome r\<rparr>)"
proof -
  let ?s = "s\<lparr>server_side := outcome r\<rparr>"
  from inv obtain A D rest ts out where f: "flowing sid s A D rest ts out" and st: "steady sid s"
    by (rule conversation_invE)
  have si: "server_inv S" "sid < next_client S" using st S by (auto simp: steady_def)
  have gone: "session_of sid ?s = None \<Longrightarrow> \<exists>A D rest ts out. flowing sid ?s A D rest ts out"
    using flowing_gone [OF f, of "outcome r"] by blast
  obtain x S1 where r: "r = (x, S1)" by force
  have "(\<exists>A D rest ts out. flowing sid ?s A D rest ts out) \<and>
    (\<forall>S'. outcome r = Running S' \<longrightarrow> server_inv S' \<and> sid < next_client S')"
  proof (cases x)
    case (Inl f)
    then show ?thesis using gone by (simp add: r outcome_def session_of_def)
  next
    case (Inr u)
    then have out: "outcome r = Running S1" by (simp add: r outcome_def)
    have moves: "session_moves sid S S1"
      using server_step_moves [OF si(1) _ other] step r Inr by blast
    then have alive: "server_inv S1 \<and> sid < next_client S1"
      using server_step_inv [OF si(1) step] si(2) r by (auto simp: session_moves_def)
    show ?thesis
    proof (cases "clients S1 sid")
      case None
      then show ?thesis using gone alive by (simp add: out session_of_def)
    next
      case (Some c')
      with moves si(2) obtain c where "clients S sid = Some c"
        and "quiet_move c c' \<or> serving_move c c'"
        by (cases "clients S sid") (auto simp: session_moves_def)
      moreover have "headers_fit (net c')" using fit Some r by (simp add: session_fits_def)
      ultimately show ?thesis
        using flowing_moves [OF f _ Some] S alive by (simp add: out session_of_def)
    qed
  qed
  with st show ?thesis
    by (simp add: conversation_inv_def steady_def client_net_of_def steps_of_def)
qed

section \<open>Steps of the connection\<close>

lemma handed_prefix:
  assumes "net_inv n"
  obtains more where "concat (accepted n) = handed n @ more"
proof -
  have "\<exists>more. wire n @ write_queue n @ posted n = wire n @ in_flight n @ more"
    using assms by (cases "write_queue n") (auto simp: net_inv_def)
  then obtain more where "accepted n = (wire n @ in_flight n) @ more" by (auto simp: accepted_def)
  then have "concat (accepted n) = handed n @ concat more" by (simp add: handed_def)
  then show ?thesis by (rule that)
qed

lemma take_bytes_split:
  assumes "net_inv n" and "taken + k \<le> length (handed n)"
  shows "take_bytes taken k n @ drop (taken + k) (concat (accepted n)) = drop taken (concat (accepted n))"
    and "taken + k \<le> length (concat (accepted n))"
proof -
  from handed_prefix [OF assms(1)] obtain more where acc: "concat (accepted n) = handed n @ more" .
  with assms(2) have "take_bytes taken k n = take k (drop taken (concat (accepted n)))"
    by (simp add: take_bytes_def)
  then show "take_bytes taken k n @ drop (taken + k) (concat (accepted n)) =
      drop taken (concat (accepted n))"
    by (simp add: add.commute flip: drop_drop)
  show "taken + k \<le> length (concat (accepted n))" using assms(2) acc by simp
qed

lemma upload_keeps:
  assumes inv: "conversation_inv sid s" and k: "taken_up s + k \<le> length (handed (client_net_of s))"
  shows "conversation_inv sid (s\<lparr>up := up s @ take_bytes (taken_up s) k (client_net_of s),
      taken_up := taken_up s + k\<rparr>)"
proof -
  have "net_inv (client_net_of s)" using inv by (simp add: conversation_inv_def steady_def)
  from take_bytes_split [OF this k] inv show ?thesis
    by (simp add: conversation_inv_def steady_def client_net_of_def flowing_def session_of_def pending_of_def
        steps_of_def)
qed

lemma download_keeps:
  assumes inv: "conversation_inv sid s" and S: "server_side s = Running S" "clients S sid = Some c"
    and k: "taken_down s + k \<le> length (handed (net c))"
  shows "conversation_inv sid (s\<lparr>down := down s @ take_bytes (taken_down s) k (net c),
      taken_down := taken_down s + k\<rparr>)"
proof -
  have "net_inv (net c)"
    using inv S by (auto simp: conversation_inv_def steady_def server_inv_def clients_inv_def)
  note split = take_bytes_split [OF this k]
  from inv obtain A D rest ts out where "flowing sid s A D rest ts out" and st: "steady sid s"
    by (rule conversation_invE)
  moreover from this S have "rest = drop (taken_down s) (concat (accepted (net c)))"
    by (simp add: flowing_def session_of_def)
  ultimately have f: "flowing sid s A D (drop (taken_down s) (concat (accepted (net c)))) ts out"
    by blast
  have "flowing sid (s\<lparr>down := down s @ take_bytes (taken_down s) k (net c),
      taken_down := taken_down s + k\<rparr>) A D (drop (taken_down s + k) (concat (accepted (net c)))) ts out"
    using f S split by (simp add: flowing_def session_of_def pending_of_def steps_of_def
        client_net_of_def)
  then show ?thesis
    by (rule conversation_invI) (use st in \<open>simp add: steady_def client_net_of_def steps_of_def\<close>)
qed

lemma reach_server_keeps:
  assumes inv: "conversation_inv sid s" and S: "server_side s = Running S" "clients S sid \<noteq> None"
  shows "conversation_inv sid (s\<lparr>server_side := Running (arrive sid (take k (up s)) S),
      up := drop k (up s)\<rparr>)"
proof -
  let ?s = "s\<lparr>server_side := Running (arrive sid (take k (up s)) S), up := drop k (up s)\<rparr>"
  obtain c where c: "clients S sid = Some c" using S(2) by blast
  from inv obtain A D rest ts out where f: "flowing sid s A D rest ts out" and st: "steady sid s"
    by (rule conversation_invE)
  then have "feeds (reader c) (take k (up s) @ drop k (up s) @
      drop (taken_up s) (concat (accepted (client_net_of s)))) A"
    using S(1) c by (simp add: flowing_def session_of_def flip: append_assoc)
  from feeds_arrive [OF this] f S(1) c have "flowing sid ?s A D rest ts out"
    by (auto simp: flowing_def session_of_def pending_of_def steps_of_def client_net_of_def arrive_def)
  moreover have "server_inv (arrive sid (take k (up s)) S)"
    using server_step_inv [of S E "Arrive sid (take k (up s))"] st S by (auto simp: steady_def)
  ultimately show ?thesis
    by (intro conversation_invI [of _ ?s])
      (use st S(1) in \<open>simp_all add: steady_def client_net_of_def steps_of_def arrive_def\<close>)
qed

lemma reach_client_keeps:
  assumes inv: "conversation_inv sid s"
  shows "conversation_inv sid (s\<lparr>client_side := client_arrive (take k (down s)) (client_side s),
      down := drop k (down s)\<rparr>)"
proof -
  let ?s = "s\<lparr>client_side := client_arrive (take k (down s)) (client_side s), down := drop k (down s)\<rparr>"
  from inv obtain A D rest ts out where f: "flowing sid s A D rest ts out" and st: "steady sid s"
    by (rule conversation_invE)
  then have "feeds (base_reader (handler (client_side s))) (take k (down s) @ drop k (down s) @ rest) D"
    by (simp add: flowing_def flip: append_assoc)
  from feeds_arrive [OF this] f have "flowing sid ?s A D rest ts out"
    by (simp add: flowing_def session_of_def pending_of_def steps_of_def client_net_of_def
        client_arrive_def)
  then show ?thesis
    by (rule conversation_invI)
      (use st in \<open>simp add: steady_def client_net_of_def steps_of_def client_arrive_def\<close>)
qed

section \<open>Steps of the client\<close>

text \<open>
  A step of the client that may post the packets \<open>qs\<close>, and leaves \<open>D'\<close> to be read, of which the
  requests \<open>ts'\<close> are answered.
\<close>

definition client_moves ::
  "conversation \<Rightarrow> client_app \<Rightarrow> (packet_type \<times> bytes) list \<Rightarrow> packet_type list \<Rightarrow> packet_type list \<Rightarrow> bool"
  where
  "client_moves s B qs out out' \<longleftrightarrow>
     net_inv (base_net (handler B)) \<and>
     accepted (base_net (handler B)) = accepted (client_net_of s) @ frames qs \<and>
     list_all sendable qs \<and> thread_shape (thread_steps (adapter B)) \<and>
     (\<forall>A. out = requests_in A @ in_hand (steps_of s) \<longrightarrow>
        out' = requests_in (A @ qs) @ in_hand (thread_steps (adapter B)))"

lemma client_keeps:
  assumes f: "flowing sid s A D rest ts out" and st: "steady sid s"
    and moves: "client_moves s B qs out out'"
    and reads: "feeds (base_reader (handler B)) (down s @ rest) D'" "list_all sendable D'"
      "list_all said D'" "list_all2 answers ts' (answers_in D')"
    and pending: "pending_requests (handler B) = ts' @ out'"
  shows "conversation_inv sid (s\<lparr>client_side := B, client_fault := None\<rparr>)"
proof (rule conversation_invI)
  let ?s = "s\<lparr>client_side := B, client_fault := None\<rparr>"
  have "feeds (reader c) ((up s @ drop (taken_up s) (concat (accepted (client_net_of s)))) @
      concat (frames qs)) (A @ qs)" if "session_of sid s = Some c" for c
    using f that by (intro feeds_send) (simp add: flowing_def)
  then show "flowing sid ?s (A @ qs) D' rest ts' out'"
    using f moves reads pending st
    by (auto simp: flowing_def client_moves_def session_of_def pending_of_def steps_of_def
        client_net_of_def steady_def)
  show "steady sid ?s"
    using st moves by (auto simp: steady_def client_moves_def client_net_of_def steps_of_def)
qed

text \<open>A step that neither sends nor reads a packet.\<close>

lemma client_keeps_idle:
  assumes f: "flowing sid s A D rest ts out" and st: "steady sid s"
    and net: "net_inv (base_net (handler B))" "accepted (base_net (handler B)) = accepted (client_net_of s)"
    and rd: "base_reader (handler B) = base_reader (handler (client_side s)) \<or>
      read_step (base_reader (handler (client_side s))) = Some (None, base_reader (handler B))"
    and pending: "pending_requests (handler B) = pending_of s"
    and thread: "thread_shape (thread_steps (adapter B))" "in_hand (thread_steps (adapter B)) = in_hand (steps_of s)"
  shows "conversation_inv sid (s\<lparr>client_side := B, client_fault := None\<rparr>)"
proof -
  have "feeds (base_reader (handler (client_side s))) (down s @ rest) D" "list_all sendable D"
    using f by (auto simp: flowing_def)
  then have reads: "feeds (base_reader (handler B)) (down s @ rest) D" using rd feeds_header by auto
  have "client_moves s B [] out out"
    using net thread by (simp add: client_moves_def)
  from client_keeps [OF f st this reads, of ts] f pending show ?thesis
    unfolding flowing_def by simp
qed

lemma send_request_shape:
  "expects_answer t \<Longrightarrow> thread_shape (send_request t b) \<and> in_hand (send_request t b) = []"
  using expects_proper by (auto simp: thread_shape_def send_request_def)

text \<open>Every command leaves one request, one packet without an answer, or nothing to send.\<close>

lemma expects_simps [simp]:
  "expects_answer REGISTER" "expects_answer LOGIN" "expects_answer TOKEN_VERIFY"
  "expects_answer MESSAGE" "expects_answer FRIEND_REQUEST" "expects_answer FRIEND_ACCEPT"
  "expects_answer FRIEND_REJECT" "expects_answer FRIEND_LIST" "expects_answer DIRECT_MESSAGE"
  "expects_answer MESSAGE_HISTORY" "expects_answer CHAT_LIST" "\<not> expects_answer LOGOUT"
  by (simp_all add: expects_answer_def)

lemmas command_defs = checkSavedToken_def logout_qml_def registerUser_qml_def loginUser_def
  uploadFile_def downloadFile_def sendMessageGeneralChat_def sendFriendRequest_def
  acceptFriendRequest_def rejectFriendRequest_def getFriendList_def sendDirectMessage_def
  getHistoryDirectMessage_def getLastMessages_qml_def locked_def p_send_request_def
  p_send_packet_def emit_def

lemma command_shape:
  assumes "thread_steps a = []"
  shows "\<exists>a'. run_command Q E c a = (Inr (), a') \<and> thread_shape (thread_steps a') \<and>
    in_hand (thread_steps a') = []"
  using assms
  by (cases c; cases "handler_alive a"; cases "token a = []"; cases "load Q (storage a) = []";
      simp add: command_defs prog_simps bnd_assoc send_request_shape Let_def)
    (simp_all add: thread_shape_def)

lemma connected_shape:
  "\<exists>a'. connected Q sig a = (Inr (), a') \<and> thread_steps a' = thread_steps a"
  by (cases sig) (simp_all add: setToken_def emit_def prog_simps Let_def)

lemma client_net_keeps:
  assumes f: "flowing sid s A D rest ts out" and st: "steady sid s"
    and C: "base_net (handler C) = client_net_of s" "base_reader (handler C) = base_reader (handler (client_side s))"
      "pending_requests (handler C) = pending_of s" "adapter C = adapter (client_side s)"
    and step: "client_net e C = Some (x, B)" and e: "sent_packets [e] = []"
  shows "x = Inr () \<and> conversation_inv sid (s\<lparr>client_side := B, client_fault := None\<rparr>)"
proof -
  have "net_inv (base_net (handler C))" using st C by (simp add: steady_def)
  moreover from step obtain r where r: "net_step e (base_net (handler C)) = Some r"
    by (auto simp: client_net_def split: option.splits)
  ultimately obtain n where n: "r = Inr n" "net_inv n" "accepted n = accepted (client_net_of s)"
    using net_step_inv e C by fastforce
  with step r have "x = Inr ()" "B = C\<lparr>handler := (handler C)\<lparr>base_net := n\<rparr>\<rparr>"
    by (simp_all add: client_net_def)
  with client_keeps_idle [OF f st, of B] n C st show ?thesis
    by (simp add: steady_def steps_of_def)
qed

lemma thread_keeps:
  assumes f: "flowing sid s A D rest ts out" and st: "steady sid s"
    and step: "thread_handler (client_side s) = Some B" and fit: "headers_fit (base_net (handler B))"
  shows "conversation_inv sid (s\<lparr>client_side := B, client_fault := None\<rparr>)"
proof -
  let ?C = "client_side s"
  have reads: "feeds (base_reader (handler ?C)) (down s @ rest) D" "list_all sendable D" "list_all said D"
      "list_all2 answers ts (answers_in D)" and pending: "pending_of s = ts @ out"
    using f by (auto simp: flowing_def)
  have "thread_shape (steps_of s)" using st by (simp add: steady_def)
  with step consider (push) t b where "expects_answer t" "proper_type t" "steps_of s = send_request t b"
    | (post) t b where "proper_type t" "steps_of s = [PostPacket t b]"
    by (auto simp: thread_shape_def thread_handler_def steps_of_def)
  then show ?thesis
  proof cases
    case push
    with step have B: "base_reader (handler B) = base_reader (handler ?C)"
      "base_net (handler B) = client_net_of s" "pending_requests (handler B) = ts @ out @ [t]"
      "thread_steps (adapter B) = [PostPacket t b]"
      using pending by (auto simp: thread_handler_def send_request_def steps_of_def client_net_of_def
          pending_of_def)
    have "client_moves s B [] out (out @ [t])"
      using push B st by (auto simp: client_moves_def thread_shape_def steady_def send_request_def)
    from client_keeps [OF f st this _ reads(2-4)] reads(1) B show ?thesis by simp
  next
    case post
    with step have B: "base_reader (handler B) = base_reader (handler ?C)"
      "base_net (handler B) = sent [(t, b)] (client_net_of s)" "pending_requests (handler B) = ts @ out"
      "thread_steps (adapter B) = []"
      using pending by (auto simp: thread_handler_def steps_of_def client_net_of_def
          pending_of_def send_packet_sent)
    have "list_all sendable [(t, b)]"
      using headers_fit_sendable [OF fit, of "[(t, b)]"] post(1) by (simp add: B)
    moreover have "net_inv (base_net (handler B))"
      using st by (simp add: B steady_def flip: send_packet_sent)
    ultimately have "client_moves s B [(t, b)] out out"
      using post B by (simp add: client_moves_def thread_shape_def)
    from client_keeps [OF f st this _ reads(2-4)] reads(1) B show ?thesis by simp
  qed
qed

text \<open>The packet that the client reads next is one that the server sent.\<close>

lemma read_keeps:
  assumes f: "flowing sid s A D rest ts out" and st: "steady sid s"
    and step: "client_read (client_side s) = Some (x, B)"
  shows "x = Inr () \<and> conversation_inv sid (s\<lparr>client_side := B, client_fault := None\<rparr>)"
proof -
  let ?C = "client_side s" and ?H = "handler (client_side s)"
  have reads: "feeds (base_reader ?H) (down s @ rest) D" "list_all sendable D" "list_all said D"
      "list_all2 answers ts (answers_in D)" and pending: "pending_of s = ts @ out"
    using f by (auto simp: flowing_def)
  from step obtain p r where r: "read_step (base_reader ?H) = Some (p, r)"
    by (auto simp: client_read_def split: if_splits option.splits)
  show ?thesis
  proof (cases p)
    case None
    with step r have "x = Inr ()" "B = ?C\<lparr>handler := ?H\<lparr>base_reader := r\<rparr>\<rparr>"
      by (auto simp: client_read_def on_handler_def set_reader_def prog_simps split: if_splits)
    with client_keeps_idle [OF f st, of B] r None st show ?thesis
      by (simp add: steady_def steps_of_def client_net_of_def pending_of_def)
  next
    case (Some packet)
    obtain t b where tb: "packet = (t, b)" by force
    from feeds_packet [OF reads(1)] r Some tb obtain D' where D: "D = (t, b) # D'"
      and reads': "feeds r (down s @ rest) D'" by blast
    have fits: "fits32 (length b)" using reads(2) D by (simp add: sendable_def)
    obtain ts' where ts': "list_all2 answers ts' (answers_in D')"
      and handles: "handles (handle_packet_async t b) ?H (ts' @ out)"
    proof (cases "t = RESULT")
      case True
      with reads(4) D obtain u us where ts: "ts = u # us" "answers u b" "list_all2 answers us (answers_in D')"
        by (auto simp: list_all2_Cons2)
      then show ?thesis
        using that [of us] handle_packet_answer_of [OF ts(2) fits, of ?H "us @ out"] True pending
        by (simp add: pending_of_def)
    next
      case False
      then have "is_note (t, b)" using reads(3) D by (simp add: said_def)
      from handle_packet_note [OF this fits, of ?H] show ?thesis
        using that [of ts] reads(4) D False pending by (simp add: pending_of_def)
    qed
    from handles obtain H' where H': "handle_packet_async t b ?H = (Inr (), H')"
      "pending_requests H' = ts' @ out" "same_link ?H H'" by (auto simp: handles_def)
    with step r Some tb have B: "x = Inr ()" "B = ?C\<lparr>handler := H'\<lparr>base_reader := r\<rparr>\<rparr>"
      by (auto simp: client_read_def on_handler_def set_reader_def prog_simps split: if_splits)
    have "client_moves s B [] out out"
      using st H'(3) by (simp add: client_moves_def B steady_def same_link_def client_net_of_def steps_of_def)
    from client_keeps [OF f st this _ _ _ ts'] reads' reads(2,3) D H'(2) B show ?thesis by simp
  qed
qed

lemma act_keeps:
  assumes inv: "conversation_inv sid s" and step: "client_step Q E e (client_side s) = Some (x, B)"
    and fit: "headers_fit (base_net (handler B))"
  shows "x = Inr () \<and> conversation_inv sid (s\<lparr>client_side := B, client_fault := None\<rparr>)"
proof -
  let ?C = "client_side s"
  from inv obtain A D rest ts out where f: "flowing sid s A D rest ts out" and st: "steady sid s"
    by (rule conversation_invE)
  note idle = client_keeps_idle [OF f st, of B]
  show ?thesis
  proof (cases e)
    case (Command c)
    with step have none: "thread_steps (adapter ?C) = []"
      and run: "on_adapter (run_command Q E c) ?C = (x, B)" by (auto split: if_splits)
    from command_shape [OF none, of Q E c] run st idle none show ?thesis
      by (auto simp: on_adapter_def steady_def client_net_of_def pending_of_def steps_of_def)
  next
    case ThreadStep
    with step thread_keeps [OF f st _ fit] show ?thesis by auto
  next
    case Signal
    with step obtain sig queue where none: "thread_steps (adapter ?C) = []"
      and run: "on_adapter (connected Q sig) (?C\<lparr>handler := (handler ?C)\<lparr>world := queue\<rparr>,
        shown := shown ?C @ [sig]\<rparr>) = (x, B)"
      by (auto simp: deliver_signal_def split: if_splits list.splits)
    from connected_shape [of Q sig "adapter ?C"] run st idle none show ?thesis
      by (auto simp: on_adapter_def steady_def client_net_of_def pending_of_def steps_of_def)
  next
    case ClientRead
    with step read_keeps [OF f st] show ?thesis by simp
  next
    case ClientReadFail
    with step client_net_keeps [OF f st, of "?C\<lparr>handler := (handler ?C)\<lparr>base_reading := False\<rparr>\<rparr>"]
    show ?thesis
      by (auto simp: client_read_failed_def client_net_of_def pending_of_def split: if_splits)
  qed (use step client_net_keeps [OF f st, of ?C] in \<open>simp_all add: client_net_of_def pending_of_def\<close>)
qed

section \<open>Every state of a conversation\<close>

lemma connected_pair_inv:
  assumes "server_inv S" and "clients S sid = Some new_client"
  shows "conversation_inv sid (connected_pair Q qfs S)"
proof (rule conversation_invI)
  show "flowing sid (connected_pair Q qfs S) [] [] [] [] []"
    using assms by (simp add: flowing_def connected_pair_def client_main_def ClientHandlerQml_def
        session_of_def pending_of_def steps_of_def client_net_of_def new_client_def new_net_accepted
        feeds_def start_reader_def)
  show "steady sid (connected_pair Q qfs S)"
    using assms by (auto simp: steady_def connected_pair_def client_main_def ClientHandlerQml_def
        steps_of_def client_net_of_def new_net_inv thread_shape_def server_inv_def clients_inv_def)
qed

lemma conversation_step_inv:
  assumes inv: "conversation_inv sid s" and step: "conversation_step Q E sid s t"
  shows "conversation_inv sid t"
  using step
proof cases
  case (act e x B)
  then show ?thesis using act_keeps [OF inv, of Q E e x B] by auto
qed (use inv serve_keeps upload_keeps download_keeps reach_server_keeps reach_client_keeps in auto)

lemma conversing_inv:
  assumes "store_inv s0" and "conversing Q E s0 fs qfs sid s"
  shows "conversation_inv sid s"
  using assms(2)
proof induction
  case (connect S)
  then show ?case using reachable_inv [OF assms(1), of E fs "Running S"] connected_pair_inv by simp
next
  case (progress s t)
  then show ?case using conversation_step_inv by blast
qed

section \<open>When nothing moves\<close>

text \<open>
  Everything that either side sent has been read: no step of a command is left, no byte is on
  the way and both readers wait for more.
\<close>

definition at_rest :: "nat \<Rightarrow> conversation \<Rightarrow> bool" where
  "at_rest sid s \<longleftrightarrow> steps_of s = [] \<and> up s = [] \<and> down s = [] \<and>
     taken_up s = length (concat (accepted (client_net_of s))) \<and>
     read_step (base_reader (handler (client_side s))) = None \<and>
     (case session_of sid s of
        None \<Rightarrow> False
      | Some c \<Rightarrow> taken_down s = length (concat (accepted (net c))) \<and> read_step (reader c) = None)"

lemma at_rest_answered:
  assumes "conversation_inv sid s" and rest: "at_rest sid s"
  shows "pending_of s = []"
proof -
  from assms(1) obtain A D bs ts out where f: "flowing sid s A D bs ts out"
    by (rule conversation_invE)
  from rest obtain c where c: "session_of sid s = Some c"
    by (auto simp: at_rest_def split: option.splits)
  with f rest have bs: "bs = []" by (simp add: flowing_def at_rest_def)
  have "feeds (reader c) [] A" "out = requests_in A" using f c rest by (simp_all add: flowing_def at_rest_def)
  moreover have "read_step (reader c) = None" using rest c by (simp add: at_rest_def)
  ultimately have "out = []" using feeds_nothing by fastforce
  moreover have "D = []"
    using f rest bs feeds_nothing [of "base_reader (handler (client_side s))" D]
    by (simp add: flowing_def at_rest_def)
  ultimately show ?thesis using f by (simp add: flowing_def)
qed

text \<open>The packet that the client is about to read.\<close>

lemma next_answer:
  assumes "conversation_inv sid s"
    and "read_step (base_reader (handler (client_side s))) = Some (Some (RESULT, b), r)"
  shows "\<exists>t rest. pending_of s = t # rest \<and> answers t b"
proof -
  from assms(1) obtain A D bs ts out where f: "flowing sid s A D bs ts out"
    by (rule conversation_invE)
  then have "feeds (base_reader (handler (client_side s))) (down s @ bs) D" by (simp add: flowing_def)
  from feeds_packet [OF this assms(2)] obtain D' where "D = (RESULT, b) # D'" by blast
  with f show ?thesis by (auto simp: flowing_def list_all2_Cons2)
qed

end
