(* ===== verification/ManyClients.thy ===== *)
theory ManyClients
  imports ConversationInvariant
begin

text \<open>
  Any number of clients and the server. Each client has its own process and connection; they
  share nothing but the server, which also serves sessions of clients that are not part of the
  model. The whole refines the conversation of each client with the server.
\<close>

section \<open>The system\<close>

text \<open>
  \<open>sides\<close> has for a session number the conversation of its client; the server in it is a copy that
  \<open>side\<close> brings up to date.
\<close>

record messenger =
  server_process :: process
  sides :: "nat \<Rightarrow> conversation option"

definition side :: "messenger \<Rightarrow> conversation \<Rightarrow> conversation" where
  "side W c = c\<lparr>server_side := server_process W\<rparr>"

fun is_serve :: "link_event \<Rightarrow> bool" where
  "is_serve (Serve e) = True"
| "is_serve _ = False"

definition server_state :: "process \<Rightarrow> server" where
  "server_state p = (case p of Running S \<Rightarrow> S | Exited f S \<Rightarrow> S)"

text \<open>No packet to one of the clients is too long for its header.\<close>

definition all_fit :: "(nat \<Rightarrow> conversation option) \<Rightarrow> server \<Rightarrow> bool" where
  "all_fit cs S \<longleftrightarrow> (\<forall>i \<in> dom cs. session_fits i S)"

inductive messenger_step :: "qt \<Rightarrow> env \<Rightarrow> messenger \<Rightarrow> messenger \<Rightarrow> bool"
  for Q :: qt and E :: env where
  server_event: "server_process W = Running S \<Longrightarrow> \<forall>i \<in> dom (sides W). \<not> arrives_at i e \<Longrightarrow>
    server_step E e S = Some r \<Longrightarrow> all_fit (sides W) (snd r) \<Longrightarrow>
    messenger_step Q E W (W\<lparr>server_process := outcome r\<rparr>)"
| join: "server_process W = Running S \<Longrightarrow> server_step E (Accept False) S = Some r \<Longrightarrow>
    outcome r = Running S' \<Longrightarrow> sides W (next_client S) = None \<Longrightarrow> all_fit (sides W) S' \<Longrightarrow>
    messenger_step Q E W (W\<lparr>server_process := Running S',
      sides := (sides W)(next_client S \<mapsto> connected_pair Q qfs S')\<rparr>)"
| client_event: "sides W i = Some c \<Longrightarrow> \<not> is_serve e \<Longrightarrow> link_step Q E i e (side W c) = Some c' \<Longrightarrow>
    all_fit (sides W) (server_state (server_side c')) \<Longrightarrow>
    messenger_step Q E W (W\<lparr>server_process := server_side c', sides := (sides W)(i \<mapsto> c')\<rparr>)"

inductive messenger_reachable :: "qt \<Rightarrow> env \<Rightarrow> store \<Rightarrow> files \<Rightarrow> messenger \<Rightarrow> bool"
  for Q :: qt and E :: env and s0 :: store and fs :: files where
  started: "reachable E s0 fs (Running S) \<Longrightarrow>
    messenger_reachable Q E s0 fs \<lparr>server_process = Running S, sides = Map.empty\<rparr>"
| continued: "messenger_reachable Q E s0 fs W \<Longrightarrow> messenger_step Q E W W' \<Longrightarrow>
    messenger_reachable Q E s0 fs W'"

section \<open>Refinement\<close>

definition refines :: "qt \<Rightarrow> env \<Rightarrow> store \<Rightarrow> files \<Rightarrow> messenger \<Rightarrow> bool" where
  "refines Q E s0 fs W \<longleftrightarrow>
     (\<forall>S. server_process W = Running S \<longrightarrow> reachable E s0 fs (Running S)) \<and>
     (\<forall>i c. sides W i = Some c \<longrightarrow> (\<exists>qfs. conversing Q E s0 fs qfs i (side W c)))"

lemma refinesE:
  assumes "refines Q E s0 fs W" and "sides W i = Some c"
  obtains qfs where "conversing Q E s0 fs qfs i (side W c)"
  using assms unfolding refines_def by blast

text \<open>What an event of one client does to the server.\<close>

lemma client_event_server:
  assumes "link_step Q E i e s = Some t" and "\<not> is_serve e"
  shows "server_side t = server_side s \<or>
    (\<exists>S bs. server_side s = Running S \<and> server_step E (Arrive i bs) S = Some (Inr (), arrive i bs S) \<and>
       server_side t = Running (arrive i bs S))"
  using assms
  by (cases e) (auto split: process.splits option.splits if_splits prod.splits)

lemma reachable_server_step:
  "reachable E s0 fs (Running S) \<Longrightarrow> server_step E e S = Some r \<Longrightarrow> reachable E s0 fs (outcome r)"
  using reachable.step process_step.handler by blast

text \<open>A step of the server is a step of every conversation to which it brings no bytes.\<close>

lemma side_serve:
  assumes "conversing Q E s0 fs qfs i (side W c)" and "server_process W = Running S"
    and "server_step E e S = Some r" and "\<not> arrives_at i e" and "session_fits i (snd r)"
  shows "conversing Q E s0 fs qfs i (c\<lparr>server_side := outcome r\<rparr>)"
proof -
  have "conversation_step Q E i (side W c) ((side W c)\<lparr>server_side := outcome r\<rparr>)"
    using assms(2-5) by (intro conversation_step.serve) (simp_all add: side_def)
  from conversing.progress [OF assms(1) this] show ?thesis by (simp add: side_def)
qed

lemma refines_server_event:
  assumes W: "refines Q E s0 fs W" and S: "server_process W = Running S"
    and e: "\<forall>i \<in> dom (sides W). \<not> arrives_at i e" and step: "server_step E e S = Some r"
    and fit: "all_fit (sides W) (snd r)"
  shows "refines Q E s0 fs (W\<lparr>server_process := outcome r\<rparr>)"
  unfolding refines_def
proof (intro conjI allI impI)
  fix T assume "server_process (W\<lparr>server_process := outcome r\<rparr>) = Running T"
  then show "reachable E s0 fs (Running T)"
    using reachable_server_step [OF _ step] W S by (simp add: refines_def)
next
  fix i c assume "sides (W\<lparr>server_process := outcome r\<rparr>) i = Some c"
  then have c: "sides W i = Some c" by simp
  with W obtain qfs where "conversing Q E s0 fs qfs i (side W c)" by (rule refinesE)
  from side_serve [OF this S step] c e fit
  show "\<exists>qfs. conversing Q E s0 fs qfs i (side (W\<lparr>server_process := outcome r\<rparr>) c)"
    by (auto simp: side_def all_fit_def)
qed

lemma refines_join:
  assumes W: "refines Q E s0 fs W" and S: "server_process W = Running S"
    and step: "server_step E (Accept False) S = Some r" and r: "outcome r = Running S'"
    and fresh: "sides W (next_client S) = None" and fit: "all_fit (sides W) S'"
  shows "refines Q E s0 fs (W\<lparr>server_process := Running S',
    sides := (sides W)(next_client S \<mapsto> connected_pair Q qfs S')\<rparr>)"
proof -
  have rS': "snd r = S'" using step r by (auto simp: accept_handler_def prog_simps outcome_def)
  from refines_server_event [OF W S _ step] fit have old: "refines Q E s0 fs (W\<lparr>server_process := Running S'\<rparr>)"
    by (simp add: r rS')
  then have reach: "reachable E s0 fs (Running S')" by (simp add: refines_def)
  moreover have "clients S' (next_client S) = Some new_client"
    using step r by (auto simp: accept_handler_def prog_simps outcome_def)
  ultimately have new: "conversing Q E s0 fs qfs (next_client S) (connected_pair Q qfs S')"
    by (rule conversing.connect)
  show ?thesis
    using old new by (auto simp: refines_def side_def connected_pair_def)
qed

lemma refines_client_event:
  assumes W: "refines Q E s0 fs W" and c: "sides W i = Some c" and e: "\<not> is_serve e"
    and step: "link_step Q E i e (side W c) = Some c'"
    and fit: "all_fit (sides W) (server_state (server_side c'))"
  shows "refines Q E s0 fs (W\<lparr>server_process := server_side c', sides := (sides W)(i \<mapsto> c')\<rparr>)"
    (is "refines Q E s0 fs ?W")
proof -
  from client_event_server [OF step e] have "server_side c' = server_process W \<or>
    (\<exists>S bs. server_process W = Running S \<and> server_step E (Arrive i bs) S = Some (Inr (), arrive i bs S) \<and>
       server_side c' = Running (arrive i bs S))" by (simp add: side_def)
  then have others: "(\<forall>S. server_side c' = Running S \<longrightarrow> reachable E s0 fs (Running S)) \<and>
    (\<forall>j d. j \<noteq> i \<longrightarrow> sides W j = Some d \<longrightarrow>
       (\<exists>qfs. conversing Q E s0 fs qfs j (d\<lparr>server_side := server_side c'\<rparr>)))"
  proof (elim disjE exE conjE)
    assume "server_side c' = server_process W"
    then show ?thesis using W by (auto simp: refines_def side_def)
  next
    fix S bs
    assume S: "server_process W = Running S"
      and arr: "server_step E (Arrive i bs) S = Some (Inr (), arrive i bs S)"
      and c': "server_side c' = Running (arrive i bs S)"
    have "\<exists>qfs. conversing Q E s0 fs qfs j (d\<lparr>server_side := server_side c'\<rparr>)"
      if "j \<noteq> i" "sides W j = Some d" for j d
    proof -
      from W that(2) obtain qfs where "conversing Q E s0 fs qfs j (side W d)" by (rule refinesE)
      from side_serve [OF this S arr] that fit c' show ?thesis
        by (auto simp: all_fit_def server_state_def outcome_def)
    qed
    moreover have "reachable E s0 fs (Running (arrive i bs S))"
      using reachable_server_step [OF _ arr] W S by (simp add: refines_def outcome_def)
    ultimately show ?thesis using c' by simp
  qed
  from W c obtain qfs where "conversing Q E s0 fs qfs i (side W c)" by (rule refinesE)
  from conversing.progress [OF this link_step_sound [OF step]]
  have "conversing Q E s0 fs qfs i c'" .
  with others show ?thesis
    by (auto simp: refines_def side_def)
qed

lemma messenger_refines: "messenger_reachable Q E s0 fs W \<Longrightarrow> refines Q E s0 fs W"
proof (induction rule: messenger_reachable.induct)
  case (started S)
  then show ?case by (simp add: refines_def)
next
  case (continued W W')
  from continued.hyps(2) show ?case
  proof cases
    case (server_event S e r)
    then show ?thesis using refines_server_event [OF continued.IH] by simp
  next
    case (join S r S' qfs)
    then show ?thesis using refines_join [OF continued.IH] by simp
  next
    case (client_event i c e c')
    then show ?thesis using refines_client_event [OF continued.IH] by simp
  qed
qed

section \<open>Running the system\<close>

text \<open>The same steps as a function, for concrete runs.\<close>

datatype messenger_event =
    ServerEvent event
  | Join qfiles
  | ClientEvent nat link_event

fun messenger_do :: "qt \<Rightarrow> env \<Rightarrow> messenger_event \<Rightarrow> messenger \<Rightarrow> messenger option" where
  "messenger_do Q E (ServerEvent e) W =
     (case server_process W of
        Exited f S \<Rightarrow> None
      | Running S \<Rightarrow>
          (case server_step E e S of
             None \<Rightarrow> None
           | Some r \<Rightarrow>
               if (\<forall>i \<in> dom (sides W). \<not> arrives_at i e) \<and> all_fit (sides W) (snd r)
               then Some (W\<lparr>server_process := outcome r\<rparr>) else None))"
| "messenger_do Q E (Join qfs) W =
     (case server_process W of
        Exited f S \<Rightarrow> None
      | Running S \<Rightarrow>
          (case server_step E (Accept False) S of
             None \<Rightarrow> None
           | Some r \<Rightarrow>
               (case outcome r of
                  Exited f S' \<Rightarrow> None
                | Running S' \<Rightarrow>
                    if sides W (next_client S) = None \<and> all_fit (sides W) S'
                    then Some (W\<lparr>server_process := Running S',
                      sides := (sides W)(next_client S \<mapsto> connected_pair Q qfs S')\<rparr>)
                    else None)))"
| "messenger_do Q E (ClientEvent i e) W =
     (case sides W i of
        None \<Rightarrow> None
      | Some c \<Rightarrow>
          (case link_step Q E i e (side W c) of
             None \<Rightarrow> None
           | Some c' \<Rightarrow>
               if \<not> is_serve e \<and> all_fit (sides W) (server_state (server_side c'))
               then Some (W\<lparr>server_process := server_side c', sides := (sides W)(i \<mapsto> c')\<rparr>)
               else None))"

fun messenger_run :: "qt \<Rightarrow> env \<Rightarrow> messenger_event list \<Rightarrow> messenger \<Rightarrow> messenger option" where
  "messenger_run Q E [] W = Some W"
| "messenger_run Q E (e # es) W =
     (case messenger_do Q E e W of None \<Rightarrow> None | Some W' \<Rightarrow> messenger_run Q E es W')"

lemma messenger_do_sound: "messenger_do Q E e W = Some W' \<Longrightarrow> messenger_step Q E W W'"
  by (cases e) (auto intro: messenger_step.intros split: process.splits option.splits if_splits)

lemma messenger_run_sound:
  "messenger_run Q E es W = Some W' \<Longrightarrow> messenger_reachable Q E s0 fs W \<Longrightarrow>
    messenger_reachable Q E s0 fs W'"
proof (induction es arbitrary: W)
  case (Cons e es)
  then obtain V where "messenger_do Q E e W = Some V" "messenger_run Q E es V = Some W'"
    by (auto split: option.splits)
  with Cons show ?case using messenger_reachable.continued messenger_do_sound by blast
qed simp

end
