(* ===== verification/ClientBehaviour.thy ===== *)
theory ClientBehaviour
  imports ClientMain
begin

text \<open>
  What the client does, apart from the server: its handler with the bridge's callbacks against a
  reference that has neither callbacks nor queues, the coming to rest of its threads, and the
  life of the saved token.
\<close>

section \<open>A reference for the handler\<close>

text \<open>The signal that an answer to a request gives, and the one that a pushed packet gives.\<close>

fun answer_signal :: "qt \<Rightarrow> packet_type \<Rightarrow> bytes \<Rightarrow> fault + bridge_signal list" where
  "answer_signal Q TOKEN_VERIFY b =
     map_sum id (\<lambda>r. [tokenVerify (code_value (tvres_error r))]) (TokenVerifyResponse_deserialize b)"
| "answer_signal Q REGISTER b =
     map_sum id (\<lambda>r. [authResult (fromStdString Q (ares_token r)) (code_value (ares_error r))])
       (AuthResponse_deserialize b)"
| "answer_signal Q LOGIN b =
     map_sum id (\<lambda>r. [authResult (fromStdString Q (ares_token r)) (code_value (ares_error r))])
       (AuthResponse_deserialize b)"
| "answer_signal Q FRIEND_REQUEST b =
     map_sum id (\<lambda>r. [friendRequestResult (code_value (fres_error r))]) (FriendResponse_deserialize b)"
| "answer_signal Q FRIEND_ACCEPT b =
     map_sum id (\<lambda>r. [friendRequestResult (code_value (fres_error r))]) (FriendResponse_deserialize b)"
| "answer_signal Q FRIEND_REJECT b =
     map_sum id (\<lambda>r. [friendRequestResult (code_value (fres_error r))]) (FriendResponse_deserialize b)"
| "answer_signal Q FRIEND_LIST b =
     map_sum id (\<lambda>r. [friendListReceived (map (fromStdString Q) (flres_friends r))
         (map (fromStdString Q) (flres_pending_incoming r))])
       (FriendListResponse_deserialize b)"
| "answer_signal Q MESSAGE_HISTORY b =
     map_sum id (\<lambda>r. [historyReceived (map (history_entry Q) (hres_messages r))])
       (HistoryResponse_deserialize b)"
| "answer_signal Q CHAT_LIST b =
     map_sum id (\<lambda>r. [chatListReceived (map (chat_entry Q) (clres_chats r))])
       (ChatListResponse_deserialize b)"
| "answer_signal Q _ b = Inr []"

fun push_signal :: "qt \<Rightarrow> packet_type \<Rightarrow> bytes \<Rightarrow> fault + bridge_signal list" where
  "push_signal Q MESSAGE b =
     map_sum id (\<lambda>r. [chatMessageReceived (fromStdString Q (cin_sender_login r))
       (fromStdString Q (cin_message r))]) (ChatIncoming_deserialize b)"
| "push_signal Q DIRECT_MESSAGE b =
     map_sum id (\<lambda>r. [directMessageReceived (fromStdString Q (dmin_sender_login r))
       (fromStdString Q (dmin_message r)) (dmin_timestamp r)]) (DirectMessageIncoming_deserialize b)"
| "push_signal Q FRIEND_NEW_REQUEST b = Inr [friendNewRequest]"
| "push_signal Q FRIEND_REQUEST_ACCEPTED b = Inr [friendNewRequest]"
| "push_signal Q FRIEND_REQUEST_REJECTED b = Inr [friendNewRequest]"
| "push_signal Q _ b = Inr []"

text \<open>
  A sequence of packets, with the requests that wait for answers: the signals it gives and
  the requests that still wait, or the first fault.
\<close>

fun reference ::
  "qt \<Rightarrow> (packet_type \<times> bytes) list \<Rightarrow> packet_type list \<Rightarrow>
    fault + bridge_signal list \<times> packet_type list" where
  "reference Q [] waiting = Inr ([], waiting)"
| "reference Q ((t, b) # ps) waiting =
     (case (if t = RESULT then (case waiting of [] \<Rightarrow> Inr [] | r # _ \<Rightarrow> answer_signal Q r b)
            else push_signal Q t b) of
        Inl f \<Rightarrow> Inl f
      | Inr sigs \<Rightarrow>
          map_sum id (map_prod (append sigs) id)
            (reference Q ps (if t = RESULT then tl waiting else waiting)))"

fun handle_all :: "(packet_type \<times> bytes) list \<Rightarrow> ('w, unit) client_prog" where
  "handle_all [] = ret ()"
| "handle_all ((t, b) # ps) = bnd (handle_packet_async t b) (\<lambda>_. handle_all ps)"

text \<open>The last 200 lines.\<close>

definition recent :: "string list \<Rightarrow> string list" where
  "recent ms = drop (length ms - 200) ms"

definition advance :: "nat \<Rightarrow> bridge_signal list \<Rightarrow> packet_type list \<Rightarrow>
    bridge_signal list async_handler \<Rightarrow> bridge_signal list async_handler" where
  "advance n sigs waiting H = H\<lparr>pending_requests := waiting, world := world H @ sigs,
     messages := recent (messages H @ replicate n '''')\<rparr>"

lemma invoke_bridge:
  assumes "callbacks H = NetworkBridge Q" and "cb (NetworkBridge Q) = Some f"
  shows "invoke cb x H = (Inr (), H\<lparr>world := f x (world H)\<rparr>)"
  using assms by (simp add: invoke_def prog_simps)

lemma parse_invoke:
  assumes "callbacks H = NetworkBridge Q" and "cb (NetworkBridge Q) = Some (\<lambda>x. invokeMethod (g x))"
  shows "bnd (lift_res r) (invoke cb) H = (case map_sum id (\<lambda>x. [g x]) r of
      Inl f \<Rightarrow> (Inl f, H) | Inr sigs \<Rightarrow> (Inr (), H\<lparr>world := world H @ sigs\<rparr>))"
  using assms by (cases r) (simp_all add: prog_simps invoke_bridge invokeMethod_def)

lemma handle_answer_signal:
  assumes "callbacks H = NetworkBridge Q"
  shows "handle_answer t b H = (case answer_signal Q t b of
      Inl f \<Rightarrow> (Inl f, H) | Inr sigs \<Rightarrow> (Inr (), H\<lparr>world := world H @ sigs\<rparr>))"
  by (cases t)
    (simp_all add: parse_invoke [OF assms] NetworkBridge_def Let_def prog_simps)

lemma handle_push_signal:
  assumes "callbacks H = NetworkBridge Q" and "t \<noteq> RESULT"
  shows "handle_switch t b H = (case push_signal Q t b of
      Inl f \<Rightarrow> (Inl f, H) | Inr sigs \<Rightarrow> (Inr (), H\<lparr>world := world H @ sigs\<rparr>))"
  using assms(2)
  by (cases t)
    (simp_all add: handle_switch_def parse_invoke [OF assms(1)] invoke_bridge [OF assms(1)]
      NetworkBridge_def invokeMethod_def prog_simps)

lemma push_line_recent:
  "length (messages H) \<le> 200 \<Longrightarrow> push_line l H = (Inr (), H\<lparr>messages := recent (messages H @ [l])\<rparr>)"
proof -
  assume "length (messages H) \<le> 200"
  then have "recent (messages H @ [l]) =
      (if length (messages H @ [l]) > 200 then tl (messages H @ [l]) else messages H @ [l])"
    by (cases "length (messages H) = 200"; cases "messages H") (simp_all add: recent_def)
  then show ?thesis by (simp add: push_line_def prog_simps Let_def)
qed

lemma recent_recent: "recent (recent ms @ ns) = recent (ms @ ns)"
  by (cases "length ms \<le> 200") (simp_all add: recent_def add.commute)

lemma length_recent: "length (recent ms) \<le> 200"
  by (simp add: recent_def)

lemma handle_packet_reference:
  assumes bridge: "callbacks H = NetworkBridge Q" and len: "length (messages H) \<le> 200"
  shows "case reference Q [(t, b)] (pending_requests H) of
      Inl f \<Rightarrow> fst (handle_packet_async t b H) = Inl f
    | Inr (sigs, waiting) \<Rightarrow> handle_packet_async t b H = (Inr (), advance 1 sigs waiting H)"
proof (cases "t = RESULT")
  case False
  show ?thesis
    using handle_push_signal [OF bridge False, of b] len False
    by (cases "push_signal Q t b")
      (simp_all add: handle_packet_async_def prog_simps push_line_recent advance_def)
next
  case True
  show ?thesis
  proof (cases "pending_requests H")
    case Nil
    then show ?thesis using True len
      by (simp add: handle_packet_async_def handle_switch_def prog_simps push_line_recent advance_def)
  next
    case (Cons r rest)
    then show ?thesis
      using handle_answer_signal [of "H\<lparr>pending_requests := rest\<rparr>" Q r b] True len bridge
      by (cases "answer_signal Q r b")
        (simp_all add: handle_packet_async_def handle_switch_def prog_simps push_line_recent advance_def)
  qed
qed

lemma advance_simps [simp]:
  "callbacks (advance n sigs w H) = callbacks H"
  "pending_requests (advance n sigs w H) = w"
  "length (messages (advance n sigs w H)) \<le> 200"
  by (simp_all add: advance_def length_recent)

lemma advance_advance: "advance m ss v (advance n sigs w H) = advance (n + m) (sigs @ ss) v H"
  by (simp add: advance_def recent_recent replicate_add)

lemma handle_all_reference:
  assumes "callbacks H = NetworkBridge Q" and "length (messages H) \<le> 200"
  shows "case reference Q ps (pending_requests H) of
      Inl f \<Rightarrow> fst (handle_all ps H) = Inl f
    | Inr (sigs, waiting) \<Rightarrow> handle_all ps H = (Inr (), advance (length ps) sigs waiting H)"
  using assms
proof (induction ps arbitrary: H)
  case Nil
  then show ?case by (simp add: prog_simps advance_def recent_def)
next
  case (Cons p ps)
  obtain t b where p: "p = (t, b)" by force
  let ?first = "if t = RESULT then case pending_requests H of [] \<Rightarrow> Inr [] | r # _ \<Rightarrow> answer_signal Q r b
    else push_signal Q t b"
  let ?waiting = "if t = RESULT then tl (pending_requests H) else pending_requests H"
  note one = handle_packet_reference [OF Cons.prems, of t b]
  show ?case
  proof (cases ?first)
    case (Inl f)
    with one show ?thesis
      by (cases "handle_packet_async t b H") (simp add: p bnd_def)
  next
    case (Inr sigs)
    with one have run: "handle_packet_async t b H = (Inr (), advance 1 sigs ?waiting H)" by simp
    have "callbacks (advance 1 sigs ?waiting H) = NetworkBridge Q" using Cons.prems by simp
    from Cons.IH [OF this] Inr run show ?thesis
      by (auto simp: p prog_simps advance_advance split: sum.splits)
  qed
qed

section \<open>Coming to rest\<close>

text \<open>
  The work that the client has in hand: steps of the running command, posted closures, packets
  being written, bytes to read, signals to deliver. Every event but a new command uses some up.
\<close>

definition work :: "client_app \<Rightarrow> nat" where
  "work A = (let H = handler A; n = base_net H in
     4 * length (thread_steps (adapter A)) + 3 * length (posted n) + length (write_queue n) +
     length (in_flight n) + 2 * read_measure (base_reader H) + length (world H) +
     (if base_reading H then 1 else 0))"

fun client_run :: "qt \<Rightarrow> env \<Rightarrow> client_event list \<Rightarrow> client_app \<Rightarrow> client_app option" where
  "client_run Q E [] A = Some A"
| "client_run Q E (e # es) A =
     (case client_step Q E e A of
        Some (Inr u, B) \<Rightarrow> client_run Q E es B
      | _ \<Rightarrow> None)"

fun is_command :: "client_event \<Rightarrow> bool" where
  "is_command (Command c) = True"
| "is_command _ = False"

lemma net_step_work:
  assumes "net_step e n = Some (Inr n')" and "e = RunPosted \<or> e = WriteDone x"
  shows "3 * length (posted n') + length (write_queue n') + length (in_flight n') <
    3 * length (posted n) + length (write_queue n) + length (in_flight n)"
  using assms
  by (auto simp: run_posted_def write_done_def do_write_def Let_def split: list.splits if_splits)

lemma reference_one:
  "reference Q [(t, b)] w = Inr (sigs, w') \<Longrightarrow> length sigs \<le> 1"
  by (cases t; cases w; cases "hd w")
    (auto simp: map_sum_def split: if_splits sum.splits list.splits)

lemma connected_steps: "thread_steps (snd (connected Q sig a)) = thread_steps a"
  by (cases sig) (simp_all add: setToken_def emit_def prog_simps Let_def)

definition client_ok :: "qt \<Rightarrow> client_app \<Rightarrow> bool" where
  "client_ok Q A \<longleftrightarrow> callbacks (handler A) = NetworkBridge Q \<and> length (messages (handler A)) \<le> 200"

lemma client_net_work:
  assumes "client_net e A = Some (Inr u, B)"
  shows "client_ok Q A \<Longrightarrow> client_ok Q B" and "e = RunPosted \<or> e = WriteDone x \<Longrightarrow> work B < work A"
    and "e = ReadFailed \<Longrightarrow> work B = work A"
  using assms net_step_work [of e "base_net (handler A)" _ x]
  by (fastforce simp: client_net_def client_ok_def work_def Let_def split: option.splits sum.splits)+

lemma client_read_work:
  assumes ok: "client_ok Q A" and step: "client_read A = Some (Inr u, B)"
  shows "client_ok Q B \<and> work B < work A"
proof -
  let ?H = "handler A"
  from step obtain p r where r: "read_step (base_reader ?H) = Some (p, r)"
    by (auto simp: client_read_def split: if_splits option.splits)
  note less = read_step_measure [OF r]
  show ?thesis
  proof (cases p)
    case None
    with step r less ok show ?thesis
      by (auto simp: client_read_def on_handler_def set_reader_def prog_simps client_ok_def work_def
          Let_def split: if_splits)
  next
    case (Some packet)
    obtain t b where tb: "packet = (t, b)" by force
    from ok handle_packet_reference [of ?H Q t b] step r Some tb obtain sigs w
      where ref: "reference Q [(t, b)] (pending_requests ?H) = Inr (sigs, w)"
        and run: "handle_packet_async t b ?H = (Inr (), advance 1 sigs w ?H)"
      by (cases "reference Q [(t, b)] (pending_requests ?H)";
          cases "handle_packet_async t b ?H")
        (auto simp: client_ok_def client_read_def on_handler_def bnd_def split: if_splits)
    with step r Some tb have "B = A\<lparr>handler := (advance 1 sigs w ?H)\<lparr>base_reader := r\<rparr>\<rparr>"
      by (auto simp: client_read_def on_handler_def set_reader_def prog_simps split: if_splits)
    with less reference_one [OF ref] ok show ?thesis
      by (simp add: client_ok_def work_def Let_def) (simp add: advance_def length_recent)
  qed
qed

lemma client_step_work:
  assumes ok: "client_ok Q A" and step: "client_step Q E e A = Some (Inr u, B)"
  shows "client_ok Q B" and "\<not> is_command e \<Longrightarrow> work B < work A"
proof -
  have "client_ok Q B \<and> (\<not> is_command e \<longrightarrow> work B < work A)"
  proof (cases e)
    case (Command c)
    then show ?thesis using step ok
      by (auto simp: on_adapter_def client_ok_def split: if_splits prod.splits)
  next
    case ThreadStep
    then obtain t ts where "thread_steps (adapter A) = t # ts"
      "B = A\<lparr>handler := run_thread_step t (handler A), adapter := (adapter A)\<lparr>thread_steps := ts\<rparr>\<rparr>"
      using step by (auto simp: thread_handler_def split: list.splits)
    then show ?thesis using ok
      by (cases t) (auto simp: client_ok_def work_def Let_def send_packet_def)
  next
    case Signal
    then obtain sig queue where q: "world (handler A) = sig # queue"
      and B: "on_adapter (connected Q sig) (A\<lparr>handler := (handler A)\<lparr>world := queue\<rparr>,
        shown := shown A @ [sig]\<rparr>) = (Inr u, B)"
      using step by (auto simp: deliver_signal_def split: if_splits list.splits)
    then have "thread_steps (adapter B) = thread_steps (adapter A)" "handler B = (handler A)\<lparr>world := queue\<rparr>"
      using connected_steps [of Q sig "adapter A"] by (auto simp: on_adapter_def split: prod.splits)
    then show ?thesis using ok q by (simp add: client_ok_def work_def Let_def)
  next
    case ClientRead
    then show ?thesis using client_read_work [OF ok] step by simp
  next
    case ClientReadFail
    let ?A = "A\<lparr>handler := (handler A)\<lparr>base_reading := False\<rparr>\<rparr>"
    from ClientReadFail step have rd: "base_reading (handler A)"
      and n: "client_net ReadFailed ?A = Some (Inr u, B)"
      by (auto simp: client_read_failed_def split: if_splits)
    have "client_ok Q ?A" "work ?A < work A" using ok rd by (simp_all add: client_ok_def work_def Let_def)
    with client_net_work [OF n] show ?thesis by simp
  qed (use step ok client_net_work in auto)
  then show "client_ok Q B" "\<not> is_command e \<Longrightarrow> work B < work A" by auto
qed

lemma client_run_work:
  "client_ok Q A \<Longrightarrow> client_run Q E es A = Some B \<Longrightarrow> list_all (\<lambda>e. \<not> is_command e) es \<Longrightarrow>
    length es + work B \<le> work A"
proof (induction es arbitrary: A)
  case (Cons e es)
  then obtain u C where C: "client_step Q E e A = Some (Inr u, C)" "client_run Q E es C = Some B"
    by (auto split: option.splits prod.splits sum.splits)
  from client_step_work [OF Cons.prems(1) C(1)] Cons.prems(3) Cons.IH [OF _ C(2)]
  show ?case by fastforce
qed simp

lemma client_main_ok: "client_ok Q (client_main Q fs)"
  by (simp add: client_ok_def client_main_def)

text \<open>The handler of a client process keeps the bridge's callbacks and a bounded list of lines.\<close>

lemma client_run_ok: "client_ok Q A \<Longrightarrow> client_run Q E es A = Some B \<Longrightarrow> client_ok Q B"
  by (induction es arbitrary: A)
    (auto split: option.splits prod.splits sum.splits dest: client_step_work(1))

section \<open>The saved token\<close>

lemma setToken_run:
  "setToken Q t a = (Inr (), a\<lparr>token := t, storage := save Q (fromStdString Q t) (storage a),
     emitted := emitted a @ [tokenReady]\<rparr>)"
  by (simp add: setToken_def emit_def prog_simps Let_def)

lemma deliver_auth:
  assumes "world (handler A) = authResult tok c # queue" and "ok (ErrorCode c)"
  shows "\<exists>B. deliver_signal Q A = Some (Inr (), B) \<and> token (adapter B) = toStdString Q tok \<and>
    storage (adapter B) = save Q (fromStdString Q (toStdString Q tok)) (storage (adapter A)) \<and>
    thread_steps (adapter B) = thread_steps (adapter A) \<and>
    handler_alive (adapter B) = handler_alive (adapter A) \<and>
    shown B = shown A @ [authResult tok c] \<and> world (handler B) = queue"
  using assms by (simp add: deliver_signal_def on_adapter_def setToken_run Let_def)

lemma token_conversions:
  assumes "qt_contract Q" and "graphic t"
  shows "toStdString Q (fromStdString Q t) = t" and "fromStdString Q t = qascii t"
    and "toStdString Q (qascii t) = t"
  using assms graphic_ascii [OF assms(2)] by (simp_all add: qt_contract_def)

lemma check_saved_run:
  assumes "load Q (storage a) = q" and "q \<noteq> []" and "handler_alive a"
  shows "checkSavedToken Q a = (Inr True, a\<lparr>thread_steps := thread_steps a @
    send_request TOKEN_VERIFY (TokenVerifyRequest_serialize \<lparr>tvreq_old_token = toStdString Q q\<rparr>)\<rparr>)"
  using assms by (simp add: checkSavedToken_def locked_def p_send_request_def prog_simps Let_def)

lemma check_saved_none:
  "load Q (storage a) = [] \<Longrightarrow> checkSavedToken Q a = (Inr False, a)"
  by (simp add: checkSavedToken_def prog_simps)

lemma logout_qml_run:
  assumes "handler_alive a"
  shows "logout_qml Q a = (Inr (), a\<lparr>token := '''', storage := clear_storage Q (storage a),
    thread_steps := thread_steps a @ (if token a \<noteq> ''''
      then [PostPacket LOGOUT (LogoutRequest_serialize \<lparr>lreq_old_token = token a\<rparr>)] else [])\<rparr>)"
  using assms by (simp add: logout_qml_def locked_def p_send_packet_def prog_simps Let_def)

section \<open>Answers that the client does not understand\<close>

text \<open>A list that is too short for its size is read past its end.\<close>

lemma short_list_undefined:
  assumes "pending_requests H = t # rest" and "t \<in> {FRIEND_LIST, MESSAGE_HISTORY, CHAT_LIST}"
    and "length b < 4"
  shows "fst (handle_packet_async RESULT b H) = Inl (Undefined ''memcpy past the end of the body'')"
  using assms
  by (auto simp: handle_packet_async_def handle_switch_def prog_simps bnd_def
      FriendListResponse_deserialize_def HistoryResponse_deserialize_def
      ChatListResponse_deserialize_def deserialize_def rd_pair_def rd_vector_undefined)

section \<open>The file of the token\<close>

text \<open>
  While the token can be written, the file holds the token in use, or there is none in use and the
  file is as the program found it, or gone. No other file changes.
\<close>

definition kept :: "qt \<Rightarrow> qfiles \<Rightarrow> adapter \<Rightarrow> bool" where
  "kept Q fs a \<longleftrightarrow>
     (storage a (filePath Q) = Some (toUtf8 Q (fromStdString Q (token a))) \<or>
      token a = '''' \<and> storage a (filePath Q) \<in> {fs (filePath Q), None}) \<and>
     (\<forall>p. p \<noteq> filePath Q \<longrightarrow> storage a p = fs p)"

lemma kept_start: "kept Q fs (ClientHandlerQml fs)"
  by (simp add: kept_def ClientHandlerQml_def)

lemma kept_steps [simp]:
  "kept Q fs (a\<lparr>thread_steps := ts\<rparr>) = kept Q fs a"
  "kept Q fs (a\<lparr>emitted := ss\<rparr>) = kept Q fs a"
  by (simp_all add: kept_def)

lemma preserves_kept [preserves_intros]:
  "preserves (kept Q fs) (emit s)"
  "preserves (kept Q fs) (p_send_request type body)"
  "preserves (kept Q fs) (p_send_packet type body)"
  "open_write Q (filePath Q) \<Longrightarrow> preserves (kept Q fs) (setToken Q t)"
  by (simp_all add: preserves_def emit_def p_send_request_def p_send_packet_def prog_simps setToken_run)
    (simp add: kept_def save_def)

lemma preserves_locked [preserves_intros]: "preserves I m \<Longrightarrow> preserves I (locked x m)"
  unfolding locked_def by (intro preserves_intros) (simp_all split: if_splits add: preserves_intros)

lemma kept_logout:
  assumes "may_remove Q (filePath Q)"
  shows "preserves (kept Q fs) (logout_qml Q)"
proof -
  have "kept Q fs (snd (logout_qml Q a))" if "kept Q fs a" for a
    using that assms logout_qml_run [of a Q]
    by (cases "handler_alive a")
      (auto simp: kept_def clear_storage_def, auto simp: logout_qml_def locked_def prog_simps)
  then show ?thesis by (simp add: preserves_def)
qed

lemma kept_command:
  assumes "may_remove Q (filePath Q)"
  shows "preserves (kept Q fs) (run_command Q E c)"
  by (cases c) (simp_all add: kept_logout [OF assms], unfold checkSavedToken_def registerUser_qml_def
    loginUser_def uploadFile_def downloadFile_def sendMessageGeneralChat_def sendFriendRequest_def
    acceptFriendRequest_def rejectFriendRequest_def getFriendList_def sendDirectMessage_def
    getHistoryDirectMessage_def getLastMessages_qml_def Let_def,
    (intro preserves_intros allI impI | simp add: preserves_intros)+)

lemma kept_connected:
  "open_write Q (filePath Q) \<Longrightarrow> preserves (kept Q fs) (connected Q s)"
  by (cases s) (auto simp: Let_def intro!: preserves_intros)

lemma kept_client_step:
  assumes "open_write Q (filePath Q)" and "may_remove Q (filePath Q)"
    and "client_step Q E e A = Some (r, B)" and kept: "kept Q fs (adapter A)"
  shows "kept Q fs (adapter B)"
proof -
  have "kept Q fs a" if "run_command Q E c (adapter A) = (r', a)" for c r' a
    using kept_command [OF assms(2), of fs E c] kept that by (metis preserves_def snd_conv)
  moreover have "kept Q fs a" if "connected Q s (adapter A) = (r', a)" for s r' a
    using kept_connected [OF assms(1), of fs s] kept that by (metis preserves_def snd_conv)
  ultimately show ?thesis
    using assms(3) kept
    by (cases e) (auto simp: deliver_signal_def thread_handler_def client_read_def client_net_def
        client_read_failed_def on_adapter_def on_handler_def
        split: if_splits list.splits option.splits sum.splits prod.splits)
qed

lemma kept_exec:
  assumes "open_write Q (filePath Q)" and "may_remove Q (filePath Q)"
    and "client_exec Q E n es A = Some (x, B)" and "kept Q fs (adapter A)"
  shows "kept Q fs (adapter B)"
  using assms
proof (induction Q E n es A rule: client_exec.induct)
  case (3 Q E n e es A)
  from 3(4) obtain r C where C: "client_step Q E e A = Some (r, C)"
    by (auto split: option.splits)
  have "kept Q fs (adapter C)" by (rule kept_client_step [OF 3(2,3) C 3(5)])
  with C 3(1) [OF C _ _ 3(2,3)] 3(4) show ?case by (cases r) (auto split: if_splits)
qed (auto simp: client_arrive_def split: if_splits)

end
