(* ===== verification/Effects.thy ===== *)
theory Effects
  imports MessageSafety
begin

text \<open>
  What a request can change: of the tables, of the files, of the registry and of the other
  sessions. \<open>bounded\<close> is kept by every handler for the type of its own request, whatever the body
  is and wherever the handler stops.
\<close>

section \<open>The database\<close>

text \<open>\<open>s0\<close> is the database before the request, of type \<open>t\<close>.\<close>

definition db_bounded :: "packet_type \<Rightarrow> store \<Rightarrow> store \<Rightarrow> bool" where
  "db_bounded t s0 s \<longleftrightarrow>
     (t = REGISTER \<or> users s = users s0) \<and>
     (t \<in> {FRIEND_REQUEST, FRIEND_ACCEPT, FRIEND_REJECT} \<or> friendships s = friendships s0) \<and>
     (t \<in> {DIRECT_MESSAGE, REGISTER, LOGIN, TOKEN_VERIFY} \<or> direct_messages s = direct_messages s0) \<and>
     (t \<in> {REGISTER, LOGIN} \<or> set (sessions s) \<subseteq> set (sessions s0))"

lemma db_bounded_any [preserves_intros]:
  "preserves (db_bounded t s0) (system_now E)"
  "preserves (db_bounded t s0) (draw_uuid E)"
  "preserves (db_bounded t s0) (delete_session tok)"
  "preserves (db_bounded t s0) (logout tok)"
  by (auto simp: preserves_def db_bounded_def prog_simps delete_session_def)

lemma db_bounded_writes [preserves_intros]:
  "t = REGISTER \<Longrightarrow> preserves (db_bounded t s0) (insert_user l sa p)"
  "t \<in> {REGISTER, LOGIN} \<Longrightarrow> preserves (db_bounded t s0) (insert_session tok i k)"
  "t = DIRECT_MESSAGE \<Longrightarrow> preserves (db_bounded t s0) (insert_message a b c m d)"
  "t \<in> {DIRECT_MESSAGE, REGISTER, LOGIN, TOKEN_VERIFY} \<Longrightarrow> preserves (db_bounded t s0) (markDelivered E ids)"
  by (auto simp: preserves_def db_bounded_def prog_simps insert_user_def insert_session_def
      insert_message_def markDelivered_run marked_def)

lemma db_bounded_friends [preserves_intros]:
  assumes "t \<in> {FRIEND_REQUEST, FRIEND_ACCEPT, FRIEND_REJECT}"
  shows "preserves (db_bounded t s0) (sendRequest a b)"
    "preserves (db_bounded t s0) (acceptRequest a b)"
    "preserves (db_bounded t s0) (rejectRequest a b)"
  using assms
  by (auto simp: preserves_def db_bounded_def prog_simps sendRequest_def acceptRequest_def
      rejectRequest_def Let_def bnd_def insert_friendship_def split: prod.splits sum.splits option.splits)

lemma db_bounded_users [preserves_intros]:
  "t = REGISTER \<Longrightarrow> preserves (db_bounded t s0) (registerUser E l p)"
  "t \<in> {REGISTER, LOGIN} \<Longrightarrow> preserves (db_bounded t s0) (verifyUser E l p)"
  "t = DIRECT_MESSAGE \<Longrightarrow> preserves (db_bounded t s0) (saveMessage E a b m)"
  "preserves (db_bounded t s0) (getLoginByToken E tok)"
  unfolding registerUser_def generateSalt_def verifyUser_def verifyPassword_def Let_def
    getLoginByToken_def saveMessage_def
  by (intro preserves_intros; simp)+

section \<open>The server\<close>

text \<open>
  The session \<open>this\<close> sent the request. Of another session only the sending queue may grow, and no
  handler touches a reader.
\<close>

definition bounded :: "packet_type \<Rightarrow> nat \<Rightarrow> server \<Rightarrow> server \<Rightarrow> bool" where
  "bounded t this S0 S \<longleftrightarrow>
     db_bounded t (database S0) (database S) \<and>
     (t = UPLOAD \<or> files S = files S0 \<and> rand_pos S = rand_pos S0) \<and>
     (t \<in> {REGISTER, LOGIN, TOKEN_VERIFY} \<or> online_users S = online_users S0) \<and>
     next_client S = next_client S0 \<and> timer_armed S = timer_armed S0 \<and>
     (\<forall>sid. clients S sid = None \<longleftrightarrow> clients S0 sid = None) \<and>
     (\<forall>sid c c'. clients S0 sid = Some c \<longrightarrow> clients S sid = Some c' \<longrightarrow>
        reader c' = reader c \<and> reading c' = reading c) \<and>
     (\<forall>sid c. sid \<noteq> this \<and> clients S0 sid = Some c \<longrightarrow> (\<exists>n. clients S sid = Some (c\<lparr>net := n\<rparr>)))"

lemma bounded_refl: "bounded t this S S"
proof -
  have "\<exists>n. c = c\<lparr>net := n\<rparr>" for c :: client by (rule exI [of _ "net c"]) simp
  then show ?thesis by (auto simp: bounded_def db_bounded_def)
qed

lemma bounded_on_db [preserves_intros]:
  "preserves (db_bounded t (database S0)) m \<Longrightarrow> preserves (bounded t this S0) (on_db m)"
  by (auto simp: preserves_def bounded_def on_db_def split: prod.splits)

lemma bounded_files [preserves_intros]:
  "t = UPLOAD \<Longrightarrow> preserves (bounded t this S0) (on_files (bytesToFile E name bs))"
  "t = UPLOAD \<Longrightarrow> preserves (bounded t this S0) (on_rand (encryptAES E plain key))"
  "preserves (bounded t this S0) (on_files (fileToBytes E name))"
  by (auto simp: preserves_def bounded_def on_files_def on_rand_def fileToBytes_def prog_simps
      split: prod.splits option.splits)

lemma bounded_send_to: "bounded t this S0 S \<Longrightarrow> bounded t this S0 (send_to sid ty b S)"
  by (fastforce simp: bounded_def send_to_def update_client_def)

lemma bounded_put_line: "bounded t this S0 S \<Longrightarrow> bounded t this S0 (put_line x S)"
  by (simp add: bounded_def)

lemma bounded_own:
  "(\<And>c. reader (f c) = reader c \<and> reading (f c) = reading c) \<Longrightarrow> bounded t this S0 S \<Longrightarrow>
    bounded t this S0 (update_client this f S)"
  by (fastforce simp: bounded_def update_client_def)

lemma bounded_sends [preserves_intros]:
  "preserves (bounded t this S0) (modify (send_to sid ty b))"
  "preserves (bounded t this S0) (modify (broadcast l ty b))"
  "(\<And>c. reader (f c) = reader c \<and> reading (f c) = reading c) \<Longrightarrow>
    preserves (bounded t this S0) (modify (update_client this f))"
  "preserves (bounded t this S0) (get_login this)"
  "preserves (bounded t this S0) (log_packet this ty msg)"
  by (intro broadcast_preserves preserves_modify bounded_send_to bounded_own bounded_put_line
      preserves_log_packet, assumption+)+
    (simp_all add: get_login_def preserves_gets preserves_log_packet bounded_put_line)

lemma bounded_calls [preserves_intros]:
  "preserves (bounded t this S0) (set_error this e)"
  "preserves (bounded t this S0) (set_token this tok)"
  "preserves (bounded t this S0) (set_login this l)"
  "preserves (bounded t this S0) (notify l ty b)"
  "t \<in> {REGISTER, LOGIN, TOKEN_VERIFY} \<Longrightarrow> preserves (bounded t this S0) (modify (addUser l x))"
proof -
  show "preserves (bounded t this S0) (notify l ty b)"
    unfolding notify_def by (intro preserves_intros)
  show "preserves (bounded t this S0) (modify (addUser l x))" if "t \<in> {REGISTER, LOGIN, TOKEN_VERIFY}"
    using that by (auto simp: preserves_def modify_run bounded_def addUser_def)
qed (simp_all add: set_error_def set_token_def set_login_def preserves_intros)

section \<open>The handlers\<close>

lemma bounded_authentication [preserves_intros]:
  "t = REGISTER \<Longrightarrow> preserves (bounded t this S0) (handle_register E this body)"
  "t = LOGIN \<Longrightarrow> preserves (bounded t this S0) (handle_login E this body)"
  "preserves (bounded t this S0) (handle_token_verify E this body)"
  "preserves (bounded t this S0) (handle_logout this body)"
  "t \<in> {REGISTER, LOGIN, TOKEN_VERIFY} \<Longrightarrow> preserves (bounded t this S0) (deliver_pending E this)"
  unfolding handle_register_def handle_login_def handle_token_verify_def handle_logout_def
    deliver_pending_def
  by (intro preserves_intros; auto)+

lemma bounded_errors [preserves_intros]:
  "preserves (bounded t this S0) (friend_error this e)"
  "preserves (bounded t this S0) (dm_error this e)"
  "preserves (bounded t this S0) (logins_of ids)"
  unfolding friend_error_def dm_error_def logins_of_def by (intro preserves_intros)+

lemma bounded_plain:
  "plain_handler t = Some h \<Longrightarrow> preserves (bounded t this S0) (h E this body)"
  by (cases t; clarsimp simp: handle_message_def handle_upload_def handle_download_def
      handle_friend_request_def handle_friend_accept_def handle_friend_reject_def
      handle_friend_list_def handle_direct_message_def handle_message_history_def
      handle_chat_list_def; (intro preserves_intros; simp)?)

text \<open>Only three requests can log a session in.\<close>

lemma dispatch_authenticates:
  assumes "dispatch E this t body S = (Inr (response, login, True), S')"
  shows "t \<in> {REGISTER, LOGIN, TOKEN_VERIFY}"
  using assms
  by (auto simp: dispatch_def bnd_def log_packet_def ret_def
      split: if_splits option.splits prod.splits sum.splits)

lemma preserves_bnd_result:
  "preserves I m \<Longrightarrow> (\<And>x s s'. m s = (Inr x, s') \<Longrightarrow> preserves I (f x)) \<Longrightarrow> preserves I (bnd m f)"
  by (fastforce simp: preserves_def bnd_def split: prod.splits sum.splits)

lemma bounded_handle_packet: "preserves (bounded t this S0) (handle_packet E this t body)"
proof -
  have "preserves (bounded t this S0) (dispatch E this t body)"
    unfolding dispatch_def by (intro preserves_intros bounded_plain) simp_all
  then show ?thesis
    unfolding handle_packet_def case_prod_beta
    by (intro preserves_bnd [OF bounded_sends(3)] preserves_bnd_result [where m = "dispatch _ _ _ _"]
        preserves_intros)
      (auto dest: dispatch_authenticates)
qed

end
