(* ===== verification/Settling.thy ===== *)
theory Settling
  imports ManyClients ClientBehaviour Effects
begin

text \<open>
  The whole system comes to rest: without new commands, clients, timer ticks and foreign bytes the
  clients, the connections and the server can take only finitely many steps. What goes up, from the
  commands to the readers of the server, is never increased by what goes down, so the pair of both
  sizes decreases lexicographically: a request that is served may put any number of packets on the
  way down.
\<close>

section \<open>Sums over the entries of a map\<close>

definition total :: "('k \<Rightarrow> 'a \<Rightarrow> nat) \<Rightarrow> ('k \<Rightarrow> 'a option) \<Rightarrow> nat" where
  "total f m = (\<Sum>k \<in> dom m. f k (the (m k)))"

lemma total_split:
  assumes "finite (dom m)" and "m k = Some a"
  shows "total f m = f k a + (\<Sum>j \<in> dom m - {k}. f j (the (m j)))"
  unfolding total_def using assms sum.remove [of "dom m" k "\<lambda>j. f j (the (m j))"] by auto

lemma total_update:
  assumes "finite (dom m)" and "m k = Some a"
  shows "total f (m(k \<mapsto> b)) + f k a = total f m + f k b"
proof -
  have "total f (m(k \<mapsto> b)) = f k b + (\<Sum>j \<in> dom (m(k \<mapsto> b)) - {k}. f j (the ((m(k \<mapsto> b)) j)))"
    by (rule total_split) (use assms(1) in simp_all)
  also have "(\<Sum>j \<in> dom (m(k \<mapsto> b)) - {k}. f j (the ((m(k \<mapsto> b)) j))) =
      (\<Sum>j \<in> dom m - {k}. f j (the (m j)))"
    by (rule sum.cong) auto
  finally show ?thesis using total_split [OF assms, of f] by linarith
qed

lemma total_delete:
  assumes "finite (dom m)" and "m k = Some a"
  shows "total f (m(k := None)) + f k a = total f m"
proof -
  have "total f (m(k := None)) = (\<Sum>j \<in> dom m - {k}. f j (the (m j)))"
    unfolding total_def by (rule sum.cong) auto
  then show ?thesis using total_split [OF assms, of f] by simp
qed

lemma total_cong:
  assumes "dom m' = dom m" and "\<And>k a b. m k = Some a \<Longrightarrow> m' k = Some b \<Longrightarrow> g k b = f k a"
  shows "total g m' = total f m"
  unfolding total_def
proof (rule sum.cong [OF assms(1)])
  fix k assume k: "k \<in> dom m"
  with assms(1) have "k \<in> dom m'" by simp
  with k obtain a b where "m k = Some a" "m' k = Some b" by blast
  with assms(2) show "g k (the (m' k)) = f k (the (m k))" by simp
qed

lemma total_less:
  "finite (dom m) \<Longrightarrow> m k = Some a \<Longrightarrow> f k b < f k a \<Longrightarrow> total f (m(k \<mapsto> b)) < total f m"
  using total_update [of m k a f b] by linarith

lemma total_same:
  "finite (dom m) \<Longrightarrow> m k = Some a \<Longrightarrow> f k b = f k a \<Longrightarrow> total f (m(k \<mapsto> b)) = total f m"
  using total_update [of m k a f b] by linarith

section \<open>The server\<close>

definition reads :: "client \<Rightarrow> nat" where
  "reads c = 1 + (if reading c then 1 else 0) + read_measure (reader c)"

definition packets :: "net \<Rightarrow> nat" where
  "packets n = 3 * length (posted n) + length (write_queue n) + length (in_flight n)"

definition volume :: "net \<Rightarrow> nat" where
  "volume n = length (concat (accepted n))"

definition server_reads :: "server \<Rightarrow> nat" where
  "server_reads S = total (\<lambda>_. reads) (clients S)"

definition server_writes :: "server \<Rightarrow> nat" where
  "server_writes S = total (\<lambda>_ c. packets (net c)) (clients S)"

definition volume_to :: "nat \<Rightarrow> server \<Rightarrow> nat" where
  "volume_to sid S = (case clients S sid of None \<Rightarrow> 0 | Some c \<Rightarrow> volume (net c))"

text \<open>An exit is progress too.\<close>

definition up_server :: "process \<Rightarrow> nat" where
  "up_server p = (case p of Running S \<Rightarrow> Suc (server_reads S) | Exited f S \<Rightarrow> server_reads S)"

lemma finite_sessions: "server_inv S \<Longrightarrow> finite (dom (clients S))"
  by (rule finite_subset [of _ "{..<next_client S}"]) (auto simp: server_inv_def clients_inv_def)

lemma net_step_progress:
  assumes "net_inv n" and "net_step e n = Some r" and "e = RunPosted \<or> e = WriteDone x"
  shows "\<exists>n'. r = Inr n' \<and> packets n' < packets n \<and> volume n' = volume n"
proof -
  from net_step_inv [OF assms(1,2)] obtain n' where n': "r = Inr n'"
    "accepted n' = accepted n @ sent_packets [e]" by blast
  moreover have "packets n' < packets n"
    using net_step_work [of e n n' x] assms(2,3) n'(1) by (simp add: packets_def)
  moreover have "sent_packets [e] = []" using assms(3) by auto
  ultimately show ?thesis by (simp add: volume_def)
qed

fun undisturbed :: "event \<Rightarrow> bool" where
  "undisturbed (Accept error) = False"
| "undisturbed (Arrive sid bs) = False"
| "undisturbed (TimerFired error) = False"
| "undisturbed _ = True"

definition written :: "server \<Rightarrow> server \<Rightarrow> bool" where
  "written S S' \<longleftrightarrow> server_reads S' = server_reads S \<and> server_writes S' < server_writes S \<and>
     (\<forall>sid. volume_to sid S' = volume_to sid S)"

lemma net_handler_written:
  assumes inv: "server_inv S" and step: "net_handler sid e S = Some r"
    and e: "e = RunPosted \<or> e = WriteDone x"
  shows "\<exists>S'. r = (Inr (), S') \<and> written S S'"
proof -
  from step obtain c m where c: "clients S sid = Some c" and m: "net_step e (net c) = Some m"
    by (auto simp: net_handler_def split: option.splits)
  from inv c have "net_inv (net c)" by (simp add: server_inv_def clients_inv_def)
  from net_step_progress [OF this m e] obtain n where n: "m = Inr n" "packets n < packets (net c)"
    "volume n = volume (net c)" by blast
  let ?S = "update_client sid (\<lambda>c. c\<lparr>net := n\<rparr>) S"
  have cl: "clients ?S = (clients S)(sid \<mapsto> c\<lparr>net := n\<rparr>)" using c by (auto simp: update_client_def)
  have "server_reads ?S = server_reads S" "server_writes ?S < server_writes S"
    unfolding server_reads_def server_writes_def cl
    by (rule total_same [OF finite_sessions [OF inv] c], simp add: reads_def)
      (rule total_less [OF finite_sessions [OF inv] c], use n(2) in simp)
  moreover have "volume_to j ?S = volume_to j S" for j
    using n(3) c by (simp add: volume_to_def cl)
  moreover have "r = (Inr (), ?S)" using step c m n(1) by (simp add: net_handler_def)
  ultimately show ?thesis unfolding written_def by blast
qed


text \<open>What serving a packet leaves: every reader, and the session that asked.\<close>

lemma handle_packet_readers:
  assumes "handle_packet E this t b S = (x, S')"
  shows "server_reads S' = server_reads S" and "dom (clients S') = dom (clients S)"
    and "clients S sid = Some c \<Longrightarrow> \<exists>c'. clients S' sid = Some c' \<and> reads c' = reads c"
proof -
  have b: "bounded t this S S'"
    using preservesD [OF bounded_handle_packet bounded_refl, of t this S E b] assms by simp
  then have none: "clients S' sid = None \<longleftrightarrow> clients S sid = None" for sid by (simp add: bounded_def)
  have same: "reads c' = reads c" if "clients S sid = Some c" "clients S' sid = Some c'" for sid c c'
    using b that by (simp add: bounded_def reads_def)
  show dom: "dom (clients S') = dom (clients S)" using none by (auto simp: dom_def)
  show "server_reads S' = server_reads S"
    unfolding server_reads_def by (rule total_cong [OF dom]) (rule same)
  show "\<exists>c'. clients S' sid = Some c' \<and> reads c' = reads c" if "clients S sid = Some c"
    using that none [of sid] same [of sid c] by (cases "clients S' sid") auto
qed

lemma read_reads:
  assumes "handle_packet E this t b S = (x, S')" and "clients S sid = Some c" and "clients S' sid = Some c'"
  shows "reader c' = reader c \<and> reading c' = reading c"
  using preservesD [OF bounded_handle_packet bounded_refl, of t this S E b] assms by (simp add: bounded_def)

lemma set_reader_less:
  assumes "finite (dom (clients S))" and "clients S sid = Some c" and "read_measure r < read_measure (reader c)"
  shows "server_reads (update_client sid (\<lambda>c. c\<lparr>reader := r\<rparr>) S) < server_reads S"
proof -
  have "clients (update_client sid (\<lambda>c. c\<lparr>reader := r\<rparr>) S) = (clients S)(sid \<mapsto> c\<lparr>reader := r\<rparr>)"
    using assms(2) by (auto simp: update_client_def)
  then show ?thesis
    unfolding server_reads_def using total_less [OF assms(1,2), of "\<lambda>_. reads"] assms(3)
    by (simp add: reads_def)
qed

lemma read_complete_progress:
  assumes inv: "server_inv S" and step: "read_complete E sid S = Some r"
  shows "up_server (outcome r) < up_server (Running S)"
proof -
  note fin = finite_sessions [OF inv]
  from step obtain c p rd where c: "clients S sid = Some c" and rd: "read_step (reader c) = Some (p, rd)"
    by (auto simp: read_complete_def split: option.splits if_splits)
  note less = read_step_measure [OF rd]
  show ?thesis
  proof (cases p)
    case None
    with step c rd set_reader_less [OF fin c less] show ?thesis
      by (auto simp: read_complete_def prog_simps outcome_def up_server_def split: if_splits)
  next
    case (Some packet)
    obtain x S1 where run: "handle_packet E sid (fst packet) (snd packet) S = (x, S1)" by force
    note same = handle_packet_readers [OF run]
      from same(3) [OF c] obtain c1 where c1: "clients S1 sid = Some c1" "reads c1 = reads c" by blast
    show ?thesis
    proof (cases x)
      case (Inl f)
      with step c rd Some run have "r = (Inl f, S1)"
        by (auto simp: read_complete_def read_handler_def prog_simps split: if_splits)
      with same(1) show ?thesis by (simp add: outcome_def up_server_def)
    next
      case (Inr u)
      let ?S = "update_client sid (\<lambda>c. c\<lparr>reader := rd\<rparr>) S1"
      have r: "r = (Inr (), ?S)" using Inr step c rd Some run
        by (auto simp: read_complete_def read_handler_def prog_simps split: if_splits)
      have "clients ?S = (clients S1)(sid \<mapsto> c1\<lparr>reader := rd\<rparr>)"
        using c1 by (auto simp: update_client_def)
      moreover have "reads (c1\<lparr>reader := rd\<rparr>) < reads c1"
        using read_reads [OF run c c1(1)] less by (simp add: reads_def)
      ultimately have "server_reads ?S < server_reads S1"
        unfolding server_reads_def using total_less [of "clients S1" sid c1 "\<lambda>_. reads"] fin same(2) c1(1)
        by simp
      with r same(1) show ?thesis by (simp add: outcome_def up_server_def)
    qed
  qed
qed

lemma read_failed_progress:
  assumes inv: "server_inv S" and step: "read_failed sid S = Some r"
  shows "up_server (outcome r) < up_server (Running S)"
proof -
  let ?S = "update_client sid (\<lambda>c. c\<lparr>reading := False\<rparr>) S"
  from step obtain c where c: "clients S sid = Some c" "reading c"
    and n: "net_handler sid ReadFailed ?S = Some r"
    by (auto simp: read_failed_def split: option.splits if_splits)
  let ?c = "c\<lparr>reading := False, net := (net c)\<lparr>sock_open := False\<rparr>\<rparr>"
  from n c obtain S' where r: "r = (Inr (), S')" and cl: "clients S' = (clients S)(sid \<mapsto> ?c)"
    by (auto simp: net_handler_def update_client_def)
  have "server_reads S' < server_reads S"
    unfolding server_reads_def cl using c(2)
    by (intro total_less [OF finite_sessions [OF inv] c(1)]) (simp add: reads_def)
  with r show ?thesis by (simp add: outcome_def up_server_def)
qed

lemma release_progress:
  assumes inv: "server_inv S" and step: "release sid S = Some r"
  shows "up_server (outcome r) < up_server (Running S)"
proof -
  from step obtain c where c: "clients S sid = Some c" and r: "r = (Inr (), destroy_session sid S)"
    by (auto simp: release_def split: option.splits if_splits)
  have "clients (destroy_session sid S) = (clients S)(sid := None)"
    using c by (simp add: destroy_session_def Let_def removeUser_def)
  then have "server_reads (destroy_session sid S) + reads c = server_reads S"
    using total_delete [OF finite_sessions [OF inv] c, of "\<lambda>_. reads"] by (simp add: server_reads_def)
  moreover have "0 < reads c" by (simp add: reads_def)
  ultimately show ?thesis using r by (simp add: outcome_def up_server_def)
qed

lemma server_progress:
  assumes inv: "server_inv S" and "undisturbed e" and step: "server_step E e S = Some r"
  shows "up_server (outcome r) < up_server (Running S) \<or> (\<exists>S'. r = (Inr (), S') \<and> written S S')"
proof (cases e)
  case (ReadComplete sid)
  with read_complete_progress [OF inv] step show ?thesis by simp
next
  case (ReadFail sid)
  with read_failed_progress [OF inv] step show ?thesis by simp
next
  case (RunPost sid)
  with net_handler_written [OF inv] step show ?thesis by simp
next
  case (WriteComplete sid error)
  with net_handler_written [OF inv] step show ?thesis by simp
next
  case (Release sid)
  with release_progress [OF inv] step show ?thesis by simp
qed (use assms(2) in simp_all)

text \<open>Bytes that arrive for a session.\<close>

lemma arrive_reads:
  assumes inv: "server_inv S" and c: "clients S sid \<noteq> None"
  shows "server_reads (arrive sid bs S) = server_reads S + 2 * length bs"
proof -
  obtain k where k: "clients S sid = Some k" using c by auto
  let ?k = "k\<lparr>reader := (reader k)\<lparr>inbuf := inbuf (reader k) @ bs\<rparr>\<rparr>"
  have "clients (arrive sid bs S) = (clients S)(sid \<mapsto> ?k)"
    using k by (auto simp: arrive_def update_client_def)
  moreover have "reads ?k = reads k + 2 * length bs" by (simp add: reads_def)
  ultimately show ?thesis
    using total_update [OF finite_sessions [OF inv] k, of "\<lambda>_. reads" ?k] by (simp add: server_reads_def)
qed

section \<open>The clients\<close>

fun step_bytes :: "thread_step \<Rightarrow> nat" where
  "step_bytes (PushPending type) = 0"
| "step_bytes (PostPacket type body) = length (full_packet type body)"

text \<open>What a client has to send and to receive, with the bytes \<open>taken\<close> from its writer.\<close>

definition sends :: "nat \<Rightarrow> client_app \<Rightarrow> nat" where
  "sends taken A = 4 * length (thread_steps (adapter A)) + packets (base_net (handler A)) +
     4 * (\<Sum>t\<leftarrow>thread_steps (adapter A). step_bytes t) + 4 * (volume (base_net (handler A)) - taken) +
     (if base_reading (handler A) then 1 else 0)"

definition receives :: "client_app \<Rightarrow> nat" where
  "receives A = 2 * read_measure (base_reader (handler A)) + length (world (handler A))"

lemma client_read_frame:
  assumes ok: "client_ok Q A" and step: "client_read A = Some (Inr u, B)"
  shows "adapter B = adapter A \<and> base_net (handler B) = base_net (handler A) \<and>
    base_reading (handler B) = base_reading (handler A)"
proof -
  let ?H = "handler A"
  from step obtain p r where r: "read_step (base_reader ?H) = Some (p, r)"
    by (auto simp: client_read_def split: if_splits option.splits)
  show ?thesis
  proof (cases p)
    case None
    with step r show ?thesis
      by (auto simp: client_read_def on_handler_def set_reader_def prog_simps split: if_splits)
  next
    case (Some packet)
    obtain t b where tb: "packet = (t, b)" by force
    from ok handle_packet_reference [of ?H Q t b] step r Some tb obtain sigs w
      where "handle_packet_async t b ?H = (Inr (), advance 1 sigs w ?H)"
      by (cases "reference Q [(t, b)] (pending_requests ?H)"; cases "handle_packet_async t b ?H")
        (auto simp: client_ok_def client_read_def on_handler_def bnd_def split: if_splits)
    with step r Some tb show ?thesis
      by (auto simp: client_read_def on_handler_def set_reader_def prog_simps advance_def split: if_splits)
  qed
qed

definition client_progress :: "nat \<Rightarrow> client_app \<Rightarrow> client_app \<Rightarrow> bool" where
  "client_progress taken A B \<longleftrightarrow> sends taken B < sends taken A \<or>
     sends taken B = sends taken A \<and> receives B < receives A"

lemma progress_by_work:
  assumes "work B < work A" and "thread_steps (adapter B) = thread_steps (adapter A)"
    and "base_net (handler B) = base_net (handler A)" and "base_reading (handler B) = base_reading (handler A)"
  shows "client_progress taken A B"
  using assms by (simp add: client_progress_def work_def Let_def sends_def receives_def)

lemma client_net_progress:
  assumes "net_inv (base_net (handler A))" and "client_net e A = Some (Inr u, B)"
    and "e = RunPosted \<or> e = WriteDone x"
  shows "sends taken B < sends taken A"
proof -
  from assms(2) obtain n where n: "net_step e (base_net (handler A)) = Some (Inr n)"
    and B: "B = A\<lparr>handler := (handler A)\<lparr>base_net := n\<rparr>\<rparr>"
    by (auto simp: client_net_def split: option.splits sum.splits)
  from net_step_progress [OF assms(1) n assms(3)] B show ?thesis by (auto simp: sends_def)
qed

lemma client_step_progress:
  assumes ok: "client_ok Q A" and inv: "net_inv (base_net (handler A))"
    and step: "client_step Q E e A = Some (Inr u, B)" and e: "\<not> is_command e"
  shows "client_progress taken A B"
proof (cases e)
  case ThreadStep
  then obtain t ts where t: "thread_steps (adapter A) = t # ts" and
    B: "B = A\<lparr>handler := run_thread_step t (handler A), adapter := (adapter A)\<lparr>thread_steps := ts\<rparr>\<rparr>"
    using step by (auto simp: thread_handler_def split: list.splits)
  have "sends taken B < sends taken A"
    using t B by (cases t) (auto simp: sends_def packets_def volume_def accepted_def send_packet_def)
  then show ?thesis by (simp add: client_progress_def)
next
  case Signal
  then obtain sig queue where "world (handler A) = sig # queue"
    and "on_adapter (connected Q sig) (A\<lparr>handler := (handler A)\<lparr>world := queue\<rparr>,
      shown := shown A @ [sig]\<rparr>) = (Inr u, B)"
    using step by (auto simp: deliver_signal_def split: if_splits list.splits)
  then have "thread_steps (adapter B) = thread_steps (adapter A)" "handler B = (handler A)\<lparr>world := queue\<rparr>"
    using connected_steps [of Q sig "adapter A"] by (auto simp: on_adapter_def split: prod.splits)
  with client_step_work(2) [OF ok step e] show ?thesis by (intro progress_by_work) simp_all
next
  case ClientRead
  then have "client_read A = Some (Inr u, B)" using step by simp
  from client_read_frame [OF ok this] client_step_work(2) [OF ok step e] show ?thesis
    by (intro progress_by_work) simp_all
next
  case ClientReadFail
  then have "sends taken B < sends taken A" using step
    by (auto simp: client_read_failed_def client_net_def sends_def packets_def volume_def accepted_def
        split: if_splits)
  then show ?thesis by (simp add: client_progress_def)
next
  case ClientRunPost
  with client_net_progress [OF inv, of RunPosted] step show ?thesis by (auto simp: client_progress_def)
next
  case (ClientWriteDone error)
  with client_net_progress [OF inv, of "WriteDone error"] step show ?thesis
    by (auto simp: client_progress_def)
qed (use e in simp)

section \<open>A client and its connection\<close>

definition outgoing :: "conversation \<Rightarrow> nat" where
  "outgoing c = sends (taken_up c) (client_side c) + 3 * length (up c)"

definition incoming :: "nat \<Rightarrow> server \<Rightarrow> conversation \<Rightarrow> nat" where
  "incoming i S c = receives (client_side c) + 5 * length (down c) + 6 * (volume_to i S - taken_down c)"

text \<open>The events of a client other than a new command; the connection moves at least one byte.\<close>

fun moves :: "link_event \<Rightarrow> conversation \<Rightarrow> bool" where
  "moves (Serve e) c = False"
| "moves (Act e) c = (\<not> is_command e)"
| "moves (Upload k) c = (0 < k)"
| "moves (Download k) c = (0 < k)"
| "moves (ReachServer k) c = (0 < k \<and> up c \<noteq> [])"
| "moves (ReachClient k) c = (0 < k \<and> down c \<noteq> [])"

lemma handed_volume: "net_inv n \<Longrightarrow> length (handed n) \<le> volume n"
  by (rule handed_prefix) (auto simp: volume_def)

text \<open>Bytes that move on lose weight.\<close>

lemma lighter:
  assumes "0 < k" and "bs \<noteq> []" and "(a :: nat) < b"
  shows "a * min (length bs) k + b * (length bs - k) < b * length bs"
proof -
  have m: "0 < min (length bs) k" "min (length bs) k + (length bs - k) = length bs" using assms(1,2) by simp_all
  have "a * min (length bs) k + b * (length bs - k) < b * min (length bs) k + b * (length bs - k)"
    using m(1) assms(3) by (simp only: add_less_cancel_right mult_less_cancel2)
  also have "\<dots> = b * length bs" by (simp only: m(2) flip: distrib_left)
  finally show ?thesis .
qed

lemma reach_server_progress:
  assumes inv: "conversation_inv i s" and S: "server_side s = Running S" "clients S i \<noteq> None"
    and "0 < k" "up s \<noteq> []"
  shows "up_server (Running (arrive i (take k (up s)) S)) + outgoing (s\<lparr>server_side := p, up := drop k (up s)\<rparr>) <
    up_server (server_side s) + outgoing s"
proof -
  have "server_inv S" using inv S by (simp add: conversation_inv_def steady_def)
  from arrive_reads [OF this S(2)] lighter [OF assms(4,5), of 2 3] show ?thesis
    using S by (simp add: up_server_def outgoing_def)
qed

lemma reach_client_progress:
  assumes "0 < k" "down s \<noteq> []"
  shows "incoming i S (s\<lparr>client_side := client_arrive (take k (down s)) (client_side s), down := drop k (down s)\<rparr>) <
    incoming i S s"
proof -
  have "receives (client_arrive (take k (down s)) (client_side s)) =
      receives (client_side s) + 4 * min (length (down s)) k"
    by (simp add: receives_def client_arrive_def)
  with lighter [OF assms, of 4 5] show ?thesis by (simp add: incoming_def)
qed

lemma link_progress:
  assumes inv: "conversation_inv i s" and ok: "client_ok Q (client_side s)"
    and step: "link_step Q E i e s = Some t" and e: "moves e s"
  shows "up_server (server_side t) + outgoing t < up_server (server_side s) + outgoing s \<or>
    server_side t = server_side s \<and> outgoing t = outgoing s \<and>
    incoming i (server_state (server_side s)) t < incoming i (server_state (server_side s)) s"
proof (cases e)
  case (Act a)
  with step obtain x B where x: "client_step Q E a (client_side s) = Some (x, B)"
    and fit: "headers_fit (base_net (handler B))"
    and t: "t = s\<lparr>client_side := B, client_fault := (case x of Inl f \<Rightarrow> Some f | Inr _ \<Rightarrow> None)\<rparr>"
    by (auto split: if_splits option.splits)
  from act_keeps [OF inv x fit] have "x = Inr ()" by simp
  moreover have "net_inv (base_net (handler (client_side s)))"
    using inv by (simp add: conversation_inv_def steady_def client_net_of_def)
  ultimately have "client_progress (taken_up s) (client_side s) B"
    using client_step_progress [OF ok] x e Act by simp
  then show ?thesis by (auto simp: t client_progress_def outgoing_def incoming_def)
next
  case (Upload k)
  have "net_inv (client_net_of s)" using inv by (simp add: conversation_inv_def steady_def)
  from handed_volume [OF this] step e Upload show ?thesis
    by (auto simp: outgoing_def sends_def take_bytes_def client_net_of_def split: if_splits)
next
  case (Download k)
  with step obtain S c where S: "server_side s = Running S" and c: "clients S i = Some c"
    and k: "taken_down s + k \<le> length (handed (net c))"
    and t: "t = s\<lparr>down := down s @ take_bytes (taken_down s) k (net c), taken_down := taken_down s + k\<rparr>"
    by (auto split: process.splits option.splits if_splits)
  from inv S c have "net_inv (net c)"
    by (simp add: conversation_inv_def steady_def server_inv_def clients_inv_def)
  from handed_volume [OF this] k e Download S c show ?thesis
    by (simp add: t outgoing_def incoming_def server_state_def volume_to_def take_bytes_def)
next
  case (ReachServer k)
  with step obtain S where S: "server_side s = Running S" "clients S i \<noteq> None"
    and t: "t = s\<lparr>server_side := Running (arrive i (take k (up s)) S), up := drop k (up s)\<rparr>"
    by (auto split: process.splits if_splits)
  from reach_server_progress [OF inv S] e ReachServer show ?thesis by (simp add: t)
next
  case (ReachClient k)
  with step have t: "t = s\<lparr>client_side := client_arrive (take k (down s)) (client_side s),
      down := drop k (down s)\<rparr>" by (auto split: if_splits)
  have "outgoing t = outgoing s" by (simp add: t outgoing_def sends_def client_arrive_def)
  with reach_client_progress e ReachClient show ?thesis by (simp add: t)
qed (use e in simp)

lemma conversing_client_ok:
  assumes "store_inv s0" and "conversing Q E s0 fs qfs i s"
  shows "client_ok Q (client_side s)"
  using assms(2)
proof induction
  case (connect S)
  show ?case by (simp add: connected_pair_def client_main_ok)
next
  case (progress s t)
  note inv = conversing_inv [OF assms(1) progress.hyps(1)]
  from progress.hyps(2) show ?case
  proof cases
    case (act e x B)
    with act_keeps [OF inv, of Q E e x B] client_step_work(1) [OF progress.IH, of E e] show ?thesis by auto
  qed (use progress.IH in \<open>auto simp: client_ok_def client_arrive_def\<close>)
qed

section \<open>The system\<close>

definition upward :: "messenger \<Rightarrow> nat" where
  "upward W = up_server (server_process W) + total (\<lambda>_. outgoing) (sides W)"

definition downward :: "messenger \<Rightarrow> nat" where
  "downward W = (let S = server_state (server_process W) in server_writes S + total (\<lambda>i. incoming i S) (sides W))"

text \<open>What happens while nobody gives a command, no client joins and the timer does not fire.\<close>

fun calm :: "messenger_event \<Rightarrow> messenger \<Rightarrow> bool" where
  "calm (ServerEvent e) W = undisturbed e"
| "calm (Join qfs) W = False"
| "calm (ClientEvent i e) W = (case sides W i of None \<Rightarrow> False | Some c \<Rightarrow> moves e c)"

definition calm_step :: "qt \<Rightarrow> env \<Rightarrow> messenger \<Rightarrow> messenger \<Rightarrow> bool" where
  "calm_step Q E W W' \<longleftrightarrow> (\<exists>e. calm e W \<and> messenger_do Q E e W = Some W')"

lemma finite_sides: "messenger_reachable Q E s0 fs W \<Longrightarrow> finite (dom (sides W))"
proof (induction rule: messenger_reachable.induct)
  case (continued W W')
  from continued.hyps(2) obtain i where "dom (sides W') \<subseteq> insert i (dom (sides W))"
    by cases auto
  then show ?case using continued.IH finite_subset by blast
qed simp

lemma messenger_server_inv:
  assumes "store_inv s0" and "messenger_reachable Q E s0 fs W" and "server_process W = Running S"
  shows "server_inv S"
  using messenger_refines [OF assms(2)] assms(3) reachable_inv [OF assms(1), of E fs "Running S"]
  by (simp add: refines_def)

lemma side_simps [simp]:
  "client_side (side W c) = client_side c" "server_side (side W c) = server_process W"
  "up (side W c) = up c" "down (side W c) = down c" "taken_up (side W c) = taken_up c"
  "taken_down (side W c) = taken_down c" "client_fault (side W c) = client_fault c"
  by (simp_all add: side_def)

lemma side_sizes [simp]:
  "outgoing (side W c) = outgoing c" "incoming i S (side W c) = incoming i S c"
  by (simp_all add: outgoing_def incoming_def)

lemma moves_side [simp]: "moves e (side W c) = moves e c"
  by (cases e) simp_all

lemma server_event_decreases:
  assumes inv: "server_inv S" and S: "server_process W = Running S" and e: "undisturbed e"
    and step: "server_step E e S = Some r"
  shows "upward (W\<lparr>server_process := outcome r\<rparr>) < upward W \<or>
    upward (W\<lparr>server_process := outcome r\<rparr>) = upward W \<and> downward (W\<lparr>server_process := outcome r\<rparr>) < downward W"
  using server_progress [OF inv e step]
proof (elim disjE exE conjE)
  assume "up_server (outcome r) < up_server (Running S)"
  then show ?thesis using S by (simp add: upward_def)
next
  fix S' assume r: "r = (Inr (), S')" and w: "written S S'"
  have "total (\<lambda>i. incoming i S') (sides W) = total (\<lambda>i. incoming i S) (sides W)"
    by (rule total_cong) (use w in \<open>auto simp: incoming_def written_def\<close>)
  then show ?thesis using r w S
    by (simp add: upward_def downward_def Let_def outcome_def up_server_def server_state_def written_def)
qed

lemma client_event_decreases:
  assumes s0: "store_inv s0" and W: "messenger_reachable Q E s0 fs W" and c: "sides W i = Some c"
    and step: "link_step Q E i e (side W c) = Some c'" and e: "moves e c"
  shows "upward (W\<lparr>server_process := server_side c', sides := (sides W)(i \<mapsto> c')\<rparr>) < upward W \<or>
    upward (W\<lparr>server_process := server_side c', sides := (sides W)(i \<mapsto> c')\<rparr>) = upward W \<and>
    downward (W\<lparr>server_process := server_side c', sides := (sides W)(i \<mapsto> c')\<rparr>) < downward W"
proof -
  from messenger_refines [OF W] c obtain qfs where conv: "conversing Q E s0 fs qfs i (side W c)"
    by (rule refinesE)
  note fin = finite_sides [OF W]
  from link_progress [OF conversing_inv [OF s0 conv] conversing_client_ok [OF s0 conv] step] e
  consider (up) "up_server (server_side c') + outgoing c' < up_server (server_process W) + outgoing c"
    | (down) "server_side c' = server_process W" "outgoing c' = outgoing c"
      "incoming i (server_state (server_process W)) c' < incoming i (server_state (server_process W)) c"
    by auto
  then show ?thesis
  proof cases
    case up
    then show ?thesis using total_update [OF fin c, of "\<lambda>_. outgoing" c'] by (simp add: upward_def)
  next
    case down
    then show ?thesis
      using total_same [OF fin c, of "\<lambda>_. outgoing" c'] total_less [OF fin c, of "\<lambda>i. incoming i (server_state (server_process W))" c']
        down
      by (simp add: upward_def downward_def Let_def)
  qed
qed

lemma calm_step_decreases:
  assumes s0: "store_inv s0" and W: "messenger_reachable Q E s0 fs W" and step: "calm_step Q E W W'"
  shows "upward W' < upward W \<or> upward W' = upward W \<and> downward W' < downward W"
proof -
  from step obtain e where e: "calm e W" "messenger_do Q E e W = Some W'" by (auto simp: calm_step_def)
  show ?thesis
  proof (cases e)
    case (ServerEvent a)
    with e obtain S r where "server_process W = Running S" "server_step E a S = Some r"
      "W' = W\<lparr>server_process := outcome r\<rparr>" "undisturbed a"
      by (auto split: process.splits option.splits if_splits)
    with server_event_decreases messenger_server_inv [OF s0 W] show ?thesis by blast
  next
    case (ClientEvent i a)
    with e obtain c c' where "sides W i = Some c" "link_step Q E i a (side W c) = Some c'" "moves a c"
      "W' = W\<lparr>server_process := server_side c', sides := (sides W)(i \<mapsto> c')\<rparr>"
      by (auto split: option.splits if_splits)
    with client_event_decreases [OF s0 W] show ?thesis by blast
  qed (use e in simp)
qed

lemma calm_run_ends:
  assumes s0: "store_inv s0" and W: "messenger_reachable Q E s0 fs (f 0)"
  shows "\<exists>n. \<not> calm_step Q E (f n) (f (Suc n))"
proof (rule ccontr)
  assume "\<not> ?thesis"
  then have run: "calm_step Q E (f n) (f (Suc n))" for n by simp
  have reach: "messenger_reachable Q E s0 fs (f n)" for n
  proof (induction n)
    case (Suc n)
    from run [of n] obtain e where "messenger_do Q E e (f n) = Some (f (Suc n))" by (auto simp: calm_step_def)
    then show ?case using messenger_reachable.continued [OF Suc] messenger_do_sound by blast
  qed (rule W)
  let ?m = "\<lambda>n. (upward (f n), downward (f n))"
  have "(?m (Suc n), ?m n) \<in> less_than <*lex*> less_than" for n
    using calm_step_decreases [OF s0 reach run] by auto
  moreover have "wf (less_than <*lex*> less_than)" by (intro wf_lex_prod wf_less_than)
  ultimately show False
    unfolding wf_iff_no_infinite_down_chain by (elim notE, intro exI [of _ ?m]) blast
qed

section \<open>When nothing can happen\<close>

fun failure :: "messenger_event \<Rightarrow> bool" where
  "failure (ServerEvent (ReadFail sid)) = True"
| "failure (ServerEvent (WriteComplete sid error)) = error"
| "failure (ServerEvent (Release sid)) = True"
| "failure (ClientEvent i (Act ClientReadFail)) = True"
| "failure (ClientEvent i (Act (ClientWriteDone error))) = error"
| "failure _ = False"

text \<open>An event that is possible but for the bound on the length of packets.\<close>

fun can_happen :: "qt \<Rightarrow> env \<Rightarrow> messenger_event \<Rightarrow> messenger \<Rightarrow> bool" where
  "can_happen Q E (ServerEvent e) W =
     (case server_process W of Running S \<Rightarrow> server_step E e S \<noteq> None | Exited f S \<Rightarrow> False)"
| "can_happen Q E (Join qfs) W = False"
| "can_happen Q E (ClientEvent i e) W =
     (case sides W i of
        None \<Rightarrow> False
      | Some c \<Rightarrow>
          (case e of
             Act a \<Rightarrow> client_step Q E a (client_side c) \<noteq> None
           | _ \<Rightarrow> link_step Q E i e (side W c) \<noteq> None))"

definition settled :: "qt \<Rightarrow> env \<Rightarrow> messenger \<Rightarrow> bool" where
  "settled Q E W \<longleftrightarrow> (\<forall>e. calm e W \<and> \<not> failure e \<longrightarrow> \<not> can_happen Q E e W)"

lemma settledD: "settled Q E W \<Longrightarrow> calm e W \<Longrightarrow> \<not> failure e \<Longrightarrow> \<not> can_happen Q E e W"
  by (simp add: settled_def)

text \<open>An open writer that cannot go on has handed everything over.\<close>

lemma idle_writer:
  assumes "net_inv n" and "sock_open n" and "net_step RunPosted n = None"
    and "net_step (WriteDone False) n = None"
  shows "length (handed n) = volume n"
proof -
  have "posted n = []" "in_flight n = []" using assms(3,4) by (auto split: list.splits)
  moreover from this have "write_queue n = []" using assms(1,2) by (auto simp: net_inv_def)
  ultimately show ?thesis by (simp add: handed_def volume_def accepted_def)
qed

lemma settled_client:
  assumes W: "settled Q E W" and c: "sides W i = Some c"
    and inv: "net_inv (base_net (handler (client_side c)))" and open_: "sock_open (base_net (handler (client_side c)))"
    and "base_reading (handler (client_side c))"
  shows "thread_steps (adapter (client_side c)) = []" and "read_step (base_reader (handler (client_side c))) = None"
    and "length (handed (base_net (handler (client_side c)))) = volume (base_net (handler (client_side c)))"
    and "volume (base_net (handler (client_side c))) \<le> taken_up c"
proof -
  have no: "client_step Q E a (client_side c) = None" if "\<not> is_command a" "\<not> failure (ClientEvent i (Act a))" for a
    using settledD [OF W, of "ClientEvent i (Act a)"] c that
    by (cases "client_step Q E a (client_side c)") simp_all
  show "thread_steps (adapter (client_side c)) = []"
    using no [of ThreadStep] by (auto simp: thread_handler_def split: list.splits)
  show "read_step (base_reader (handler (client_side c))) = None"
    using no [of ClientRead] assms(5) by (auto simp: client_read_def split: option.splits prod.splits)
  show handed: "length (handed (base_net (handler (client_side c)))) = volume (base_net (handler (client_side c)))"
    by (rule idle_writer [OF inv open_])
      (use no [of ClientRunPost] no [of "ClientWriteDone False"] in \<open>auto simp: client_net_def split: option.splits sum.splits\<close>)
  show "volume (base_net (handler (client_side c))) \<le> taken_up c"
    using settledD [OF W, of "ClientEvent i (Upload 1)"] c handed
    by (simp add: client_net_of_def split: if_splits)
qed

lemma settled_server:
  assumes W: "settled Q E W" and S: "server_process W = Running S" "clients S i = Some k"
    and inv: "net_inv (net k)" and open_: "sock_open (net k)" and "reading k"
  shows "read_step (reader k) = None" and "length (handed (net k)) = volume (net k)"
proof -
  have no: "server_step E e S = None" if "undisturbed e" "\<not> failure (ServerEvent e)" for e
    using settledD [OF W, of "ServerEvent e"] S that by (cases "server_step E e S") simp_all
  show "read_step (reader k) = None"
    using no [of "ReadComplete i"] S(2) assms(6) by (auto simp: read_complete_def split: option.splits prod.splits)
  show "length (handed (net k)) = volume (net k)"
    by (rule idle_writer [OF inv open_])
      (use no [of "RunPost i"] no [of "WriteComplete i False"] S(2) in
        \<open>auto simp: net_handler_def split: option.splits sum.splits\<close>)
qed

lemma settled_link:
  assumes W: "settled Q E W" and c: "sides W i = Some c" and S: "server_process W = Running S" "clients S i = Some k"
    and "client_fault c = None"
  shows "up c = []" and "down c = []" and "length (handed (net k)) \<le> taken_down c"
  using settledD [OF W, of "ClientEvent i (ReachServer 1)"] settledD [OF W, of "ClientEvent i (ReachClient 1)"]
    settledD [OF W, of "ClientEvent i (Download 1)"] c S assms(5)
  by (auto split: if_splits)

lemma settled_at_rest:
  assumes s0: "store_inv s0" and reach: "messenger_reachable Q E s0 fs W" and W: "settled Q E W"
    and c: "sides W i = Some c" and S: "server_process W = Running S" "clients S i = Some k"
    and "reading k" "sock_open (net k)"
    and "base_reading (handler (client_side c))" "sock_open (base_net (handler (client_side c)))"
  shows "at_rest i (side W c)"
proof -
  from messenger_refines [OF reach] c obtain qfs where "conversing Q E s0 fs qfs i (side W c)"
    by (rule refinesE)
  from conversing_inv [OF s0 this] obtain A D rest ts out where f: "flowing i (side W c) A D rest ts out"
    and st: "steady i (side W c)" by (rule conversation_invE)
  have inv: "net_inv (base_net (handler (client_side c)))" "client_fault c = None"
    "taken_up c \<le> volume (base_net (handler (client_side c)))"
    using st by (simp_all add: steady_def client_net_of_def volume_def)
  have k: "session_of i (side W c) = Some k" "net_inv (net k)"
    using S messenger_server_inv [OF s0 reach S(1)]
    by (simp_all add: session_of_def server_inv_def clients_inv_def)
  have "taken_down c \<le> volume (net k)" using f k(1) by (simp add: flowing_def volume_def)
  with settled_client [OF W c inv(1) assms(10,9)] settled_server [OF W S k(2) assms(8,7)]
    settled_link [OF W c S inv(2)] inv(3) k(1)
  show ?thesis
    by (simp add: at_rest_def steps_of_def client_net_of_def volume_def)
qed

lemma settled_idle:
  assumes "settled Q E W" and "sides W i = Some c" and "thread_steps (adapter (client_side c)) = []"
  shows "world (handler (client_side c)) = []"
  using settledD [OF assms(1), of "ClientEvent i (Act Signal)"] assms(2,3)
  by (auto simp: deliver_signal_def simp del: split_paired_All split_paired_Ex split: list.splits)

text \<open>One client, whose conversation is at rest.\<close>

definition settled_parts :: "conversation \<Rightarrow> client \<Rightarrow> bool" where
  "settled_parts c k \<longleftrightarrow>
     thread_steps (adapter (client_side c)) = [] \<and> world (handler (client_side c)) = [] \<and>
     read_step (base_reader (handler (client_side c))) = None \<and> read_step (reader k) = None \<and>
     posted (client_net_of c) = [] \<and> in_flight (client_net_of c) = [] \<and>
     posted (net k) = [] \<and> in_flight (net k) = [] \<and> up c = [] \<and> down c = [] \<and>
     taken_up c = length (handed (client_net_of c)) \<and> taken_down c = length (handed (net k))"

lemma settled_alone:
  assumes c: "dom (sides W) = {i}" "sides W i = Some c" and S: "server_process W = Running S"
    and k: "\<forall>j. clients S j \<noteq> None \<longrightarrow> j = i" "clients S i = Some k"
    and parts: "settled_parts c k"
  shows "settled Q E W"
  unfolding settled_def
proof (intro allI impI notI, elim conjE)
  have others: "sides W j = None" if "j \<noteq> i" for j using c(1) that by auto
  have only: "j = i \<and> x = k" if "clients S j = Some x" for j x
    using that k by (cases "j = i") auto
  fix e assume e: "calm e W" "\<not> failure e" "can_happen Q E e W"
  show False
  proof (cases e)
    case (ServerEvent a)
    with e S have "server_step E a S \<noteq> None" by simp
    with ServerEvent e parts show False
      by (cases a) (auto simp: settled_parts_def read_complete_def net_handler_def
          dest!: only split: if_splits option.splits)
  next
    case (ClientEvent j a)
    have j: "j = i" using ClientEvent e(1) others [of j] by (cases "j = i") simp_all
    with ClientEvent e(1) c(2) have "moves a c" by simp
    show False
    proof (cases a)
      case (Act x)
      with ClientEvent e j c(2) parts show False
        by (cases x) (auto simp: settled_parts_def thread_handler_def deliver_signal_def client_read_def client_net_def
            client_net_of_def split: if_splits)
    qed (use ClientEvent e j assms \<open>moves a c\<close> in \<open>auto simp: settled_parts_def side_def client_net_of_def\<close>)
  qed (use e in simp)
qed

end
