(* ===== verification/ClientDemo.thy ===== *)
theory ClientDemo
  imports Demo Settling Logger
begin

text \<open>
  A concrete Qt, and a concrete conversation of a client with the server of the demonstration,
  on which the witnesses of the client's properties are evaluated.
\<close>

definition demo_qt :: qt where
  "demo_qt = \<lparr>fromStdString = qascii, toStdString = map (\<lambda>u. char_of (unat u)),
     toUtf8 = map (\<lambda>u. of_nat (unat u)), fromUtf8 = map (\<lambda>b. of_nat (unat b)),
     trimmed = (\<lambda>q. q), writableLocation = qascii ''/d'',
     open_write = (\<lambda>_. True), open_read = (\<lambda>_. True), may_remove = (\<lambda>_. True)\<rparr>"

lemma demo_qt_sel [simp]:
  "fromStdString demo_qt = qascii" "toStdString demo_qt = map (\<lambda>u. char_of (unat u))"
  "toUtf8 demo_qt = map (\<lambda>u. of_nat (unat u))" "fromUtf8 demo_qt = map (\<lambda>b. of_nat (unat b))"
  "trimmed demo_qt q = q" "open_write demo_qt f" "open_read demo_qt f" "may_remove demo_qt f"
  by (simp_all add: demo_qt_def)

lemma unat_byte_of_char [simp]: "unat (byte_of_char c) = of_char c"
proof -
  have "(of_char c :: nat) mod 256 = of_char c" by (rule of_char_mod_256)
  then show ?thesis by (simp add: byte_of_char_def unat_of_nat)
qed

lemma ucast_chars:
  "ucast (of_nat (of_char c) :: 16 word) = byte_of_char c"
  "ucast (byte_of_char c) = (of_nat (of_char c) :: 16 word)"
proof -
  have "of_nat (unat (of_nat (of_char c) :: 16 word)) = (ucast (of_nat (of_char c) :: 16 word) :: byte)"
    by (rule of_nat_unat)
  then show "ucast (of_nat (of_char c) :: 16 word) = byte_of_char c"
    by (simp only: unat_of_char16 byte_of_char_def)
  have "of_nat (unat (byte_of_char c)) = (ucast (byte_of_char c) :: 16 word)" by (rule of_nat_unat)
  then show "ucast (byte_of_char c) = (of_nat (of_char c) :: 16 word)"
    by (simp only: unat_byte_of_char)
qed

lemma demo_qt_contract: "qt_contract demo_qt"
  by (auto simp: qt_contract_def qascii_def comp_def map_idI ucast_chars)

text \<open>The server is started and accepts one client, which asks for the chat list without a token.\<close>

definition demo_started :: server where
  "demo_started = snd (main_init demo_env (Server demo_store Map.empty))"

definition demo_accepted :: server where
  "demo_accepted = snd (accept_handler False demo_started)"

lemma demo_started_reachable: "reachable demo_env demo_store Map.empty (Running demo_started)"
proof -
  have "outcome (main_init demo_env (Server demo_store Map.empty)) = Running demo_started"
    by (simp add: outcome_def demo_started_def main_init_def schedule_def on_db_def cleaner_run prog_simps)
  then show ?thesis using reachable.start [of demo_env demo_store Map.empty] by simp
qed

lemma demo_accepted_reachable: "reachable demo_env demo_store Map.empty (Running demo_accepted)"
proof -
  note demo_started_reachable
  moreover have "process_step demo_env (Running demo_started) (outcome (accept_handler False demo_started))"
    by (rule process_step.handler [of _ "Accept False"]) simp
  moreover have "outcome (accept_handler False demo_started) = Running demo_accepted"
    by (simp add: outcome_def demo_accepted_def accept_handler_def prog_simps)
  ultimately show ?thesis using reachable.step by fastforce
qed

lemma demo_accepted_sel [simp]:
  "clients demo_accepted = [0 \<mapsto> new_client]" "next_client demo_accepted = 1"
  "session_by_token '''' (database demo_accepted) = None"
  by (simp_all add: demo_accepted_def demo_started_def accept_handler_def main_init_def schedule_def
      on_db_def cleaner_run prog_simps Server_def session_by_token_def demo_store_def TOKEN_TTL_def)

definition demo_question :: bytes where
  "demo_question = ChatListRequest_serialize \<lparr>clreq_token = ''''\<rparr>"

definition demo_reply :: bytes where
  "demo_reply = ChatListResponse_serialize \<lparr>clres_chats = [], clres_error = NonAuthorized\<rparr>"

lemma demo_lengths [simp]: "length demo_question = 4" "length demo_reply = 8" "demo_reply \<noteq> []"
  by (simp_all add: demo_question_def ChatListRequest_serialize_def ser_string_def pack_def
      demo_reply_def ChatListResponse_serialize_def ser_vector_def serialize_def ser_error_def
      pack_ui32_def net_bytes_def)

lemma demo_parse [simp]:
  "ChatListRequest_deserialize demo_question = Inr \<lparr>clreq_token = ''''\<rparr>"
  "ChatListResponse_deserialize demo_reply = Inr \<lparr>clres_chats = [], clres_error = NonAuthorized\<rparr>"
  using ChatListRequest_roundtrip [of "\<lparr>clreq_token = ''''\<rparr>" "[]"]
    ChatListResponse_roundtrip [of "\<lparr>clres_chats = [], clres_error = NonAuthorized\<rparr>" "[]"]
  by (simp_all add: demo_question_def demo_reply_def ChatListRequest_wf_def ChatListResponse_wf_def
      wf_string_def wf_vector_def fits32_def)

text \<open>The request in two segments, the answer as one, up to the header of the answer.\<close>

definition demo_talk :: "link_event list" where
  "demo_talk = [Act (Command GetLastMessages), Act ThreadStep, Act ThreadStep, Act ClientRunPost,
     Upload 12, ReachServer 5, ReachServer 7, Serve (ReadComplete 0), Serve (ReadComplete 0),
     Serve (RunPost 0), Download 10, Download 6, ReachClient 16, Act ClientRead]"

text \<open>Then the answer is handled, and shown.\<close>

definition demo_end :: "link_event list" where
  "demo_end = demo_talk @ [Act ClientRead, Act Signal, Serve (WriteComplete 0 False)]"

lemmas demo_steps = connected_pair_def client_main_def ClientHandlerQml_def on_adapter_def
  getLastMessages_qml_def locked_def p_send_request_def send_request_def thread_handler_def
  client_net_def run_posted_def new_net_def do_write_def headers_fit_def accepted_def fits32_def
  send_packet_def client_net_of_def handed_def take_bytes_def Let_def start_reader_def arrive_def
  read_complete_def new_client_def read_step_def parse_header_and_read_body_def session_fits_def
  outcome_def read_handler_def handle_packet_def dispatch_def handle_chat_list_def on_db_def
  getLoginByToken_def net_handler_def client_arrive_def client_read_def on_handler_def
  set_reader_def send_to_def set_error_def write_done_def deliver_signal_def
  demo_question_def [symmetric] demo_reply_def [symmetric]

lemma demo_talk_run:
  "\<exists>s. link_run demo_qt demo_env 0 demo_talk (connected_pair demo_qt Map.empty demo_accepted) = Some s \<and>
     read_step (base_reader (handler (client_side s))) = Some (Some (RESULT, demo_reply), start_reader) \<and>
     (\<exists>x B. client_step demo_qt demo_env ClientRead (client_side s) = Some (x, B) \<and>
        headers_fit (base_net (handler B)))"
  by (simp add: demo_talk_def demo_steps prog_simps handle_packet_async_def handle_switch_def
      invoke_def push_line_def NetworkBridge_def invokeMethod_def)

lemma demo_end_run:
  "\<exists>s. link_run demo_qt demo_env 0 demo_end (connected_pair demo_qt Map.empty demo_accepted) = Some s \<and>
     at_rest 0 s \<and> shown (client_side s) = [chatListReceived []]"
  by (simp add: demo_end_def demo_talk_def demo_steps prog_simps at_rest_def steps_of_def
      session_of_def handle_packet_async_def handle_switch_def invoke_def push_line_def
      NetworkBridge_def invokeMethod_def)

lemma demo_connected:
  "conversing demo_qt demo_env demo_store Map.empty Map.empty 0
     (connected_pair demo_qt Map.empty demo_accepted)"
  by (rule conversing.connect [OF demo_accepted_reachable]) simp

lemmas demo_conversing = link_run_sound [OF _ demo_connected]

text \<open>Two clients at once: the second one has asked too, while the first one's request is served.\<close>

fun party_event :: "link_event \<Rightarrow> messenger_event" where
  "party_event (Serve e) = ServerEvent e"
| "party_event e = ClientEvent 0 e"

definition demo_party :: "messenger_event list" where
  "demo_party = [Join Map.empty, Join Map.empty, ClientEvent 1 (Act (Command GetLastMessages)),
     ClientEvent 1 (Act ThreadStep), ClientEvent 1 (Act ThreadStep)] @ map party_event demo_talk"

definition demo_alone :: messenger where
  "demo_alone = \<lparr>server_process = Running demo_started, sides = Map.empty\<rparr>"

lemma demo_alone_reachable:
  "messenger_reachable demo_qt demo_env demo_store Map.empty demo_alone"
  unfolding demo_alone_def by (rule messenger_reachable.started [OF demo_started_reachable])

lemma demo_started_sel [simp]:
  "clients demo_started = Map.empty" "next_client demo_started = 0"
  "session_by_token '''' (database demo_started) = None"
  by (simp_all add: demo_started_def main_init_def schedule_def
      on_db_def cleaner_run prog_simps Server_def session_by_token_def demo_store_def TOKEN_TTL_def)

lemma demo_party_run:
  "\<exists>W c d. messenger_run demo_qt demo_env demo_party demo_alone = Some W \<and>
     sides W 0 = Some c \<and> sides W 1 = Some d \<and> pending_of d = [CHAT_LIST] \<and>
     read_step (base_reader (handler (client_side c))) = Some (Some (RESULT, demo_reply), start_reader)"
  by (simp add: demo_party_def demo_alone_def demo_talk_def demo_steps all_fit_def side_def
      server_state_def accept_handler_def prog_simps pending_of_def handle_packet_async_def handle_switch_def
      invoke_def push_line_def NetworkBridge_def invokeMethod_def)

text \<open>The request alone, without a link.\<close>

lemma demo_question_run:
  "\<exists>S'. handle_packet demo_env 0 CHAT_LIST demo_question demo_accepted = (Inr (), S')"
proof -
  have "session_by_token '''' (database (cleared 0 demo_accepted)) = None" by simp
  then have "\<exists>S1. handle_chat_list demo_env 0 demo_question (cleared 0 demo_accepted) =
      (Inr demo_reply, S1)"
    by (simp add: handle_chat_list_def getLoginByToken_def on_db_def prog_simps
        demo_reply_def [symmetric])
  then obtain S1 where "handle_chat_list demo_env 0 demo_question (cleared 0 demo_accepted) =
      (Inr demo_reply, S1)" ..
  from handle_packet_answer [where h = handle_chat_list, OF _ this] show ?thesis by simp
qed

text \<open>The system of this client alone, up to the point where nothing can happen any more.\<close>

definition demo_settled :: "messenger_event list" where
  "demo_settled = Join Map.empty # map party_event (demo_end @ [Act (ClientWriteDone False)])"

lemma demo_settled_run:
  "\<exists>W c S k. messenger_run demo_qt demo_env demo_settled demo_alone = Some W \<and>
     (dom (sides W) = {0} \<and> sides W 0 = Some c \<and> server_process W = Running S) \<and>
     ((\<forall>j. clients S j \<noteq> None \<longrightarrow> j = 0) \<and> clients S 0 = Some k) \<and> settled_parts c k \<and>
     reading k \<and> sock_open (net k) \<and> base_reading (handler (client_side c)) \<and>
     sock_open (base_net (handler (client_side c))) \<and> shown (client_side c) = [chatListReceived []]"
  by (simp add: demo_settled_def demo_end_def demo_talk_def demo_alone_def demo_steps all_fit_def side_def
      server_state_def accept_handler_def prog_simps pending_of_def handle_packet_async_def handle_switch_def
      invoke_def push_line_def NetworkBridge_def invokeMethod_def settled_parts_def)

end
