(* ===== verification/ServerLog.thy ===== *)
theory ServerLog
  imports Answers ServerMain
begin

text \<open>
  What the server writes about a request: the line of the logger has the code that the answer
  carries. \<open>coded\<close> follows the member \<^verbatim>\<open>errorCode\<close> through a handler.
\<close>

section \<open>The code of an answer\<close>

text \<open>The response message of a request, and the code in its field \<^verbatim>\<open>error\<close>.\<close>

fun tells :: "packet_type \<Rightarrow> error_code \<Rightarrow> bytes \<Rightarrow> bool" where
  "tells REGISTER e b = (\<exists>r. b = AuthResponse_serialize r \<and> ares_error r = e)"
| "tells LOGIN e b = (\<exists>r. b = AuthResponse_serialize r \<and> ares_error r = e)"
| "tells TOKEN_VERIFY e b = (\<exists>r. b = TokenVerifyResponse_serialize r \<and> tvres_error r = e)"
| "tells MESSAGE e b = (\<exists>r. b = ChatResponse_serialize r \<and> cres_error r = e)"
| "tells UPLOAD e b = (\<exists>r. b = FileUploadResponse_serialize r \<and> fures_error r = e)"
| "tells DOWNLOAD e b = (\<exists>r. b = FileDownloadResponse_serialize r \<and> fdres_error r = e)"
| "tells FRIEND_REQUEST e b = (\<exists>r. b = FriendResponse_serialize r \<and> fres_error r = e)"
| "tells FRIEND_ACCEPT e b = (\<exists>r. b = FriendResponse_serialize r \<and> fres_error r = e)"
| "tells FRIEND_REJECT e b = (\<exists>r. b = FriendResponse_serialize r \<and> fres_error r = e)"
| "tells FRIEND_LIST e b = (\<exists>r. b = FriendListResponse_serialize r \<and> flres_error r = e)"
| "tells DIRECT_MESSAGE e b = (\<exists>r. b = DirectMessageResponse_serialize r \<and> dmres_error r = e)"
| "tells MESSAGE_HISTORY e b = (\<exists>r. b = HistoryResponse_serialize r \<and> hres_error r = e)"
| "tells CHAT_LIST e b = (\<exists>r. b = ChatListResponse_serialize r \<and> clres_error r = e)"
| "tells _ e b = False"

text \<open>
  The session \<open>this\<close> lives, its \<^verbatim>\<open>errorCode\<close> is \<open>e\<close>, and since the console showed \<open>c0\<close> only
  plain lines have been printed.
\<close>

definition coded :: "nat \<Rightarrow> output_line list \<Rightarrow> error_code \<Rightarrow> server \<Rightarrow> bool" where
  "coded this c0 e S \<longleftrightarrow> clients S this \<noteq> None \<and> error_of S this = e \<and>
     (\<exists>ls. console S = c0 @ map Printed ls)"

lemma coded_update_client:
  assumes "\<And>c. errorCode (f c) = errorCode c"
  shows "coded this c0 e S \<Longrightarrow> coded this c0 e (update_client sid f S)"
  using assms by (auto simp: coded_def error_of_def split: option.splits)

lemma coded_print: "coded this c0 e S \<Longrightarrow> coded this c0 e (put_line (Printed l) S)"
  by (auto simp: coded_def intro: exI [of _ "_ @ [_]"])

lemma coded_frame [preserves_intros]:
  "preserves (coded this c0 e) (on_db m)"
  "preserves (coded this c0 e) (on_files m')"
  "preserves (coded this c0 e) (on_rand m'')"
  "preserves (coded this c0 e) (modify (addUser l x))"
  "preserves (coded this c0 e) (get_login x)"
  by (auto simp: preserves_def coded_def error_of_def on_db_def on_files_def on_rand_def prog_simps
      addUser_def split: prod.splits)

lemma coded_setters [preserves_intros]:
  "preserves (coded this c0 e) (set_token x t)"
  "preserves (coded this c0 e) (set_login x l)"
  "preserves (coded this c0 e) (modify (send_to x ty b))"
  unfolding set_token_def set_login_def send_to_def
  by (intro preserves_modify coded_update_client; simp)+

lemma coded_notify [preserves_intros]: "preserves (coded this c0 e) (notify l t b)"
  unfolding notify_def by (intro preserves_intros)

lemma coded_send: "coded this c0 e S \<Longrightarrow> coded this c0 e (send_to x t b S)"
  unfolding send_to_def by (rule coded_update_client) simp

lemma coded_broadcast [preserves_intros]: "preserves (coded this c0 e) (modify (broadcast l t b))"
  by (rule broadcast_preserves) (rule coded_print coded_send, assumption)+

lemma coded_deliver [preserves_intros]: "preserves (coded this c0 e) (deliver_pending E x)"
  unfolding deliver_pending_def by (intro preserves_intros)

section \<open>The code through a handler\<close>

text \<open>
  A program that starts with \<^verbatim>\<open>errorCode\<close> \<open>e\<close> leaves it equal to the code in the response that \<open>g\<close>
  takes from its result.
\<close>

definition reports ::
  "nat \<Rightarrow> output_line list \<Rightarrow> packet_type \<Rightarrow> ('a \<Rightarrow> bytes) \<Rightarrow> error_code \<Rightarrow> 'a act \<Rightarrow> bool" where
  "reports this c0 t g e m \<longleftrightarrow>
     (\<forall>S x S'. coded this c0 e S \<longrightarrow> m S = (Inr x, S') \<longrightarrow>
        (\<exists>e'. coded this c0 e' S' \<and> tells t e' (g x)))"

lemma reportsD:
  "reports this c0 t g e m \<Longrightarrow> coded this c0 e S \<Longrightarrow> m S = (Inr x, S') \<Longrightarrow>
    \<exists>e'. coded this c0 e' S' \<and> tells t e' (g x)"
  unfolding reports_def by blast

lemma reports_ret:
  "tells t e b \<Longrightarrow> reports this c0 t (\<lambda>r. r) e (ret b)"
  "tells t e b \<Longrightarrow> reports this c0 t fst e (ret (b, y))"
  by (auto simp: reports_def prog_simps)

lemma tells_intros:
  "ares_error r1 = e \<Longrightarrow> tells REGISTER e (AuthResponse_serialize r1)"
  "ares_error r1 = e \<Longrightarrow> tells LOGIN e (AuthResponse_serialize r1)"
  "tvres_error r2 = e \<Longrightarrow> tells TOKEN_VERIFY e (TokenVerifyResponse_serialize r2)"
  "cres_error r3 = e \<Longrightarrow> tells MESSAGE e (ChatResponse_serialize r3)"
  "fures_error r4 = e \<Longrightarrow> tells UPLOAD e (FileUploadResponse_serialize r4)"
  "fdres_error r5 = e \<Longrightarrow> tells DOWNLOAD e (FileDownloadResponse_serialize r5)"
  "fres_error r6 = e \<Longrightarrow> t \<in> {FRIEND_REQUEST, FRIEND_ACCEPT, FRIEND_REJECT} \<Longrightarrow>
    tells t e (FriendResponse_serialize r6)"
  "flres_error r7 = e \<Longrightarrow> tells FRIEND_LIST e (FriendListResponse_serialize r7)"
  "dmres_error r8 = e \<Longrightarrow> tells DIRECT_MESSAGE e (DirectMessageResponse_serialize r8)"
  "hres_error r9 = e \<Longrightarrow> tells MESSAGE_HISTORY e (HistoryResponse_serialize r9)"
  "clres_error r10 = e \<Longrightarrow> tells CHAT_LIST e (ChatListResponse_serialize r10)"
  by auto

lemma reports_keep:
  assumes "preserves (coded this c0 e) m" and "\<And>x. reports this c0 t g e (f x)"
  shows "reports this c0 t g e (bnd m f)"
  unfolding reports_def
proof (intro allI impI)
  fix S x S' assume S: "coded this c0 e S" and run: "bnd m f S = (Inr x, S')"
  from run obtain y S1 where m: "m S = (Inr y, S1)" and f: "f y S1 = (Inr x, S')" by (rule bnd_InrE)
  from preservesD [OF assms(1) S] m have "coded this c0 e S1" by simp
  from reportsD [OF assms(2) this f] show "\<exists>e'. coded this c0 e' S' \<and> tells t e' (g x)" .
qed

lemma reports_set:
  assumes "reports this c0 t g e' (f ())"
  shows "reports this c0 t g e (bnd (set_error this e') f)"
proof -
  have "coded this c0 e S \<Longrightarrow> coded this c0 e' (update_client this (\<lambda>c. c\<lparr>errorCode := e'\<rparr>) S)" for S
    by (auto simp: coded_def error_of_def)
  note start = this
  show ?thesis
    unfolding reports_def
  proof (intro allI impI)
    fix S x S' assume "coded this c0 e S" and "bnd (set_error this e') f S = (Inr x, S')"
    then show "\<exists>e'. coded this c0 e' S' \<and> tells t e' (g x)"
      using reportsD [OF assms start] by (simp add: set_error_def prog_simps)
  qed
qed

lemma reports_if:
  "reports this c0 t g e m \<Longrightarrow> reports this c0 t g e n \<Longrightarrow>
    reports this c0 t g e (if b then m else n)"
  by simp

lemma reports_case_sum:
  "(\<And>y. reports this c0 t g e (f y)) \<Longrightarrow> (\<And>x. reports this c0 t g e (h x)) \<Longrightarrow>
    reports this c0 t g e (case r of Inl y \<Rightarrow> f y | Inr x \<Rightarrow> h x)"
  by (simp split: sum.split)

lemma reports_errors:
  "t \<in> {FRIEND_REQUEST, FRIEND_ACCEPT, FRIEND_REJECT} \<Longrightarrow>
    reports this c0 t (\<lambda>r. r) e (friend_error this e')"
  "reports this c0 DIRECT_MESSAGE (\<lambda>r. r) e (dm_error this e')"
  unfolding friend_error_def dm_error_def
  by (rule reports_set reports_ret tells_intros | simp)+

lemma coded_logins [preserves_intros]: "preserves (coded this c0 e) (logins_of ids)"
  unfolding logins_of_def by (intro preserves_intros)

lemmas reports_rules = reports_if reports_case_sum reports_errors reports_set reports_ret
  tells_intros reports_keep preserves_intros

lemma auth_reports:
  "reports this c0 REGISTER fst e (handle_register E this body)"
  "reports this c0 LOGIN fst e (handle_login E this body)"
  "reports this c0 TOKEN_VERIFY fst e (handle_token_verify E this body)"
  unfolding handle_register_def handle_login_def handle_token_verify_def
  by ((intro reports_rules; simp)[1])+

text \<open>The branch of the chat list that reads the error of a login that is present never returns.\<close>

lemma reports_throw: "reports this c0 t g e (throw f)"
  by (simp add: reports_def prog_simps)

lemma chat_list_reports: "reports this c0 CHAT_LIST (\<lambda>r. r) e (handle_chat_list E this body)"
  unfolding handle_chat_list_def
proof (rule reports_keep [OF preserves_lift_res reports_keep [OF coded_frame(1)]])
  fix req and sender_login :: "string expected"
  show "reports this c0 CHAT_LIST (\<lambda>r. r) e (case sender_login of
       Inl e \<Rightarrow>
         bnd (set_error this e) (\<lambda>_.
         ret (ChatListResponse_serialize \<lparr>clres_chats = [], clres_error = e\<rparr>))
     | Inr login \<Rightarrow>
     bnd (on_db (getIdByLogin login)) (\<lambda>uid.
     case uid of
       Inl e \<Rightarrow>
         bnd (expected_error sender_login) (\<lambda>e'.
         bnd (set_error this e') (\<lambda>_.
         ret (ChatListResponse_serialize \<lparr>clres_chats = [], clres_error = e\<rparr>)))
     | Inr i \<Rightarrow>
     bnd (on_db (getLastMessages i)) (\<lambda>last_messages.
     bnd (set_error this OK) (\<lambda>_.
     ret (ChatListResponse_serialize \<lparr>clres_chats =
         map (\<lambda>m. \<lparr>cle_peer_login = lm_peer_login m, cle_message = lm_message m,
           cle_timestamp = word_of_int (lm_timestamp m)\<rparr>) last_messages, clres_error = OK\<rparr>)))))"
    by (cases sender_login) (simp_all del: tells.simps, (intro reports_rules reports_throw; simp)+)
qed

lemma plain_reports:
  assumes "plain_handler t = Some h"
  shows "reports this c0 t (\<lambda>r. r) OK (h E this body)"
  using assms
  by (cases t; clarsimp simp: handle_message_def handle_upload_def handle_download_def
    handle_friend_request_def handle_friend_accept_def handle_friend_reject_def
    handle_friend_list_def handle_direct_message_def handle_message_history_def chat_list_reports
    simp del: tells.simps; (intro reports_rules; simp)?)

lemma tells_answers: "tells t e b \<Longrightarrow> answers t b"
  by (cases t) auto

section \<open>The lines of a request\<close>

definition log_entry :: "packet_type \<Rightarrow> error_code \<Rightarrow> output_line list" where
  "log_entry t e = (if expects_answer t then [LoggedPacket t e '''']
     else if t = LOGOUT then [] else [LoggedPacket t OK lost_text])"

lemma dispatch_reports:
  assumes "coded this c0 OK S" and "dispatch E this t b S = (Inr (reply, l, auth), S0)"
    and "expects_answer t"
  shows "\<exists>e. coded this c0 e S0 \<and> tells t e reply"
proof (cases "plain_handler t")
  case (Some h)
  with assms(2) obtain S1 where "h E this b S = (Inr reply, S0)"
    by (auto simp: plain_dispatch prog_simps elim!: bnd_InrE)
  from reportsD [OF plain_reports [OF Some] assms(1) this] show ?thesis .
next
  case None
  with assms(3) have "t = REGISTER \<or> t = LOGIN \<or> t = TOKEN_VERIFY" by (auto simp: expects_answer_def)
  then show ?thesis
    using assms(1,2) auth_reports [of this c0 OK E b, THEN reportsD, of S "(reply, l, auth)" S0]
    by (elim disjE) (simp_all add: dispatch_def del: tells.simps)
qed

lemma dispatch_lost:
  assumes "coded this c0 OK S" and "dispatch E this t b S = (Inr (reply, l, auth), S0)"
    and "\<not> expects_answer t"
  shows "\<not> auth \<and> reply = [] \<and>
    (\<exists>ls. console S0 = c0 @ map Printed ls @ log_entry t OK)"
proof (cases "t = LOGOUT")
  case True
  have "preserves (coded this c0 OK) (handle_logout this b)"
    unfolding handle_logout_def by (intro preserves_intros)
  from preservesD [OF this assms(1)] True assms(2,3) show ?thesis
    by (auto simp: dispatch_def log_entry_def prog_simps coded_def elim!: bnd_InrE)
next
  case False
  with assms(3) have "plain_handler t = None" "t \<noteq> REGISTER" "t \<noteq> LOGIN" "t \<noteq> TOKEN_VERIFY"
    by (auto simp: expects_answer_def)
  with assms False show ?thesis
    by (auto simp: dispatch_def log_entry_def prog_simps coded_def)
qed

lemma coded_enter: "preserves (coded this c0 e) (enter E this auth l)"
  by (intro preserves_intros)

text \<open>
  A request leaves plain lines and then one line of the logger; the code in it is the code of the
  answer, which the handler returned and which is the last packet that the session is sent.
\<close>

lemma handle_packet_answered:
  assumes "clients S this \<noteq> None" and "handle_packet E this t b S = (Inr u, S')"
    and "expects_answer t"
  shows "\<exists>e ls reply l auth S0 sofar. dispatch E this t b (cleared this S) = (Inr (reply, l, auth), S0) \<and>
    tells t e reply \<and> console S' = console S @ map Printed ls @ log_entry t e \<and>
    outbox S' this = outbox S this @ sofar @ [full_packet RESULT reply]"
  using assms(2)
proof (rule handle_packet_parts)
  fix reply l auth S0 v S1
  assume d: "dispatch E this t b (cleared this S) = (Inr (reply, l, auth), S0)"
    and after: "enter E this auth l S0 = (Inr v, S1)"
    and S': "S' = (if reply \<noteq> [] then answered this t reply S1 else S1)"
  have C: "coded this (console S) OK (cleared this S)"
    using assms(1) by (auto simp: coded_def cleared_def error_of_def)
  from dispatch_reports [OF C d assms(3)] obtain e
    where e: "coded this (console S) e S0" and told: "tells t e reply" by blast
  from preservesD [OF coded_enter e] after have S1: "coded this (console S) e S1"
    by (metis snd_conv)
  have "grown this (view this S) (cleared this S)"
    by (rule cleared_grown)
  moreover have "preserves (grown this c) (enter E this auth l)" for c by (intro preserves_intros)
  ultimately have "grown this (view this S) S1"
    using preservesD [OF grown_dispatch, of this "view this S" "cleared this S"] d after
      preservesD by (metis snd_conv)
  from grown_outbox [OF this] obtain pushed
    where "outbox S1 this = outbox S this @ frames pushed" by blast
  moreover from S1 have "clients S1 this \<noteq> None" "error_of S1 this = e"
    "\<exists>ls. console S1 = console S @ map Printed ls" by (auto simp: coded_def)
  ultimately show ?thesis
    using S' d told assms(3) answers_nonempty [OF tells_answers [OF told]]
    by (auto simp: log_entry_def outbox_send_to)
qed

lemma handle_packet_logs:
  assumes "clients S this \<noteq> None" and "handle_packet E this t b S = (Inr u, S')"
  shows "\<exists>e ls. console S' = console S @ map Printed ls @ log_entry t e \<and>
    (expects_answer t \<longrightarrow> (\<exists>reply sofar. tells t e reply \<and>
       outbox S' this = outbox S this @ sofar @ [full_packet RESULT reply]))"
proof (cases "expects_answer t")
  case True
  from handle_packet_answered [OF assms this] show ?thesis by blast
next
  case False
  from assms(2) show ?thesis
  proof (rule handle_packet_parts)
    fix reply l auth S0 v S1
    assume d: "dispatch E this t b (cleared this S) = (Inr (reply, l, auth), S0)"
      and after: "enter E this auth l S0 = (Inr v, S1)"
      and S': "S' = (if reply \<noteq> [] then answered this t reply S1 else S1)"
    have "coded this (console S) OK (cleared this S)"
      using assms(1) by (auto simp: coded_def cleared_def error_of_def)
    from dispatch_lost [OF this d False] after S' False show ?thesis by (auto simp: prog_simps)
  qed
qed

end
