(* ===== verification/Verdicts.thy ===== *)
theory Verdicts
  imports ServerLog Lasting
begin

text \<open>
  Which code a request is answered with. \<open>verdict\<close> computes it from the tables alone: who the
  token stands for, whether the login is taken, what the two users are to each other. Every
  handler agrees with it, and a handler that answers with an error changes nothing.
\<close>

section \<open>The reference\<close>

text \<open>Why a token is refused.\<close>

definition token_error :: "env \<Rightarrow> store \<Rightarrow> string \<Rightarrow> error_code" where
  "token_error E s t =
     (case session_by_token t s of
        None \<Rightarrow> NonAuthorized
      | Some r \<Rightarrow> if clock E (clock_pos s) - s_created_at r > TOKEN_TTL then TokenExpired else NotFound)"

text \<open>A request of the user \<open>l\<close> about the user \<open>target\<close>.\<close>

definition about ::
  "store \<Rightarrow> string \<Rightarrow> string \<Rightarrow> fault + error_code \<Rightarrow> (int \<Rightarrow> int \<Rightarrow> error_code) \<Rightarrow> fault + error_code" where
  "about s l target lost f =
     (case id_of_login s target of
        None \<Rightarrow> Inr NotFound
      | Some j \<Rightarrow> (case id_of_login s l of None \<Rightarrow> lost | Some i \<Rightarrow> Inr (f i j)))"

definition parsed :: "fault + 'r \<Rightarrow> ('r \<Rightarrow> fault + error_code) \<Rightarrow> fault + error_code" where
  "parsed r f = (case r of Inl fault \<Rightarrow> Inl fault | Inr req \<Rightarrow> f req)"

lemma parsed_simps [simp]: "parsed (Inl x) f = Inl x" "parsed (Inr r) f = f r"
  by (simp_all add: parsed_def)

text \<open>
  What the owner \<open>l\<close> of a valid token is told. A login that was cut at a zero byte may name no user;
  the requests then end in an exception, but for those about friendships.
\<close>

fun granted :: "store \<Rightarrow> string \<Rightarrow> packet_type \<Rightarrow> bytes \<Rightarrow> fault + error_code" where
  "granted s l FRIEND_REQUEST b = parsed (FriendRequest_deserialize b) (\<lambda>r.
     about s l (freq_target_login r) (Inr NotFound)
       (\<lambda>i j. if i = j then RequestToYourself else fst (request_spec i (relation s i j))))"
| "granted s l FRIEND_ACCEPT b = parsed (FriendRequest_deserialize b) (\<lambda>r.
     about s l (freq_target_login r) (Inr NotFound) (\<lambda>i j. fst (accept_spec i (relation s i j))))"
| "granted s l FRIEND_REJECT b = parsed (FriendRequest_deserialize b) (\<lambda>r.
     about s l (freq_target_login r) (Inr NotFound) (\<lambda>i j. fst (reject_spec i (relation s i j))))"
| "granted s l DIRECT_MESSAGE b = parsed (DirectMessageRequest_deserialize b) (\<lambda>r.
     about s l (dmreq_recipient_login r) (Inl (BadExpectedAccess NotFound))
       (\<lambda>i j. if relation s i j = Friends then OK else NotFriends))"
| "granted s l MESSAGE_HISTORY b = parsed (HistoryRequest_deserialize b) (\<lambda>r.
     if id_of_login s l = None \<or> id_of_login s (hreq_peer_login r) = None
     then Inl (BadExpectedAccess NotFound) else Inr OK)"
| "granted s l FRIEND_LIST b =
     (if id_of_login s l = None then Inl (BadExpectedAccess NotFound) else Inr OK)"
| "granted s l CHAT_LIST b =
     (if id_of_login s l = None then Inl (Undefined ''expected::error with a value'') else Inr OK)"
| "granted s l _ b = Inr OK"

fun verdict :: "env \<Rightarrow> store \<Rightarrow> packet_type \<Rightarrow> bytes \<Rightarrow> fault + error_code" where
  "verdict E s REGISTER b = parsed (AuthRequest_deserialize b) (\<lambda>r.
     Inr (if id_of_login s (areq_login r) = None then OK else LoginExists))"
| "verdict E s LOGIN b = parsed (AuthRequest_deserialize b) (\<lambda>r.
     Inr (if password_ok E s (areq_login r) (areq_password r) then OK else IncorrectCredentials))"
| "verdict E s TOKEN_VERIFY b = parsed (TokenVerifyRequest_deserialize b) (\<lambda>r.
     Inr (if token_login E s (tvreq_old_token r) = None then token_error E s (tvreq_old_token r) else OK))"
| "verdict E s t b =
     parsed (request_token t b) (\<lambda>tok.
       case token_login E s tok of None \<Rightarrow> Inr (token_error E s tok) | Some l \<Rightarrow> granted s l t b)"

section \<open>Refusals\<close>

text \<open>A refused request may at most have read the clock and removed an expired session.\<close>

definition untouched :: "server \<Rightarrow> server \<Rightarrow> bool" where
  "untouched S S' \<longleftrightarrow> users (database S') = users (database S) \<and>
     friendships (database S') = friendships (database S) \<and>
     direct_messages (database S') = direct_messages (database S) \<and>
     set (sessions (database S')) \<subseteq> set (sessions (database S)) \<and>
     online_users S' = online_users S \<and> files S' = files S \<and> (\<forall>x. outbox S' x = outbox S x)"

lemma untouched_tick [simp]: "untouched S (tick S)"
  by (simp add: untouched_def)

lemma untouched_clock [simp]: "untouched S (S\<lparr>database := (database S)\<lparr>clock_pos := n\<rparr>\<rparr>)"
  by (simp add: untouched_def outbox_def)

lemma untouched_refl [simp]: "untouched S S"
  by (simp add: untouched_def)

lemma untouched_note_error [simp]: "untouched S (note_error this e S') = untouched S S'"
  by (simp add: untouched_def)

lemma untouched_cleared [simp]: "untouched (cleared this S) S' = untouched S S'"
  by (simp add: untouched_def)

lemma getLoginByToken_refused:
  assumes "token_login E (database S) t = None"
  shows "\<exists>s. getLoginByToken E t (database S) = (Inr (Inl (token_error E (database S) t)), s) \<and>
    token_error E (database S) t \<noteq> OK \<and> untouched S (S\<lparr>database := s\<rparr>)"
proof (cases "session_by_token t (database S)")
  case None
  then show ?thesis by (simp add: token_unknown token_error_def untouched_def)
next
  case (Some r)
  show ?thesis
  proof (cases "clock E (clock_pos (database S)) - s_created_at r > TOKEN_TTL")
    case True
    with Some show ?thesis by (auto simp: token_expired token_error_def untouched_def outbox_def)
  next
    case False
    with Some assms have "login_of_id (database S) (s_id r) = None" by (simp add: token_login_def)
    with Some False show ?thesis by (simp add: token_live token_error_def untouched_def outbox_def)
  qed
qed

lemma tells_error_reply: "expects_answer t \<Longrightarrow> tells t e (error_reply t e)"
  by (cases t) (auto simp: expects_answer_def)

section \<open>Handlers agree with the reference\<close>

text \<open>
  A handler that started in \<open>S\<close> and came out with \<open>out\<close> agrees with \<open>v\<close>: it threw what \<open>v\<close> says, or
  it answered with the bare error and changed nothing; where \<open>v\<close> is \<open>OK\<close>, so is the answer, if
  there is one.
\<close>

definition agrees :: "packet_type \<Rightarrow> fault + error_code \<Rightarrow> server \<Rightarrow> (fault + bytes) \<times> server \<Rightarrow> bool" where
  "agrees t v S out \<longleftrightarrow>
     (case v of
        Inl f \<Rightarrow> fst out = Inl f
      | Inr e \<Rightarrow>
          if e = OK then \<forall>reply. fst out = Inr reply \<longrightarrow> tells t OK reply
          else fst out = Inr (error_reply t e) \<and> untouched S (snd out))"

lemma agrees_fault [simp]: "agrees t (Inl f) S (Inl f, S')"
  by (simp add: agrees_def)

lemma agrees_ok: "(\<And>reply. fst out = Inr reply \<Longrightarrow> tells t OK reply) \<Longrightarrow> agrees t (Inr OK) S out"
  by (simp add: agrees_def)

lemma agrees_refused:
  "out = (Inr (error_reply t e), S1) \<Longrightarrow> e \<noteq> OK \<Longrightarrow> untouched S S1 \<Longrightarrow> agrees t (Inr e) S out"
  by (simp add: agrees_def)

text \<open>The three operations on friendships answer with the code of their specification.\<close>

lemma sendRequest_code:
  assumes inv: "friendships_inv s" and run: "sendRequest a b s = (r, s')"
    and e: "e = (if a = b then RequestToYourself else fst (request_spec a (relation s a b)))"
  shows "(\<forall>e'. r = Inr e' \<longrightarrow> e' = e) \<and> (e \<noteq> OK \<longrightarrow> r = Inr e \<and> s' = s)"
proof (cases "a = b")
  case False
  then show ?thesis
    using run e find_row_status [OF inv, of "normalize a b"] relation_of_find [of a b s]
    by (cases "find (of_pair (normalize a b)) (friendships s)")
      (auto simp: sendRequest_def prog_simps Let_def relation_of_row_def elim!: bnd_InrE split: if_splits)
qed (use run e in \<open>auto simp: sendRequest_self\<close>)

lemma friendship_codes:
  assumes inv: "friendships_inv s"
  shows "\<exists>e s'. acceptRequest a b s = (Inr e, s') \<and> e = fst (accept_spec a (relation s a b)) \<and> (e \<noteq> OK \<longrightarrow> s' = s)"
    and "\<exists>e s'. rejectRequest a b s = (Inr e, s') \<and> e = fst (reject_spec a (relation s a b)) \<and> (e \<noteq> OK \<longrightarrow> s' = s)"
  using acceptRequest_refines [OF inv, of a b] rejectRequest_refines [OF inv, of a b]
  by (auto simp: acceptRequest_def rejectRequest_def prog_simps Let_def split: option.splits if_splits)

lemma friend_outcome_agrees:
  assumes "t \<in> {FRIEND_REQUEST, FRIEND_ACCEPT, FRIEND_REJECT}"
    and "err \<noteq> OK \<longrightarrow> s = database (tick S)"
  shows "agrees t (Inr err) S (friend_outcome this l ty err (S\<lparr>database := s\<rparr>))"
proof (cases "err = OK")
  case True
  with assms(1) show ?thesis
    by (auto simp: friend_outcome_def simp del: tells.simps intro!: agrees_ok tells_intros)
next
  case False
  with assms show ?thesis by (auto simp: agrees_def friend_outcome_def ok_iff)
qed

lemma friend_agrees:
  assumes h: "plain_handler t = Some h" and t: "t \<in> {FRIEND_REQUEST, FRIEND_ACCEPT, FRIEND_REJECT}"
    and req: "FriendRequest_deserialize b = Inr req"
    and l: "token_login E (database S) (freq_token req) = Some l"
    and inv: "friendships_inv (database S)"
  shows "agrees t (granted (database S) l t b) S (h E this b S)"
proof (cases "id_of_login (database S) (freq_target_login req) = None \<or> id_of_login (database S) l = None")
  case True
  then have "h E this b S = (Inr (error_reply t NotFound), note_error this NotFound (tick S))"
    using h t req l
    by (auto simp: handle_friend_request_def handle_friend_accept_def handle_friend_reject_def
      prog_simps authorised_run on_db_lookups friend_error_def split: option.splits)
  moreover have "granted (database S) l t b = Inr NotFound"
    using t req True by (auto simp: about_def split: option.split)
  ultimately show ?thesis by (simp add: agrees_def)
next
  case False
  then obtain i j where i: "id_of_login (database S) l = Some i"
    and j: "id_of_login (database S) (freq_target_login req) = Some j" by auto
  note runs = handle_friend_runs [OF req l i j] and codes = friendship_codes [of "database (tick S)" i j]
  note end_of = friend_outcome_agrees [OF t, of _ _ S this "freq_target_login req"]
  have inv': "friendships_inv (database (tick S))" using inv by simp
  consider "t = FRIEND_REQUEST" "h = handle_friend_request"
    | "t = FRIEND_ACCEPT" "h = handle_friend_accept"
    | "t = FRIEND_REJECT" "h = handle_friend_reject"
    using h t by auto
  then show ?thesis
  proof cases
    case 1
    let ?e = "if i = j then RequestToYourself else fst (request_spec i (relation (database S) i j))"
    have v: "granted (database S) l t b = Inr ?e" using 1 req i j by (simp add: about_def)
    obtain r s where op: "sendRequest i j (database (tick S)) = (r, s)" by force
    have rel: "relation (database (tick S)) i j = relation (database S) i j" by simp
    note code = sendRequest_code [OF inv' op refl, unfolded rel, THEN conjunct1]
      sendRequest_code [OF inv' op refl, unfolded rel, THEN conjunct2]
    show ?thesis
    proof (cases r)
      case (Inl f)
      with op 1 req l i j have "fst (h E this b S) = Inl f"
        by (simp add: handle_friend_request_def prog_simps authorised_run on_db_lookups on_db_run)
      moreover have "?e = OK" using Inl code(2) by blast
      ultimately show ?thesis unfolding v by (simp add: agrees_def)
    next
      case (Inr e)
      with code have "e = ?e" "?e \<noteq> OK \<longrightarrow> s = database (tick S)" by blast+
      with end_of [of e s] runs(1) [of e s this] op Inr 1 show ?thesis unfolding v by simp
    qed
  next
    case 2
    from codes(1) [OF inv'] end_of runs(2) [where this = this] 2 req i j show ?thesis
      by (auto simp: about_def)
  next
    case 3
    from codes(2) [OF inv'] end_of runs(3) [where this = this] 3 req i j show ?thesis
      by (auto simp: about_def)
  qed
qed

lemma direct_message_agrees:
  assumes req: "DirectMessageRequest_deserialize b = Inr req"
    and l: "token_login E (database S) (dmreq_token req) = Some l"
    and inv: "friendships_inv (database S)"
  shows "agrees DIRECT_MESSAGE (granted (database S) l DIRECT_MESSAGE b) S (handle_direct_message E this b S)"
proof (cases "id_of_login (database S) (dmreq_recipient_login req) = None \<or> id_of_login (database S) l = None")
  case True
  with req l show ?thesis
    by (auto simp: handle_direct_message_def prog_simps authorised_run on_db_lookups dm_error_def
      about_def agrees_def split: option.splits)
next
  case False
  then obtain i j where i: "id_of_login (database S) l = Some i"
    and j: "id_of_login (database S) (dmreq_recipient_login req) = Some j" by auto
  show ?thesis
  proof (cases "relation (database S) i j = Friends")
    case False
    with handle_direct_message_strangers [OF req l i j inv, of this] req i j
    show ?thesis by (simp add: about_def agrees_def)
  next
    case True
    have "tells DIRECT_MESSAGE OK reply" if "handle_direct_message E this b S = (Inr reply, S')" for reply S'
      using that req l i j True inv
      by (auto simp: handle_direct_message_def prog_simps authorised_run on_db_lookups on_db_areFriends
        simp del: tells.simps intro!: tells_intros elim!: bnd_InrE)
    with req i j True show ?thesis by (auto simp: about_def agrees_def prod_eq_iff)
  qed
qed

text \<open>The other requests with a valid token are answered with \<open>OK\<close>, if at all.\<close>

lemma granted_agrees:
  assumes h: "plain_handler t = Some h"
    and t: "t \<notin> {FRIEND_REQUEST, FRIEND_ACCEPT, FRIEND_REJECT, DIRECT_MESSAGE}"
    and tok: "request_token t b = Inr tok" and l: "token_login E (database S) tok = Some l"
  shows "agrees t (granted (database S) l t b) S (h E this b S)"
proof (cases "granted (database S) l t b")
  case (Inl f)
  with assms have "fst (h E this b S) = Inl f"
    by (cases t) (auto simp: map_sum_Inr handler_defs prog_simps authorised_run on_db_lookups
      split: if_splits option.splits)
  with Inl show ?thesis by (simp add: agrees_def)
next
  case (Inr e)
  have "tells t OK reply" if "h E this b S = (Inr reply, S')" for reply S'
    using assms that
    by (cases t) (auto simp: map_sum_Inr handler_defs prog_simps authorised_run
      simp del: tells.simps intro!: tells_intros elim!: bnd_InrE split: sum.splits)
  moreover have "e = OK" using Inr t tok by (cases t) (auto simp: map_sum_Inr split: if_splits)
  ultimately show ?thesis using Inr by (auto simp: agrees_def prod_eq_iff)
qed

lemma plain_agrees:
  assumes h: "plain_handler t = Some h" and inv: "friendships_inv (database S)"
  shows "agrees t (verdict E (database S) t b) S (h E this b S)"
proof -
  have v: "verdict E (database S) t b = parsed (request_token t b) (\<lambda>tok.
      case token_login E (database S) tok of
        None \<Rightarrow> Inr (token_error E (database S) tok) | Some l \<Rightarrow> granted (database S) l t b)"
    using h by (cases t) auto
  show ?thesis
  proof (cases "request_token t b")
    case (Inl f)
    with malformed_handler [OF h this] show ?thesis by (simp add: v)
  next
    case tok: (Inr tok)
    show ?thesis
    proof (cases "token_login E (database S) tok")
      case None
      from getLoginByToken_refused [OF this] obtain s
        where get: "getLoginByToken E tok (database S) = (Inr (Inl (token_error E (database S) tok)), s)"
          and s: "token_error E (database S) tok \<noteq> OK" "untouched S (S\<lparr>database := s\<rparr>)" by blast
      from agrees_refused [OF unauthorized_handler [OF h tok get]] s show ?thesis
        by (simp add: v tok None)
    next
      case l: (Some l)
      consider "t \<in> {FRIEND_REQUEST, FRIEND_ACCEPT, FRIEND_REJECT}" | "t = DIRECT_MESSAGE"
        | "t \<notin> {FRIEND_REQUEST, FRIEND_ACCEPT, FRIEND_REJECT, DIRECT_MESSAGE}" by blast
      then have "agrees t (granted (database S) l t b) S (h E this b S)"
      proof cases
        case 1
        with tok obtain req where "FriendRequest_deserialize b = Inr req" "tok = freq_token req"
          by (auto simp: map_sum_Inr)
        with friend_agrees [OF h 1 _ _ inv] l show ?thesis by blast
      next
        case 2
        with tok obtain req where "DirectMessageRequest_deserialize b = Inr req" "tok = dmreq_token req"
          by (auto simp: map_sum_Inr)
        with direct_message_agrees [OF _ _ inv] l 2 h show ?thesis by auto
      qed (rule granted_agrees [OF h _ tok l])
      then show ?thesis by (simp add: v tok l)
    qed
  qed
qed

text \<open>An authentication: the answer is the first of the three results, and it is \<open>OK\<close> when the third is set.\<close>

definition answer_of :: "(fault + auth_result) \<times> server \<Rightarrow> (fault + bytes) \<times> server" where
  "answer_of out = (map_sum id fst (fst out), snd out)"

lemma answer_of_simps [simp]:
  "answer_of (Inl f, S) = (Inl f, S)" "answer_of (Inr r, S) = (Inr (fst r), S)"
  by (simp_all add: answer_of_def)

definition auth_agrees :: "packet_type \<Rightarrow> fault + error_code \<Rightarrow> server \<Rightarrow> (fault + auth_result) \<times> server \<Rightarrow> bool" where
  "auth_agrees t v S out \<longleftrightarrow> agrees t v S (answer_of out) \<and>
     (\<forall>reply l. fst out = Inr (reply, l, True) \<longrightarrow> v = Inr OK)"

lemma auth_agrees_ok:
  "(\<And>reply l auth. fst out = Inr (reply, l, auth) \<Longrightarrow> tells t OK reply) \<Longrightarrow> auth_agrees t (Inr OK) S out"
  by (cases out; cases "fst out") (auto simp: auth_agrees_def agrees_def answer_of_def)

lemma auth_agrees_refused:
  "out = (Inr (error_reply t e, l, False), S1) \<Longrightarrow> e \<noteq> OK \<Longrightarrow> untouched S S1 \<Longrightarrow> auth_agrees t (Inr e) S out"
  by (simp add: auth_agrees_def agrees_def)

lemma registerUser_accepts:
  "id_of_login s l = None \<Longrightarrow> registerUser E l p s = (Inr r, s') \<Longrightarrow> r = OK"
  by (auto simp: registerUser_def generateSalt_def id_of_login_def prog_simps elim!: bnd_InrE)

lemma verifyUser_accepts:
  "password_ok E s l p \<Longrightarrow> verifyUser E l p s = (Inr r, s') \<Longrightarrow> \<exists>tok. r = Inr tok"
  by (auto simp: verifyUser_def password_ok_def prog_simps elim!: bnd_InrE)

lemma on_db_Inr: "on_db m S = (Inr x, S') \<Longrightarrow> m (database S) = (Inr x, database S')"
  by (auto simp: on_db_def split: prod.splits)

lemma register_agrees: "auth_agrees REGISTER (verdict E (database S) REGISTER b) S (dispatch E this REGISTER b S)"
proof (cases "AuthRequest_deserialize b")
  case (Inl f)
  then show ?thesis by (simp add: dispatch_def handle_register_def prog_simps auth_agrees_def)
next
  case (Inr req)
  show ?thesis
  proof (cases "id_of_login (database S) (areq_login req) = None")
    case False
    from auth_agrees_refused [OF dispatch_register_taken [OF Inr False, where E = E and this = this], of S] Inr False show ?thesis by auto
  next
    case True
    have "tells REGISTER OK reply" if "dispatch E this REGISTER b S = (Inr (reply, l, auth), S')" for reply l auth S'
      using that Inr registerUser_accepts [OF True]
      by (fastforce simp: dispatch_def handle_register_def prog_simps simp del: tells.simps
        intro!: tells_intros elim!: bnd_InrE dest!: on_db_Inr split: if_splits)
    with auth_agrees_ok [of "dispatch E this REGISTER b S" REGISTER S] Inr True show ?thesis
      by (auto simp: prod_eq_iff)
  qed
qed

lemma login_agrees: "auth_agrees LOGIN (verdict E (database S) LOGIN b) S (dispatch E this LOGIN b S)"
proof (cases "AuthRequest_deserialize b")
  case (Inl f)
  then show ?thesis by (simp add: dispatch_def handle_login_def prog_simps auth_agrees_def)
next
  case (Inr req)
  show ?thesis
  proof (cases "password_ok E (database S) (areq_login req) (areq_password req)")
    case False
    from auth_agrees_refused [OF dispatch_login_wrong [OF Inr False, where this = this], of S] Inr False show ?thesis by simp
  next
    case True
    have "tells LOGIN OK reply" if "dispatch E this LOGIN b S = (Inr (reply, l, auth), S')" for reply l auth S'
      using that Inr verifyUser_accepts [OF True]
      by (fastforce simp: dispatch_def handle_login_def prog_simps on_db_def simp del: tells.simps
        intro!: tells_intros elim!: bnd_InrE split: sum.splits prod.splits)
    with auth_agrees_ok [of "dispatch E this LOGIN b S" LOGIN S] Inr True show ?thesis
      by (auto simp: prod_eq_iff)
  qed
qed

lemma token_verify_agrees:
  "auth_agrees TOKEN_VERIFY (verdict E (database S) TOKEN_VERIFY b) S (dispatch E this TOKEN_VERIFY b S)"
proof (cases "TokenVerifyRequest_deserialize b")
  case (Inl f)
  then show ?thesis by (simp add: dispatch_def handle_token_verify_def prog_simps auth_agrees_def)
next
  case (Inr req)
  show ?thesis
  proof (cases "token_login E (database S) (tvreq_old_token req)")
    case None
    let ?e = "token_error E (database S) (tvreq_old_token req)"
    from getLoginByToken_refused [OF None] obtain s where
      get: "getLoginByToken E (tvreq_old_token req) (database S) = (Inr (Inl ?e), s)"
        and s: "?e \<noteq> OK" "untouched S (S\<lparr>database := s\<rparr>)" by blast
    from auth_agrees_refused [OF dispatch_token_verify_bad [OF Inr get, where this = this], of S] s Inr None show ?thesis by simp
  next
    case (Some k)
    with dispatch_token_verify [OF Inr Some, of this] Inr show ?thesis
      by (auto simp: auth_agrees_def agrees_def)
  qed
qed

lemma dispatch_agrees:
  assumes t: "expects_answer t" and inv: "friendships_inv (database S)"
  shows "auth_agrees t (verdict E (database S) t b) S (dispatch E this t b S)"
proof (cases "plain_handler t")
  case (Some h)
  obtain r S' where run: "h E this b S = (r, S')" by force
  then have "dispatch E this t b S = (map_sum id (\<lambda>reply. (reply, '''', False)) r, S')"
    using Some by (cases r) (simp_all add: plain_dispatch prog_simps)
  moreover have "map_sum id fst (map_sum id (\<lambda>reply. (reply, '''', False)) r) = r" by (cases r) simp_all
  ultimately show ?thesis
    using plain_agrees [OF Some inv, of E b this] run
    by (cases r) (simp_all add: auth_agrees_def answer_of_def)
next
  case None
  with t have "t \<in> {REGISTER, LOGIN, TOKEN_VERIFY}" by (simp add: expects_answer_def)
  then show ?thesis using register_agrees login_agrees token_verify_agrees by blast
qed

section \<open>The answer and the log\<close>

text \<open>The code is in the last four bytes of an answer, so an answer has one code.\<close>

lemma tells_tail: "tells t e b \<Longrightarrow> \<exists>pre. b = pre @ net_bytes (code_value e)"
  by (cases t) (auto simp: AuthResponse_serialize_def TokenVerifyResponse_serialize_def
    ChatResponse_serialize_def FileUploadResponse_serialize_def FileDownloadResponse_serialize_def
    FriendResponse_serialize_def FriendListResponse_serialize_def DirectMessageResponse_serialize_def
    HistoryResponse_serialize_def ChatListResponse_serialize_def serialize_def ser_error_def pack_ui32_def)

lemma tells_unique:
  assumes "tells t e b" and "tells t e' b"
  shows "e = e'"
proof -
  from assms [THEN tells_tail] have "net_bytes (code_value e) = net_bytes (code_value e')" by auto
  then have "net_u32 (net_bytes (code_value e)) = net_u32 (net_bytes (code_value e'))" by simp
  then show ?thesis by (simp add: error_code.expand)
qed

text \<open>The three outcomes of \<^verbatim>\<open>handle_packet\<close>.\<close>

lemma agreement:
  assumes inv: "store_inv (database S)" and t: "expects_answer t"
  shows "auth_agrees t (verdict E (database S) t b) (cleared this S) (dispatch E this t b (cleared this S))"
  using dispatch_agrees [OF t, of "cleared this S" E b this] inv by (simp add: store_inv_def)

lemma verdict_fault:
  assumes inv: "store_inv (database S)" and t: "expects_answer t"
    and "verdict E (database S) t b = Inl f"
  shows "fst (handle_packet E this t b S) = Inl f"
  using agreement [OF inv t, of E b this] assms(3)
  by (cases "dispatch E this t b (cleared this S)"; cases "fst (dispatch E this t b (cleared this S))")
    (auto simp: auth_agrees_def agrees_def answer_of_def handle_packet_cleared prog_simps)

lemma verdict_ok:
  assumes live: "clients S this \<noteq> None" and inv: "store_inv (database S)" and t: "expects_answer t"
    and v: "verdict E (database S) t b = Inr OK" and run: "handle_packet E this t b S = (Inr u, S')"
  shows "\<exists>printed reply sofar. tells t OK reply \<and>
    console S' = console S @ map Printed printed @ [LoggedPacket t OK ''''] \<and>
    outbox S' this = outbox S this @ sofar @ [full_packet RESULT reply]"
proof -
  from handle_packet_answered [OF live run t] obtain e ls reply l auth S0 sofar
    where d: "dispatch E this t b (cleared this S) = (Inr (reply, l, auth), S0)"
      and told: "tells t e reply" and log: "console S' = console S @ map Printed ls @ log_entry t e"
      and out: "outbox S' this = outbox S this @ sofar @ [full_packet RESULT reply]" by blast
  from agreement [OF inv t, of E b this] v d have "tells t OK reply"
    by (simp add: auth_agrees_def agrees_def)
  with tells_unique [OF told this] log out t show ?thesis
    by (auto simp: log_entry_def)
qed

lemma verdict_refused:
  assumes live: "clients S this \<noteq> None" and inv: "store_inv (database S)" and t: "expects_answer t"
    and v: "verdict E (database S) t b = Inr e" and e: "e \<noteq> OK"
  shows "\<exists>S0 S' printed. handle_packet E this t b S = (Inr (), S') \<and>
    untouched S S0 \<and> S' = answered this t (error_reply t e) S0 \<and> clients S0 this \<noteq> None \<and>
    console S' = console S @ map Printed printed @ [LoggedPacket t e '''']"
proof -
  obtain r S0 where d: "dispatch E this t b (cleared this S) = (r, S0)" by force
  with agreement [OF inv t, of E b this] v e obtain l where r: "r = Inr (error_reply t e, l, False)" and S0: "untouched S S0"
    by (cases r) (auto simp: auth_agrees_def agrees_def)
  have run: "handle_packet E this t b S = (Inr (), answered this t (error_reply t e) S0)"
    using d r by (simp add: handle_packet_cleared prog_simps)
  from handle_packet_answered [OF live run t] d r obtain e' ls where told: "tells t e' (error_reply t e)"
    and log: "console (answered this t (error_reply t e) S0) = console S @ map Printed ls @ log_entry t e'"
    by auto
  have "e' = e" using tells_unique [OF told tells_error_reply [OF t]] .
  have "coded this (console S) OK (cleared this S)"
    using live by (auto simp: coded_def cleared_def error_of_def)
  from dispatch_reports [OF this d [unfolded r] t] have "clients S0 this \<noteq> None" by (auto simp: coded_def)
  with run S0 log t \<open>e' = e\<close> show ?thesis
    by (intro exI [of _ S0] exI [of _ "answered this t (error_reply t e) S0"] exI [of _ ls])
      (simp add: log_entry_def)
qed

text \<open>A request whose token is unknown, expired or without a user, whatever the state of the tables.\<close>

lemma unauthorised_requests_have_no_effect:
  assumes h: "plain_handler type = Some h" and t: "request_token type body = Inr t"
    and none: "token_login E (database S) t = None" and live: "clients S this \<noteq> None"
  shows "\<exists>e S'. handle_packet E this type body S = (Inr (), S') \<and> \<not> ok e \<and>
    (\<forall>x. outbox S' x = outbox S x @
       (if x = this then [full_packet RESULT (error_reply type e)] else [])) \<and>
    users (database S') = users (database S) \<and>
    friendships (database S') = friendships (database S) \<and>
    direct_messages (database S') = direct_messages (database S) \<and>
    online_users S' = online_users S \<and> files S' = files S"
proof -
  obtain e s where get: "getLoginByToken E t (database (cleared this S)) = (Inr (Inl e), s)"
    and e: "\<not> ok e" and s: "users s = users (database S)"
      "friendships s = friendships (database S)" "direct_messages s = direct_messages (database S)"
    using getLoginByToken_None [OF none] by auto
  have "handle_packet E this type body S = (Inr (), answered this type (error_reply type e)
      (note_error this e ((cleared this S)\<lparr>database := s\<rparr>)))"
    using handle_packet_answer [OF h unauthorized_handler [OF h t get]] by simp
  then show ?thesis
    using e s live
    by (intro exI [of _ e] exI [of _ "answered this type (error_reply type e)
        (note_error this e ((cleared this S)\<lparr>database := s\<rparr>))"] conjI)
      (auto simp: outbox_send_to)
qed

section \<open>Credentials\<close>

text \<open>The login as which a request authenticates its session, when it does.\<close>

fun credential :: "env \<Rightarrow> store \<Rightarrow> packet_type \<Rightarrow> bytes \<Rightarrow> string option" where
  "credential E s REGISTER b =
     (case AuthRequest_deserialize b of
        Inl f \<Rightarrow> None
      | Inr r \<Rightarrow> if id_of_login s (areq_login r) = None then Some (areq_login r) else None)"
| "credential E s LOGIN b =
     (case AuthRequest_deserialize b of
        Inl f \<Rightarrow> None
      | Inr r \<Rightarrow> if password_ok E s (areq_login r) (areq_password r) then Some (areq_login r) else None)"
| "credential E s TOKEN_VERIFY b =
     (case TokenVerifyRequest_deserialize b of Inl f \<Rightarrow> None | Inr r \<Rightarrow> token_login E s (tvreq_old_token r))"
| "credential E s _ b = None"

lemma dispatch_credential:
  assumes "dispatch E this t b S = (Inr (reply, l, True), S')"
  shows "credential E (database S) t b = Some l"
proof -
  have "t \<in> {REGISTER, LOGIN, TOKEN_VERIFY}"
    using assms by (auto simp: dispatch_def prog_simps elim!: bnd_InrE split: option.splits if_splits)
  then consider "t = REGISTER" | "t = LOGIN" | "t = TOKEN_VERIFY" by blast
  then show ?thesis
  proof cases
    case 1
    then obtain req where req: "AuthRequest_deserialize b = Inr req"
      using assms by (cases "AuthRequest_deserialize b") (simp_all add: dispatch_def handle_register_def prog_simps)
    have "id_of_login (database S) (areq_login req) = None"
      using dispatch_register_taken [OF req, of S E this] assms 1
      by (cases "id_of_login (database S) (areq_login req)") auto
    moreover have "l = areq_login req"
      using assms 1 req
      by (auto simp: dispatch_def handle_register_def prog_simps elim!: bnd_InrE split: if_splits)
    ultimately show ?thesis using 1 req by simp
  next
    case 2
    then obtain req where req: "AuthRequest_deserialize b = Inr req"
      using assms by (cases "AuthRequest_deserialize b") (simp_all add: dispatch_def handle_login_def prog_simps)
    have "password_ok E (database S) (areq_login req) (areq_password req)"
      using dispatch_login_wrong [OF req, of E S this] assms 2
      by (cases "password_ok E (database S) (areq_login req) (areq_password req)") auto
    moreover have "l = areq_login req"
      using assms 2 req
      by (auto simp: dispatch_def handle_login_def prog_simps elim!: bnd_InrE split: sum.splits)
    ultimately show ?thesis using 2 req by simp
  next
    case 3
    then obtain req where req: "TokenVerifyRequest_deserialize b = Inr req"
      using assms by (cases "TokenVerifyRequest_deserialize b")
        (simp_all add: dispatch_def handle_token_verify_def prog_simps)
    show ?thesis
    proof (cases "token_login E (database S) (tvreq_old_token req)")
      case None
      from getLoginByToken_refused [OF this] dispatch_token_verify_bad [OF req, of E S _ _ this] assms 3
      show ?thesis by auto
    next
      case (Some k)
      with dispatch_token_verify [OF req Some, of this] assms 3 req show ?thesis by simp
    qed
  qed
qed

text \<open>What an event of the server proves: the session whose request it completes has this credential.\<close>

definition proves :: "env \<Rightarrow> event \<Rightarrow> server \<Rightarrow> (nat \<times> string) set" where
  "proves E e S =
     (case e of
        ReadComplete sid \<Rightarrow>
          (case clients S sid of
             None \<Rightarrow> {}
           | Some c \<Rightarrow>
               (case read_step (reader c) of
                  Some (Some (t, b), r) \<Rightarrow>
                    (case credential E (database S) t b of None \<Rightarrow> {} | Some l \<Rightarrow> {(sid, l)})
                | _ \<Rightarrow> {}))
      | _ \<Rightarrow> {})"

lemma proves_read:
  "clients S sid = Some c \<Longrightarrow> read_step (reader c) = Some (Some p, r) \<Longrightarrow>
    credential E (database S) (fst p) (snd p) = Some l \<Longrightarrow> (sid, l) \<in> proves E (ReadComplete sid) S"
  by (cases p) (simp add: proves_def)

end
