(* ===== verification/MessageOrigin.thy ===== *)
theory MessageOrigin
  imports MessageSafety Verdicts
begin

text \<open>
  Where the direct messages come from that the server pushes, and whom it pushes them to: the
  packet names the author and has the text of a stored message, and the session has authenticated
  as the recipient of that message. Stored messages come from users who wrote to a friend
  (\<open>MessageSafety\<close>).
\<close>

section \<open>Stored messages\<close>

text \<open>A message \<open>m\<close> of the user with the login \<open>l\<close> to the one with the login \<open>k\<close> is stored.\<close>

definition posted_to :: "string \<Rightarrow> string \<Rightarrow> string \<Rightarrow> store \<Rightarrow> bool" where
  "posted_to k l m s \<longleftrightarrow>
     (\<exists>r \<in> set (direct_messages s). m_message r = m \<and> login_of_id s (m_sender r) = Some l \<and>
        id_of_login s k = Some (m_recipient r))"

definition attributed :: "string \<Rightarrow> string \<Rightarrow> store \<Rightarrow> bool" where
  "attributed l m s \<longleftrightarrow> (\<exists>k. posted_to k l m s)"

lemma login_of_id_append:
  "login_of_id s i = Some l \<Longrightarrow> login_of_id (s\<lparr>users := users s @ us, users_seq := n\<rparr>) i = Some l"
  by (auto simp: login_of_id_def user_by_id_def find_append split: option.splits)

lemma id_of_login_append:
  "id_of_login s k = Some i \<Longrightarrow> id_of_login (s\<lparr>users := users s @ us, users_seq := n\<rparr>) k = Some i"
  by (auto simp: id_of_login_def user_by_login_def find_append split: option.splits)

lemma id_of_login_frame [simp]:
  "id_of_login (s\<lparr>uuid_pos := n\<rparr>) k = id_of_login s k"
  "id_of_login (s\<lparr>sessions := x\<rparr>) k = id_of_login s k"
  "id_of_login (s\<lparr>friendships := y\<rparr>) k = id_of_login s k"
  "id_of_login (s\<lparr>friendships := y, friendships_seq := j\<rparr>) k = id_of_login s k"
  "id_of_login (s\<lparr>direct_messages := z\<rparr>) k = id_of_login s k"
  "id_of_login (s\<lparr>direct_messages := z, messages_seq := j\<rparr>) k = id_of_login s k"
  "id_of_login (s\<lparr>clock_pos := c, sessions := x\<rparr>) k = id_of_login s k"
  by (simp_all add: id_of_login_def user_by_login_def)

lemma login_of_id_frame [simp]:
  "login_of_id (s\<lparr>uuid_pos := n\<rparr>) i = login_of_id s i"
  "login_of_id (s\<lparr>sessions := x\<rparr>) i = login_of_id s i"
  "login_of_id (s\<lparr>friendships := y\<rparr>) i = login_of_id s i"
  "login_of_id (s\<lparr>friendships := y, friendships_seq := k\<rparr>) i = login_of_id s i"
  "login_of_id (s\<lparr>direct_messages := z\<rparr>) i = login_of_id s i"
  "login_of_id (s\<lparr>direct_messages := z, messages_seq := k\<rparr>) i = login_of_id s i"
  "login_of_id (s\<lparr>clock_pos := c, sessions := x\<rparr>) i = login_of_id s i"
  by (simp_all add: login_of_id_def user_by_id_def)

lemma posted_to_keep:
  "posted_to k l m s \<Longrightarrow> set (direct_messages s) \<subseteq> set (direct_messages s') \<Longrightarrow>
    (\<And>i u. login_of_id s i = Some u \<Longrightarrow> login_of_id s' i = Some u) \<Longrightarrow>
    (\<And>u i. id_of_login s u = Some i \<Longrightarrow> id_of_login s' u = Some i) \<Longrightarrow> posted_to k l m s'"
  unfolding posted_to_def by blast

lemma posted_to_table [preserves_intros]:
  "preserves (posted_to k l t) (system_now E)"
  "preserves (posted_to k l t) (draw_uuid E)"
  "preserves (posted_to k l t) (delete_session tok)"
  "preserves (posted_to k l t) (insert_user l' sa p)"
  "preserves (posted_to k l t) (insert_session tok i now)"
  "preserves (posted_to k l t) (insert_message a b c msg d)"
  "preserves (posted_to k l t) (cleanExpiredTokens E)"
  "preserves (posted_to k l t) (logout tok)"
  by (rule preservesI, erule posted_to_keep; auto simp: prog_simps delete_session_def insert_user_def
      insert_session_def insert_message_def cleanExpiredTokens_def intro: login_of_id_append id_of_login_append)+

lemma posted_to_friends [preserves_intros]:
  "preserves (posted_to k l t) (sendRequest a b)"
  "preserves (posted_to k l t) (acceptRequest a b)"
  "preserves (posted_to k l t) (rejectRequest a b)"
  by (rule preservesI, erule posted_to_keep; auto simp: prog_simps sendRequest_def acceptRequest_def
      rejectRequest_def Let_def bnd_def insert_friendship_def split: prod.splits sum.splits option.splits)+

lemma posted_to_marks:
  assumes "posted_to k l t s"
  shows "posted_to k l t (marked ids s)"
proof -
  from assms obtain r where r: "r \<in> set (direct_messages s)" "m_message r = t"
    "login_of_id s (m_sender r) = Some l" "id_of_login s k = Some (m_recipient r)"
    unfolding posted_to_def by blast
  let ?r = "if m_id r \<in> set ids then r\<lparr>m_delivered := 1\<rparr> else r"
  have "?r \<in> set (direct_messages (marked ids s))" using r(1) by (auto simp: marked_def)
  moreover have "m_message ?r = t" "login_of_id (marked ids s) (m_sender ?r) = Some l"
    "id_of_login (marked ids s) k = Some (m_recipient ?r)"
    using r by (simp_all add: marked_def)
  ultimately show ?thesis unfolding posted_to_def by blast
qed

lemma posted_to_marked [preserves_intros]: "preserves (posted_to k l t) (markDelivered E ids)"
  by (simp add: preserves_def markDelivered_run posted_to_marks)

lemma posted_to_users [preserves_intros]:
  "preserves (posted_to k l t) (registerUser E l' p)"
  "preserves (posted_to k l t) (verifyUser E l' p)"
  "preserves (posted_to k l t) (getLoginByToken E tok)"
  "preserves (posted_to k l t) (saveMessage E a b m)"
  unfolding registerUser_def generateSalt_def verifyUser_def verifyPassword_def Let_def
    getLoginByToken_def saveMessage_def
  by (intro preserves_intros)+

interpretation mail: lasting_always "posted_to k l t" for k l t
  by unfold_locales (intro preserves_intros)+

section \<open>Pushed messages\<close>

text \<open>
  A push has the author and the text of a stored message; a message that waited was read back
  from the database, which cuts the text at a zero byte.
\<close>

definition genuine :: "string set \<Rightarrow> store \<Rightarrow> bytes \<Rightarrow> bool" where
  "genuine A s b \<longleftrightarrow> (\<exists>k l t m ts. k \<in> A \<and> posted_to k l t s \<and> m \<in> {t, getText t} \<and>
     b = DirectMessageIncoming_serialize
       \<lparr>dmin_sender_login = l, dmin_message = m, dmin_timestamp = ts\<rparr>)"

lemma genuineI:
  "k \<in> A \<Longrightarrow> posted_to k l t s \<Longrightarrow> m \<in> {t, getText t} \<Longrightarrow> genuine A s (DirectMessageIncoming_serialize
     \<lparr>dmin_sender_login = l, dmin_message = m, dmin_timestamp = ts\<rparr>)"
  unfolding genuine_def by blast

text \<open>
  \<open>A\<close> are the logins as which the session has authenticated. It is sent answers; a direct message
  is to one of them, and any other push needs that there is one.
\<close>

definition trusted :: "string set \<Rightarrow> store \<Rightarrow> packet_type \<times> bytes \<Rightarrow> bool" where
  "trusted A s p \<longleftrightarrow> proper_type (fst p) \<and> (fst p \<noteq> RESULT \<longrightarrow> A \<noteq> {}) \<and>
     (fst p = DIRECT_MESSAGE \<longrightarrow> genuine A s (snd p))"

lemma genuine_someone: "genuine A s b \<Longrightarrow> A \<noteq> {}"
  by (auto simp: genuine_def)

lemma trusted_mono:
  "(\<And>k l t. posted_to k l t s \<Longrightarrow> posted_to k l t s') \<Longrightarrow> trusted A s p \<Longrightarrow> trusted A s' p"
  unfolding trusted_def genuine_def by blast

text \<open>
  The registry has the session \<open>sid\<close> under logins of \<open>A\<close> only, and, if the session lives, it was
  sent trusted packets after \<open>n0\<close>.
\<close>

definition backed :: "string set \<Rightarrow> nat \<Rightarrow> bytes list \<Rightarrow> server \<Rightarrow> bool" where
  "backed A sid n0 S \<longleftrightarrow> (\<forall>l. (l, sid) \<in> set (online_users S) \<longrightarrow> l \<in> A) \<and>
     (\<forall>c. clients S sid = Some c \<longrightarrow>
        (\<exists>ps. accepted (net c) = n0 @ frames ps \<and> list_all (trusted A (database S)) ps))"

lemma backed_session:
  assumes "backed A sid n0 S" and "getSession l S = Some sid"
  shows "l \<in> A"
  using assms by (auto simp: backed_def getSession_def lock_def dest!: map_of_SomeD split: option.splits if_splits)

lemma backed_mono:
  assumes "backed A sid n0 S" and "clients S' sid = clients S sid"
    and "\<And>l. (l, sid) \<in> set (online_users S') \<Longrightarrow> (l, sid) \<in> set (online_users S)"
    and "\<And>k l t. within (posted_to k l t) S \<Longrightarrow> within (posted_to k l t) S'"
  shows "backed A sid n0 S'"
proof -
  have "trusted A (database S) p \<Longrightarrow> trusted A (database S') p" for p
    using trusted_mono [of "database S" "database S'" A p] assms(4) by (simp add: within_def)
  with assms(1-3) show ?thesis by (fastforce simp: backed_def list_all_iff)
qed

lemma backed_update_client:
  assumes "backed A sid n0 S" and "\<And>c. accepted (net (f c)) = accepted (net c)"
  shows "backed A sid n0 (update_client x f S)"
  using assms by (auto simp: backed_def)

lemma backed_send:
  assumes "backed A sid n0 S" and "x = sid \<Longrightarrow> trusted A (database S) (t, b)"
  shows "backed A sid n0 (send_to x t b S)"
proof (cases "x = sid")
  case False
  with assms(1) show ?thesis by (simp add: backed_def send_to_def)
next
  case True
  have "\<exists>qs. n0 @ frames ps @ [full_packet t b] = n0 @ frames qs \<and> list_all (trusted A (database S)) qs"
    if "list_all (trusted A (database S)) ps" for ps
    using that assms(2) True by (intro exI [of _ "ps @ [(t, b)]"]) simp
  with assms(1) True show ?thesis
    by (fastforce simp: backed_def send_packet_sent)
qed

lemma backed_put_line [simp]: "backed A sid n0 (put_line l S) = backed A sid n0 S"
  by (simp add: backed_def)

lemma backed_frame [preserves_intros]:
  "(\<And>k l t. preserves (posted_to k l t) m) \<Longrightarrow> preserves (backed A sid n0) (on_db m)"
  "preserves (backed A sid n0) (on_files m')"
  "preserves (backed A sid n0) (on_rand m'')"
  "preserves (backed A sid n0) (get_login x)"
proof -
  assume m: "\<And>k l t. preserves (posted_to k l t) m"
  show "preserves (backed A sid n0) (on_db m)"
  proof (rule preservesI)
    fix S assume "backed A sid n0 S"
    moreover have "clients (snd (on_db m S)) sid = clients S sid"
      by (simp add: on_db_def split: prod.split)
    ultimately show "backed A sid n0 (snd (on_db m S))"
      by (rule backed_mono) (use preservesD [OF within_on_db [OF m]] in \<open>auto simp: on_db_def split: prod.split_asm\<close>)
  qed
qed (auto simp: preserves_def backed_def on_files_def on_rand_def prog_simps addUser_def split: prod.splits)

lemma backed_setters [preserves_intros]:
  "preserves (backed A sid n0) (set_error x e)"
  "preserves (backed A sid n0) (set_token x tok)"
  "preserves (backed A sid n0) (set_login x l)"
  "preserves (backed A sid n0) (log_packet x ty msg)"
  unfolding set_error_def set_token_def set_login_def
  by (intro preserves_modify preserves_log_packet backed_update_client; simp)+

lemma backed_broadcast_to:
  assumes ty: "ty \<noteq> DIRECT_MESSAGE" "proper_type ty"
  shows "backed A sid n0 S \<Longrightarrow> (\<And>l. (l, sid) \<in> set us \<Longrightarrow> A \<noteq> {}) \<Longrightarrow>
    backed A sid n0 (broadcast_to us l0 ty b S)"
proof (induction us arbitrary: S)
  case (Cons u us)
  have "backed A sid n0 (broadcast_one l0 ty b u S)"
    using Cons.prems(1) Cons.prems(2) [of "fst u"] ty
    by (cases u) (auto simp: broadcast_one_def lock_def Let_def trusted_def intro!: backed_send split: option.splits)
  moreover have "A \<noteq> {}" if "(l, sid) \<in> set us" for l
    using Cons.prems(2) [of l] that by simp
  ultimately have "backed A sid n0 (broadcast_to us l0 ty b (broadcast_one l0 ty b u S))"
    by (rule Cons.IH)
  then show ?case by simp
qed simp

lemma backed_pushes [preserves_intros]:
  assumes ty: "ty \<noteq> DIRECT_MESSAGE" "proper_type ty"
  shows "preserves (backed A sid n0) (modify (broadcast l ty b))"
    and "preserves (backed A sid n0) (notify l ty b)"
proof -
  show "preserves (backed A sid n0) (modify (broadcast l ty b))"
    unfolding broadcast_def
    by (intro preserves_modify backed_broadcast_to [OF ty]) (auto simp: backed_def)
  show "preserves (backed A sid n0) (notify l ty b)"
  proof (rule preservesI)
    fix S assume S: "backed A sid n0 S"
    have "backed A sid n0 (send_to s ty b S)" if "getSession l S = Some s" for s
      using that backed_session [OF S, of l] ty
      by (intro backed_send [OF S]) (auto simp: trusted_def)
    with S show "backed A sid n0 (snd (notify l ty b S))"
      by (auto simp: notify_def prog_simps split: option.split)
  qed
qed

lemma backed_handlers [preserves_intros]:
  "preserves (backed A sid n0) (handle_register E this body)"
  "preserves (backed A sid n0) (handle_login E this body)"
  "preserves (backed A sid n0) (handle_token_verify E this body)"
  "preserves (backed A sid n0) (handle_logout this body)"
  "preserves (backed A sid n0) (handle_message E this body)"
  "preserves (backed A sid n0) (handle_upload E this body)"
  "preserves (backed A sid n0) (handle_download E this body)"
  "preserves (backed A sid n0) (handle_friend_request E this body)"
  "preserves (backed A sid n0) (handle_friend_accept E this body)"
  "preserves (backed A sid n0) (handle_friend_reject E this body)"
  "preserves (backed A sid n0) (handle_friend_list E this body)"
  "preserves (backed A sid n0) (handle_message_history E this body)"
  "preserves (backed A sid n0) (handle_chat_list E this body)"
  unfolding handle_register_def handle_login_def handle_token_verify_def handle_logout_def
    handler_defs logins_of_def
  by (intro preserves_intros; simp)+

lemma backed_dispatch:
  "ty \<noteq> DIRECT_MESSAGE \<Longrightarrow> preserves (backed A sid n0) (dispatch E this ty body)"
proof -
  assume ty: "ty \<noteq> DIRECT_MESSAGE"
  have "preserves (backed A sid n0) (h E this body)" if "plain_handler ty = Some h" for h
    using that ty by (cases ty) (auto intro: preserves_intros)
  then show ?thesis unfolding dispatch_def by (intro preserves_intros)
qed

text \<open>The waiting messages are read back from the database.\<close>

lemma genuine_incoming:
  assumes "store_inv s" and "r \<in> set (direct_messages s)"
    and k: "id_of_login s k = Some (m_recipient r)" "k \<in> A"
  shows "genuine A s (incoming_of s r)"
proof -
  have "m_sender r \<in> user_ids s" using assms by (simp add: store_inv_def messages_inv_def)
  from users_have_logins [OF this] obtain l where l: "login_of_id s (m_sender r) = Some l" by blast
  with assms(2) k have "posted_to k l (m_message r) s" by (auto simp: posted_to_def)
  with l k(2) show ?thesis unfolding genuine_def incoming_of_def by fastforce
qed

lemma backed_send_dms:
  "backed A sid n0 S \<Longrightarrow> (x = sid \<Longrightarrow> \<forall>b \<in> set bs. genuine A (database S) b) \<Longrightarrow>
    backed A sid n0 (send_dms x bs S)"
proof (induction bs arbitrary: S)
  case (Cons b bs)
  then have "backed A sid n0 (send_to x DIRECT_MESSAGE b S)"
    by (intro backed_send) (auto simp: trusted_def dest: genuine_someone)
  with Cons show ?case by (simp add: send_dms_def)
qed (simp add: send_dms_def)

lemma backed_deliver:
  assumes S: "backed A sid n0 S" and inv: "store_inv (database S)"
    and own: "this = sid \<Longrightarrow> login_of S this \<in> A"
  shows "backed A sid n0 (snd (deliver_pending E this S))"
proof (cases "id_of_login (database S) (login_of S this)")
  case None
  then have "snd (deliver_pending E this S) = S"
    by (simp add: deliver_pending_def prog_simps on_db_lookups)
  with S show ?thesis by simp
next
  case (Some i)
  let ?rs = "undelivered_rows i (database S)"
  let ?S = "send_dms this (map (incoming_of (database S)) ?rs) S"
  have rows: "r \<in> set (direct_messages (database S)) \<and> m_recipient r = i" if "r \<in> set ?rs" for r
    using that by (auto simp: undelivered_rows_def)
  have sent: "backed A sid n0 ?S"
  proof (rule backed_send_dms [OF S])
    assume "this = sid"
    with own have "login_of S this \<in> A" by blast
    with rows Some show "\<forall>b \<in> set (map (incoming_of (database S)) ?rs). genuine A (database S) b"
      by (auto intro: genuine_incoming [OF inv])
  qed
  moreover have "backed A sid n0 (?S\<lparr>database := marked ids (database S)\<rparr>)" for ids
  proof (rule backed_mono [OF sent])
    fix k l t assume "within (posted_to k l t) ?S"
    then show "within (posted_to k l t) (?S\<lparr>database := marked ids (database S)\<rparr>)"
      using preservesD [OF posted_to_marked, of k l t "database S" "E\<lparr>max_variables := length ids\<rparr>" ids]
      by (simp add: within_def markDelivered_run)
  qed simp_all
  ultimately show ?thesis using deliver_pending_run [OF inv Some, of E] by (simp add: Let_def)
qed

text \<open>The author of a new message is the owner of the token.\<close>

lemma login_of_sender:
  assumes "users_inv s" and "id_of_login s l = Some a" and "nul_free l"
  shows "login_of_id s a = Some l"
proof -
  from assms(2) obtain u where "u \<in> set (users s)" "u_login u = l" "u_id u = a"
    by (auto simp: id_of_login_def dest: user_by_login_Some)
  with assms user_by_id_of [of s u] show ?thesis by (simp add: login_of_id_def getText_def)
qed

lemma token_login_nul_free: "token_login E s t = Some l \<Longrightarrow> nul_free l"
  by (auto simp: token_login_def login_of_id_def getText_def split: option.splits if_splits)

lemma backed_direct_message:
  assumes S: "backed A sid n0 S" and inv: "store_inv (database S)"
    and run: "handle_direct_message E this body S = (Inr reply, S')"
  shows "backed A sid n0 S'"
proof -
  have fr: "friendships_inv (database S)" and us: "users_inv (database S)"
    using inv by (simp_all add: store_inv_def)
  obtain req where req: "DirectMessageRequest_deserialize body = Inr req"
    using run by (cases "DirectMessageRequest_deserialize body")
      (simp_all add: handle_direct_message_def prog_simps)
  have keep: "backed A sid n0 (note_error this e S1)" if "backed A sid n0 S1" for e S1
    unfolding note_error_def by (intro backed_update_client that) simp
  have ticked: "backed A sid n0 (tick S)"
    by (rule backed_mono [OF S]) (simp_all add: within_def posted_to_def)
  show ?thesis
  proof (cases "token_login E (database S) (dmreq_token req)")
    case None
    from getLoginByToken_None [OF this] obtain e s
      where get: "getLoginByToken E (dmreq_token req) (database S) = (Inr (Inl e), s)" by blast
    have "backed A sid n0 (snd (on_db (getLoginByToken E (dmreq_token req)) S))"
      using preservesD [OF backed_frame(1) [OF posted_to_users(3)] S] .
    with run req get show ?thesis
      by (auto simp: handle_direct_message_def prog_simps on_db_run dm_error_def keep)
  next
    case (Some l)
    note auth = authorised_run [OF Some]
    show ?thesis
    proof (cases "id_of_login (database S) l = None \<or>
        id_of_login (database S) (dmreq_recipient_login req) = None")
      case True
      with run req auth show ?thesis
        by (auto simp: handle_direct_message_def prog_simps on_db_lookups dm_error_def keep ticked
            split: option.splits if_splits)
    next
      case False
      then obtain a b where a: "id_of_login (database S) l = Some a"
        and b: "id_of_login (database S) (dmreq_recipient_login req) = Some b" by auto
      show ?thesis
      proof (cases "relation (database S) a b = Friends")
        case False
        from handle_direct_message_strangers [OF req Some a b fr this, of this] run show ?thesis
          by (auto simp: keep ticked)
      next
        case rel: True
        let ?s = "message_saved E a b (dmreq_message req) (database (tick S))"
        let ?S = "S\<lparr>database := ?s\<rparr>"
        have space: "messages_seq (database S) < max_rowid"
        proof (rule ccontr)
          assume full: "\<not> messages_seq (database S) < max_rowid"
          have "\<exists>f s'. saveMessage E a b (dmreq_message req) (database (tick S)) = (Inl f, s')"
            using full id_of_login_user [OF a] id_of_login_user [OF b]
            by (simp add: saveMessage_def prog_simps insert_message_def user_ids_def)
          with run req auth a b fr rel show False
            by (auto simp: handle_direct_message_def prog_simps on_db_lookups on_db_areFriends on_db_run)
        qed
        have login: "login_of_id (database S) a = Some l"
          using login_of_sender [OF us a token_login_nul_free [OF Some]] .
        have "posted_to (dmreq_recipient_login req) l (dmreq_message req) ?s"
          using login b by (auto simp: posted_to_def message_saved_def login_of_id_def user_by_id_def
              id_of_login_def user_by_login_def)
        then have push: "trusted A ?s (DIRECT_MESSAGE, DirectMessageIncoming_serialize
            \<lparr>dmin_sender_login = l, dmin_message = dmreq_message req, dmin_timestamp = ts\<rparr>)"
          if "getSession (dmreq_recipient_login req) S = Some sid" for ts
          using genuineI [OF backed_session [OF S that], of l] backed_session [OF S that] unfolding trusted_def by auto
        have "backed A sid n0 ?S"
          by (rule backed_mono [OF S])
            (auto simp: within_def posted_to_def message_saved_def login_of_id_def user_by_id_def
              id_of_login_def user_by_login_def)
        with push handle_direct_message_friends [OF req Some a b fr rel space, of this] run show ?thesis
          by (auto intro!: backed_send split: option.splits)
      qed
    qed
  qed
qed

section \<open>Every step of the server\<close>

lemma backed_cleared: "backed A sid n0 S \<Longrightarrow> backed A sid n0 (cleared this S)"
  unfolding cleared_def by (rule backed_update_client) simp_all

lemma login_kept [preserves_intros]:
  "preserves (\<lambda>S. login_of S x = l) (on_db m)"
  "preserves (\<lambda>S. login_of S x = l) (modify (send_to y t b))"
  by (auto simp: preserves_def on_db_def prog_simps split: prod.split)

lemma deliver_keeps_login: "preserves (\<lambda>S. login_of S x = l) (deliver_pending E this)"
  unfolding deliver_pending_def get_login_def by (intro preserves_intros)

lemma set_update_subset: "set (AList.update k v us) \<subseteq> insert (k, v) (set us)"
  by (induction us) auto

lemma backed_addUser:
  assumes "backed A sid n0 S" and "x = sid \<Longrightarrow> l \<in> A"
  shows "backed A sid n0 (addUser l x S)"
  using assms set_update_subset [of l x "online_users S"] by (auto simp: backed_def addUser_def)

lemma backed_handle_packet:
  assumes S: "backed A sid n0 S" and inv: "serving this S"
    and cred: "\<And>l. this = sid \<Longrightarrow> credential E (database S) ty body = Some l \<Longrightarrow> l \<in> A"
    and run: "handle_packet E this ty body S = (Inr u, S')"
  shows "backed A sid n0 S'"
  using run
proof (rule handle_packet_parts)
  fix reply l auth S0 v S1
  assume d: "dispatch E this ty body (cleared this S) = (Inr (reply, l, auth), S0)"
    and after: "enter E this auth l S0 = (Inr v, S1)"
    and S': "S' = (if reply \<noteq> [] then answered this ty reply S1 else S1)"
  have C: "serving this (cleared this S)"
    using preservesD [OF serving_update_client [of "\<lambda>c. c\<lparr>errorCode := clear (errorCode c)\<rparr>"] inv]
    by (simp add: cleared_def prog_simps)
  have S0: "backed A sid n0 S0"
  proof (cases "ty = DIRECT_MESSAGE")
    case True
    with d have "handle_direct_message E this body (cleared this S) = (Inr reply, S0)"
      by (auto simp: plain_dispatch prog_simps elim!: bnd_InrE)
    from backed_direct_message [OF backed_cleared [OF S] _ this] inv show ?thesis
      by (simp add: serving_def server_inv_def)
  next
    case False
    from preservesD [OF backed_dispatch [OF this] backed_cleared [OF S]] d show ?thesis
      by (metis snd_conv)
  qed
  have serv: "serving this S0"
    using preservesD [OF serving_dispatch C] d by (metis snd_conv)
  have "backed A sid n0 S1"
  proof (cases auth)
    case False
    with after S0 show ?thesis by (simp add: prog_simps)
  next
    case True
    obtain S2 where login: "set_login this l S0 = (Inr (), S2)" by (simp add: set_login_def prog_simps)
    have "serving this S2" "backed A sid n0 S2"
      using preservesD [OF serving_setters(3) serv] preservesD [OF backed_setters(3) S0] login
      by (metis snd_conv)+
    have l: "login_of S2 this = l"
      using login serv by (auto simp: prog_simps serving_def login_of_entered)
    have A: "l \<in> A" if "this = sid"
      using dispatch_credential [of E this ty body "cleared this S"] d True cred [OF that] by simp
    obtain S3 where S3: "deliver_pending E this S2 = (Inr (), S3)" "S1 = addUser (login_of S3 this) this S3"
      using after True login by (auto simp: prog_simps elim!: bnd_InrE)
    have "login_of (snd (deliver_pending E this S2)) this = l"
      by (rule preservesD [OF deliver_keeps_login l])
    then have "login_of S3 this = l" using S3(1) by simp
    moreover have "backed A sid n0 S3"
    proof -
      have "backed A sid n0 (snd (deliver_pending E this S2))"
        using \<open>backed A sid n0 S2\<close> \<open>serving this S2\<close> A unfolding l [symmetric]
        by (intro backed_deliver) (simp_all add: serving_def server_inv_def)
      then show ?thesis using S3(1) by simp
    qed
    ultimately show ?thesis using A unfolding S3(2) by (intro backed_addUser) simp_all
  qed
  then show ?thesis
    using S' backed_send [of A sid n0 S1 this RESULT] by (simp add: answered_def trusted_def)
qed

lemma nothing_sent: "\<exists>ps. [] = frames ps \<and> list_all (trusted A s) ps"
  by (rule exI [of _ "[]"]) simp

lemma server_step_backed:
  assumes inv: "server_inv S" and S: "backed A sid n0 S"
    and fresh: "clients S sid = None \<Longrightarrow> n0 = []"
    and cred: "\<And>l. (sid, l) \<in> proves E e S \<Longrightarrow> l \<in> A"
    and step: "server_step E e S = Some (Inr u, S')"
  shows "backed A sid n0 S'"
proof -
  have net: "backed A sid n0 T"
    if T: "net_handler x e S2 = Some (Inr u, T)" "sent_packets [e] = []" "server_inv S2" "backed A sid n0 S2"
    for x e S2 T
  proof -
    from T(1) obtain d n where d: "clients S2 x = Some d" and n: "net_step e (net d) = Some (Inr n)"
      and T': "T = update_client x (\<lambda>c. c\<lparr>net := n\<rparr>) S2"
      by (auto simp: net_handler_def split: option.splits sum.splits)
    have "net_inv (net d)" using T(3) d by (auto simp: server_inv_def clients_inv_def)
    from net_step_inv [OF this n] T(2) have "accepted n = accepted (net d)" by auto
    with T(4) d show ?thesis unfolding T' by (auto simp: backed_def)
  qed
  show ?thesis
  proof (cases e)
    case (Accept error)
    have "sid = next_client S \<Longrightarrow> n0 = []"
      using inv fresh by (auto simp: server_inv_def clients_inv_def)
    with Accept step S show ?thesis
      by (cases "sid = next_client S")
        (auto simp: accept_handler_def prog_simps backed_def new_client_def new_net_accepted nothing_sent
          split: if_splits)
  next
    case (Arrive x bs)
    with step S show ?thesis
      by (auto simp: arrive_def intro: backed_update_client split: if_splits)
  next
    case (ReadComplete x)
    with step obtain d p r where d: "clients S x = Some d" and r: "read_step (reader d) = Some (p, r)"
      by (auto simp: read_complete_def split: option.splits if_splits)
    show ?thesis
    proof (cases p)
      case None
      with ReadComplete step d r S show ?thesis
        by (auto simp: read_complete_def prog_simps intro: backed_update_client split: if_splits)
    next
      case (Some packet)
      with ReadComplete step d r have "read_handler E x packet r S = (Inr u, S')"
        by (auto simp: read_complete_def split: if_splits)
      then obtain v S2 where h: "handle_packet E x (fst packet) (snd packet) S = (Inr v, S2)"
        and S': "S' = update_client x (\<lambda>c. c\<lparr>reader := r\<rparr>) S2"
        by (auto simp: read_handler_def prog_simps elim!: bnd_InrE)
      have "serving x S" using inv d by (simp add: serving_def)
      have cr: "l \<in> A" if "x = sid" "credential E (database S) (fst packet) (snd packet) = Some l" for l
        using cred [of l] proves_read [of S x d packet r E l] d r Some that ReadComplete by simp
      have "backed A sid n0 S2" using S \<open>serving x S\<close> cr h by (rule backed_handle_packet)
      then show ?thesis unfolding S' by (rule backed_update_client) simp
    qed
  next
    case (ReadFail x)
    with step obtain d where "net_handler x ReadFailed (update_client x (\<lambda>c. c\<lparr>reading := False\<rparr>) S) =
        Some (Inr u, S')"
      by (auto simp: read_failed_def split: option.splits if_splits)
    then show ?thesis
      by (rule net) (simp_all add: server_inv_update_client inv backed_update_client S)
  next
    case (Release x)
    with step S set_delete_subset show ?thesis
      by (fastforce simp: release_def destroy_session_def removeUser_def Let_def backed_def
          split: option.splits if_splits)
  next
    case (TimerFired error)
    have "preserves (backed A sid n0) (timer_handler E error)"
      unfolding timer_handler_def schedule_def
      by (intro preserves_intros preserves_modify) (auto simp: backed_def)
    from preservesD [OF this S] TimerFired step show ?thesis
      by (metis option.inject server_step.simps(8) snd_conv option.distinct(1))
  qed (use step net S inv in auto)
qed

end
