(* ===== verification/ConversationOrigin.thy ===== *)
theory ConversationOrigin
  imports ConversationInvariant ClientBehaviour MessageOrigin
begin

text \<open>
  Whatever a client shows as a direct message is a stored message, under the login of its author:
  the invariant \<open>traced\<close> of a conversation, along the bytes from the server's session to the signals
  of the client.
\<close>

section \<open>Signals\<close>

definition honest :: "qt \<Rightarrow> store \<Rightarrow> bridge_signal \<Rightarrow> bool" where
  "honest Q s sig \<longleftrightarrow> (\<forall>author shown_text time. sig = directMessageReceived author shown_text time \<longrightarrow>
     (\<exists>l t m. attributed l t s \<and> m \<in> {t, getText t} \<and>
        author = fromStdString Q l \<and> shown_text = fromStdString Q m))"

lemma honest_mono:
  assumes "\<And>l t. attributed l t s \<Longrightarrow> attributed l t s'" and "honest Q s sig"
  shows "honest Q s' sig"
  unfolding honest_def
proof (intro allI impI)
  fix author shown_text time assume "sig = directMessageReceived author shown_text time"
  with assms(2) obtain l t m where "attributed l t s" "m \<in> {t, getText t}"
    "author = fromStdString Q l" "shown_text = fromStdString Q m"
    unfolding honest_def by (elim allE impE) (assumption, elim exE conjE, rule that)
  with assms(1) show "\<exists>l t m. attributed l t s' \<and> m \<in> {t, getText t} \<and>
      author = fromStdString Q l \<and> shown_text = fromStdString Q m"
    by (intro exI [of _ l] exI [of _ t] exI [of _ m]) simp
qed

lemma honest_direct:
  "attributed l t s \<Longrightarrow> m \<in> {t, getText t} \<Longrightarrow>
    honest Q s (directMessageReceived (fromStdString Q l) (fromStdString Q m) time)"
  unfolding honest_def
  by (intro allI impI exI [of _ l] exI [of _ t] exI [of _ m]) simp

lemma genuine_parse:
  assumes "genuine UNIV s b" and "fits32 (length b)" and "DirectMessageIncoming_deserialize b = Inr r"
  shows "honest Q s (directMessageReceived (fromStdString Q (dmin_sender_login r))
    (fromStdString Q (dmin_message r)) (dmin_timestamp r))"
proof -
  from assms(1) obtain k l t m ts where r: "posted_to k l t s" "m \<in> {t, getText t}"
    and b: "b = DirectMessageIncoming_serialize
      \<lparr>dmin_sender_login = l, dmin_message = m, dmin_timestamp = ts\<rparr>"
    unfolding genuine_def by blast
  from assms(2) have "DirectMessageIncoming_deserialize b =
      Inr \<lparr>dmin_sender_login = l, dmin_message = m, dmin_timestamp = ts\<rparr>"
    unfolding b by (intro whole_roundtrips fits_wf)
  moreover have "attributed l t s" using r(1) by (auto simp: attributed_def)
  ultimately show ?thesis using assms(3) honest_direct [OF _ r(2)] by auto
qed

lemma answer_signals: "answer_signal Q t b = Inr sigs \<Longrightarrow> list_all (honest Q s) sigs"
  by (cases t) (auto simp: map_sum_Inr honest_def)

lemma push_signals:
  assumes "push_signal Q t b = Inr sigs" and "fits32 (length b)" and "trusted UNIV s (t, b)"
  shows "list_all (honest Q s) sigs"
proof (cases "t = DIRECT_MESSAGE")
  case True
  with assms show ?thesis by (auto simp: map_sum_Inr trusted_def intro: genuine_parse)
next
  case False
  with assms(1) show ?thesis by (cases t) (auto simp: map_sum_Inr honest_def)
qed

text \<open>A packet gives signals at the end of the queue.\<close>

lemma packet_signals:
  assumes H: "callbacks H = NetworkBridge Q" and run: "handle_packet_async t b H = (x, H')"
    and ok: "fits32 (length b)" "trusted UNIV s (t, b)"
  shows "callbacks H' = NetworkBridge Q \<and>
    (\<exists>sigs. world H' = world H @ sigs \<and> list_all (honest Q s) sigs)"
proof -
  have switch: "callbacks H1 = NetworkBridge Q \<and>
      (\<exists>sigs. world H1 = world H @ sigs \<and> list_all (honest Q s) sigs)"
    if h: "handle_switch t b H = (y, H1)" for y H1
  proof (cases "t = RESULT")
    case False
    with h H handle_push_signal [OF H False, of b] push_signals [OF _ ok] show ?thesis
      by (auto split: sum.splits)
  next
    case True
    show ?thesis
    proof (cases "pending_requests H")
      case Nil
      with h True H show ?thesis by (auto simp: handle_switch_def prog_simps)
    next
      case (Cons r rest)
      with h True H handle_answer_signal [of "H\<lparr>pending_requests := rest\<rparr>" Q r b] answer_signals [of Q r b]
      show ?thesis by (auto simp: handle_switch_def prog_simps split: sum.splits)
    qed
  qed
  obtain y H1 where "handle_switch t b H = (y, H1)" by force
  with run switch [OF this] show ?thesis
    by (cases y) (auto simp: handle_packet_async_def prog_simps push_line_run)
qed

section \<open>The invariant\<close>

definition db_of :: "conversation \<Rightarrow> store" where
  "db_of s = (case server_side s of Running S \<Rightarrow> database S | Exited f S \<Rightarrow> database S)"

text \<open>\<open>D\<close> is on the way to the client; \<open>signals\<close> are those that wait and those that were shown.\<close>

definition arriving :: "nat \<Rightarrow> conversation \<Rightarrow> (packet_type \<times> bytes) list \<Rightarrow> bytes \<Rightarrow> bool" where
  "arriving sid s D rest \<longleftrightarrow>
     list_all sendable D \<and> list_all (trusted UNIV (db_of s)) D \<and>
     feeds (base_reader (handler (client_side s))) (down s @ rest) D \<and>
     (\<forall>c. session_of sid s = Some c \<longrightarrow> rest = drop (taken_down s) (concat (accepted (net c))) \<and>
        taken_down s \<le> length (concat (accepted (net c))))"

definition signals :: "client_app \<Rightarrow> bridge_signal list" where
  "signals A = shown A @ world (handler A)"

definition traced :: "qt \<Rightarrow> nat \<Rightarrow> conversation \<Rightarrow> bool" where
  "traced Q sid s \<longleftrightarrow> callbacks (handler (client_side s)) = NetworkBridge Q \<and>
     list_all (honest Q (db_of s)) (signals (client_side s)) \<and> (\<exists>D rest. arriving sid s D rest)"

lemma tracedE:
  assumes "traced Q sid s"
  obtains D rest where "callbacks (handler (client_side s)) = NetworkBridge Q"
    and "list_all (honest Q (db_of s)) (signals (client_side s))" and "arriving sid s D rest"
  using assms unfolding traced_def by blast

lemma traced_connect: "clients S sid = Some new_client \<Longrightarrow> traced Q sid (connected_pair Q qfs S)"
  unfolding traced_def arriving_def
  by (auto simp: connected_pair_def client_main_def signals_def session_of_def feeds_def start_reader_def
      new_client_def new_net_accepted intro!: exI [of _ "[]"])

text \<open>A step of the server.\<close>

lemma traced_serve:
  assumes t: "traced Q sid s" and inv: "conversation_inv sid s" and S: "server_side s = Running S"
    and other: "\<not> arrives_at sid e" and step: "server_step E e S = Some r"
    and fit: "session_fits sid (snd r)"
  shows "traced Q sid (s\<lparr>server_side := outcome r\<rparr>)"
proof -
  let ?s = "s\<lparr>server_side := outcome r\<rparr>"
  from t obtain D rest where cb: "callbacks (handler (client_side s)) = NetworkBridge Q"
    and sig: "list_all (honest Q (db_of s)) (signals (client_side s))" and D: "arriving sid s D rest"
    by (rule tracedE)
  have si: "server_inv S" "sid < next_client S" using inv S by (auto simp: conversation_inv_def steady_def)
  have db: "db_of s = database S" "db_of ?s = database (snd r)"
    using S by (simp_all add: db_of_def outcome_def split: prod.split sum.split)
  have mono: "posted_to k l t (db_of s) \<Longrightarrow> posted_to k l t (db_of ?s)" for k l t
    using mail.step_keeps [OF _ step, of k l t] by (simp add: within_def db)
  then have known: "attributed l t (db_of s) \<Longrightarrow> attributed l t (db_of ?s)" for l t
    unfolding attributed_def by blast
  have sig': "list_all (honest Q (db_of ?s)) (signals (client_side s))"
    using sig honest_mono [OF known] by (auto simp: list_all_iff)
  have D': "list_all (trusted UNIV (db_of ?s)) D"
    using D trusted_mono [OF mono] by (auto simp: arriving_def list_all_iff)
  have "\<exists>D rest. arriving sid ?s D rest"
  proof (cases "session_of sid ?s")
    case None
    with D D' show ?thesis by (auto simp: arriving_def)
  next
    case (Some c')
    then obtain S1 where out: "outcome r = Running S1" and c': "clients S1 sid = Some c'"
      by (cases "outcome r") (auto simp: session_of_def)
    then have r: "r = (Inr (), S1)" by (auto simp: outcome_def split: prod.splits sum.splits)
    have "session_moves sid S S1" using server_step_moves [OF si(1) _ other] step r by blast
    with c' si(2) obtain c where c: "clients S sid = Some c"
      by (cases "clients S sid") (auto simp: session_moves_def)
    have "backed UNIV sid (accepted (net c)) S"
      using c by (auto simp: backed_def intro: exI [of _ "[]"])
    from server_step_backed [OF si(1) this, of E e "()" S1] step r c c' obtain ps
      where ps: "accepted (net c') = accepted (net c) @ frames ps" "list_all (trusted UNIV (database S1)) ps"
      by (auto simp: backed_def)
    have "headers_fit (net c')" using fit r c' by (simp add: session_fits_def)
    then have "list_all sendable ps"
      using headers_fit_sendable [of "net c'" ps] ps by (auto simp: list_all_iff trusted_def)
    moreover have "feeds (base_reader (handler (client_side s))) ((down s @ rest) @ concat (frames ps)) (D @ ps)"
      using D by (intro feeds_send) (simp add: arriving_def)
    ultimately have "arriving sid ?s (D @ ps) (rest @ concat (frames ps))"
      using D D' ps Some c S out c' r unfolding arriving_def db by (simp add: session_of_def)
    then show ?thesis by blast
  qed
  with cb sig' show ?thesis by (simp add: traced_def)
qed

text \<open>A step of the client.\<close>

lemma traced_client:
  assumes D: "arriving sid s D rest"
    and B: "callbacks (handler B) = NetworkBridge Q" "list_all (honest Q (db_of s)) (signals B)"
      "base_reader (handler B) = base_reader (handler (client_side s)) \<or>
       read_step (base_reader (handler (client_side s))) = Some (None, base_reader (handler B))"
  shows "traced Q sid (s\<lparr>client_side := B, client_fault := f\<rparr>)"
proof -
  have "feeds (base_reader (handler B)) (down s @ rest) D"
    using D B(3) feeds_header unfolding arriving_def by metis
  with D B(1,2) show ?thesis
    by (auto simp: traced_def arriving_def db_of_def session_of_def)
qed

lemma thread_step_frame:
  "world (run_thread_step t H) = world H" "callbacks (run_thread_step t H) = callbacks H"
  "base_reader (run_thread_step t H) = base_reader H"
  by (cases t; simp)+

lemma thread_signals:
  "thread_handler A = Some B \<Longrightarrow> signals B = signals A \<and> callbacks (handler B) = callbacks (handler A) \<and>
    base_reader (handler B) = base_reader (handler A)"
  by (auto simp: thread_handler_def signals_def thread_step_frame split: list.splits)

lemma net_signals:
  "client_net e A = Some (x, B) \<Longrightarrow> signals B = signals A \<and> callbacks (handler B) = callbacks (handler A) \<and>
    base_reader (handler B) = base_reader (handler A)"
  by (auto simp: client_net_def signals_def split: option.splits sum.splits)

lemma traced_read:
  assumes t: "traced Q sid s" and step: "client_read (client_side s) = Some (Inr u, B)"
  shows "traced Q sid (s\<lparr>client_side := B, client_fault := f\<rparr>)"
proof -
  let ?C = "client_side s" and ?H = "handler (client_side s)"
  from t obtain D rest where cb: "callbacks ?H = NetworkBridge Q"
    and sig: "list_all (honest Q (db_of s)) (signals ?C)" and D: "arriving sid s D rest"
    by (rule tracedE)
  from step obtain p r where r: "read_step (base_reader ?H) = Some (p, r)"
    by (auto simp: client_read_def split: if_splits option.splits)
  show ?thesis
  proof (cases p)
    case None
    with step r have "B = ?C\<lparr>handler := ?H\<lparr>base_reader := r\<rparr>\<rparr>"
      by (auto simp: client_read_def on_handler_def set_reader_def prog_simps split: if_splits)
    with traced_client [OF D, of B Q f] cb sig r None show ?thesis by (simp add: signals_def)
  next
    case (Some packet)
    obtain ty b where tb: "packet = (ty, b)" by force
    from D have "feeds (base_reader ?H) (down s @ rest) D" by (simp add: arriving_def)
    from feeds_packet [OF this] r Some tb obtain D' where D': "D = (ty, b) # D'"
      "feeds r (down s @ rest) D'" by blast
    then have ok: "fits32 (length b)" "trusted UNIV (db_of s) (ty, b)"
      using D by (simp_all add: arriving_def sendable_def)
    obtain y H' where h: "handle_packet_async ty b ?H = (y, H')" by force
    from packet_signals [OF cb h ok] obtain sigs where H': "callbacks H' = NetworkBridge Q"
      "world H' = world ?H @ sigs" "list_all (honest Q (db_of s)) sigs" by blast
    from step r Some tb h obtain v where "y = Inr v" and B: "B = ?C\<lparr>handler := H'\<lparr>base_reader := r\<rparr>\<rparr>"
      by (cases y) (auto simp: client_read_def on_handler_def set_reader_def prog_simps split: if_splits)
    from D' D have "arriving sid (s\<lparr>client_side := B, client_fault := f\<rparr>) D' rest"
      by (auto simp: arriving_def B db_of_def session_of_def)
    moreover have "db_of (s\<lparr>client_side := B, client_fault := f\<rparr>) = db_of s" by (simp add: db_of_def)
    ultimately show ?thesis
      using H' sig unfolding traced_def by (auto simp: B signals_def)
  qed
qed

lemma traced_act:
  assumes t: "traced Q sid s" and inv: "conversation_inv sid s"
    and step: "client_step Q E e (client_side s) = Some (x, B)"
    and fit: "headers_fit (base_net (handler B))"
  shows "traced Q sid (s\<lparr>client_side := B, client_fault := f\<rparr>)"
proof -
  let ?C = "client_side s"
  have x: "x = Inr ()" using act_keeps [OF inv step fit] by simp
  from t obtain D rest where cb: "callbacks (handler ?C) = NetworkBridge Q"
    and sig: "list_all (honest Q (db_of s)) (signals ?C)" and D: "arriving sid s D rest"
    by (rule tracedE)
  note keep = traced_client [OF D, of B Q f]
  show ?thesis
  proof (cases e)
    case (Command c)
    with step have "handler B = handler ?C" "shown B = shown ?C"
      by (auto simp: on_adapter_def split: if_splits prod.splits)
    with keep cb sig show ?thesis by (simp add: signals_def)
  next
    case ThreadStep
    with step have "thread_handler ?C = Some B" by auto
    from thread_signals [OF this] keep cb sig show ?thesis by simp
  next
    case Signal
    with step have "signals B = signals ?C" "callbacks (handler B) = callbacks (handler ?C)"
      "base_reader (handler B) = base_reader (handler ?C)"
      by (auto simp: deliver_signal_def on_adapter_def signals_def split: if_splits list.splits prod.splits)
    with keep cb sig show ?thesis by simp
  next
    case ClientRead
    with step x have "client_read ?C = Some (Inr (), B)" by simp
    from traced_read [OF t this] show ?thesis .
  next
    case ClientReadFail
    with step have "client_net ReadFailed (?C\<lparr>handler := (handler ?C)\<lparr>base_reading := False\<rparr>\<rparr>) = Some (x, B)"
      by (auto simp: client_read_failed_def split: if_splits)
    from net_signals [OF this] keep cb sig show ?thesis by (simp add: signals_def)
  qed (use step net_signals keep cb sig in auto)
qed

lemma traced_step:
  assumes t: "traced Q sid s" and inv: "conversation_inv sid s" and step: "conversation_step Q E sid s s'"
  shows "traced Q sid s'"
  using step
proof cases
  case (serve S e r)
  then show ?thesis using traced_serve [OF t inv] by simp
next
  case (act e x A)
  then show ?thesis using traced_act [OF t inv] by simp
next
  case (upload k)
  with t show ?thesis by (simp add: traced_def arriving_def db_of_def session_of_def)
next
  case (download S c k)
  from t obtain D rest where cb: "callbacks (handler (client_side s)) = NetworkBridge Q"
    and sig: "list_all (honest Q (db_of s)) (signals (client_side s))" and D: "arriving sid s D rest"
    by (rule tracedE)
  have "net_inv (net c)"
    using inv download by (auto simp: conversation_inv_def steady_def server_inv_def clients_inv_def)
  note split = take_bytes_split [OF this download(4)]
  have rest: "rest = drop (taken_down s) (concat (accepted (net c)))"
    using D download by (simp add: arriving_def session_of_def)
  have "arriving sid s' D (drop (taken_down s + k) (concat (accepted (net c))))"
    using D [unfolded rest] download split by (simp add: arriving_def session_of_def db_of_def)
  with cb sig download show ?thesis unfolding traced_def by (auto simp: db_of_def)
next
  case (reach_server S k)
  with t show ?thesis
    by (auto simp: traced_def arriving_def db_of_def session_of_def arrive_def)
next
  case (reach_client k)
  from t obtain D rest where cb: "callbacks (handler (client_side s)) = NetworkBridge Q"
    and sig: "list_all (honest Q (db_of s)) (signals (client_side s))" and D: "arriving sid s D rest"
    by (rule tracedE)
  from D have "feeds (base_reader (handler (client_side s))) (take k (down s) @ drop k (down s) @ rest) D"
    by (simp add: arriving_def flip: append_assoc)
  from feeds_arrive [OF this] D reach_client have "arriving sid s' D rest"
    by (simp add: arriving_def session_of_def db_of_def client_arrive_def)
  with cb sig reach_client show ?thesis
    unfolding traced_def by (auto simp: db_of_def client_arrive_def signals_def)
qed

lemma conversing_traced:
  assumes "store_inv s0" and "conversing Q E s0 fs qfs sid s"
  shows "traced Q sid s"
  using assms(2)
proof induction
  case (connect S)
  then show ?case by (intro traced_connect)
next
  case (progress s t)
  then show ?case using traced_step conversing_inv [OF assms(1)] by blast
qed

end
