(* ===== verification/Confidentiality.thy ===== *)
theory Confidentiality
  imports MessageOrigin
begin

text \<open>
  Who is told what: a history of the authentications of every session, and the invariant that ties
  the registry and every packet of the server to it.
\<close>

section \<open>Runs with a history\<close>

text \<open>\<open>H\<close> has the sessions with the logins as which they have authenticated so far.\<close>

inductive recorded :: "env \<Rightarrow> store \<Rightarrow> files \<Rightarrow> server \<Rightarrow> (nat \<times> string) set \<Rightarrow> bool"
  for E :: env and s0 :: store and fs :: files where
  started: "main_init E (Server s0 fs) = (Inr (), S) \<Longrightarrow> recorded E s0 fs S {}"
| handled: "recorded E s0 fs S H \<Longrightarrow> server_step E e S = Some (Inr (), S') \<Longrightarrow>
    recorded E s0 fs S' (H \<union> proves E e S)"

text \<open>The history records the runs of the server and restricts none.\<close>

lemma recorded_reachable: "recorded E s0 fs S H \<Longrightarrow> reachable E s0 fs (Running S)"
proof (induction rule: recorded.induct)
  case (started S)
  with reachable.start [of E s0 fs] show ?case by (simp add: outcome_def)
next
  case (handled S H e S')
  from reachable.step [OF handled.IH process_step.handler [OF handled.hyps(2)]] show ?case
    by (simp add: outcome_def)
qed

lemma outcome_running: "outcome r = Running S \<longleftrightarrow> r = (Inr (), S)"
  by (cases r; cases "fst r") (auto simp: outcome_def)

lemma reachable_recorded: "reachable E s0 fs p \<Longrightarrow> p = Running S \<Longrightarrow> \<exists>H. recorded E s0 fs S H"
proof (induction arbitrary: S rule: reachable.induct)
  case start
  then have "main_init E (Server s0 fs) = (Inr (), S)" by (simp add: outcome_running)
  from recorded.started [OF this] show ?case by blast
next
  case (step p q)
  from step.hyps(2) obtain e S1 r where "p = Running S1" "server_step E e S1 = Some r" "q = outcome r"
    by (rule process_stepE)
  moreover from this step.IH obtain H where "recorded E s0 fs S1 H" by blast
  moreover have "r = (Inr (), S)" using calculation(3) step.prems outcome_running [of r S] by simp
  ultimately show ?case using recorded.handled [of E s0 fs S1 H e S] by blast
qed

section \<open>The invariant\<close>

definition authenticated_as :: "(nat \<times> string) set \<Rightarrow> nat \<Rightarrow> string set" where
  "authenticated_as H sid = {l. (sid, l) \<in> H}"

lemma genuine_weaken: "genuine A s b \<Longrightarrow> A \<subseteq> B \<Longrightarrow> genuine B s b"
  unfolding genuine_def by blast

lemma backed_weaken:
  assumes "backed A sid n0 S" and "A \<subseteq> B"
  shows "backed B sid n0 S"
proof -
  have "trusted A s p \<Longrightarrow> trusted B s p" for s p
    using assms(2) genuine_weaken by (fastforce simp: trusted_def)
  with assms show ?thesis by (fastforce simp: backed_def list_all_iff)
qed

lemma main_init_backed: "backed A sid [] (snd (main_init E (Server s0 fs)))"
proof -
  have "backed A sid [] (Server s0 fs)" by (simp add: backed_def Server_def)
  moreover have "preserves (backed A sid []) (main_init E)"
    unfolding main_init_def schedule_def
    by (intro preserves_intros preserves_modify) (simp add: backed_def)
  ultimately show ?thesis by (rule preservesD [rotated])
qed

lemma recorded_backed:
  assumes "store_inv s0" and "recorded E s0 fs S H"
  shows "backed (authenticated_as H sid) sid [] S"
  using assms(2)
proof (induction rule: recorded.induct)
  case (started S)
  with main_init_backed [of "authenticated_as {} sid" sid E s0 fs] show ?case by simp
next
  case (handled S H e S')
  have "server_inv S" using reachable_inv [OF assms(1) recorded_reachable [OF handled.hyps(1)]] by simp
  moreover have "backed (authenticated_as (H \<union> proves E e S) sid) sid [] S"
    by (rule backed_weaken [OF handled.IH]) (auto simp: authenticated_as_def)
  ultimately show ?case
    by (rule server_step_backed) (use handled.hyps(2) in \<open>auto simp: authenticated_as_def\<close>)
qed

text \<open>A run with a history from a run.\<close>

lemma run_recorded:
  "run E es S = Some (Running S') \<Longrightarrow> recorded E s0 fs S H \<Longrightarrow> \<exists>H'. recorded E s0 fs S' H'"
proof (induction es arbitrary: S H)
  case (Cons e es)
  then obtain S1 where "server_step E e S = Some (Inr (), S1)" "run E es S1 = Some (Running S')"
    by (auto split: option.splits prod.splits sum.splits if_splits)
  with Cons.IH recorded.handled [OF Cons.prems(2)] show ?case by blast
qed auto

end
