(* ===== verification/MailDemo.thy ===== *)
theory MailDemo
  imports ClientDemo ConversationOrigin Confidentiality
begin

text \<open>
  A second run of the demonstration, through a message: Bob's client starts with a saved token,
  and the server delivers what Alice wrote to him before.
\<close>

definition bob_files :: qfiles where
  "bob_files = [filePath demo_qt \<mapsto> map byte_of_char ''tb'']"

definition bob_asks :: bytes where
  "bob_asks = TokenVerifyRequest_serialize \<lparr>tvreq_old_token = ''tb''\<rparr>"

definition bob_mail :: bytes where
  "bob_mail = DirectMessageIncoming_serialize
     \<lparr>dmin_sender_login = ''alice'', dmin_message = ''hi'', dmin_timestamp = 950\<rparr>"

lemma bob_lengths [simp]: "length bob_asks = 6" "length bob_mail = 23"
  "length (TokenVerifyResponse_serialize \<lparr>tvres_error = OK\<rparr>) = 4"
  by (simp_all add: bob_asks_def bob_mail_def TokenVerifyRequest_serialize_def
      DirectMessageIncoming_serialize_def TokenVerifyResponse_serialize_def ser_error_def serialize_def ser_pair.simps ser_i64_def pack_i64_def
      ser_string_def pack_def pack_ui32_def net_bytes_def stringToBytes_def upt_conv_Cons)

lemma bob_parse:
  "TokenVerifyRequest_deserialize bob_asks = Inr \<lparr>tvreq_old_token = ''tb''\<rparr>"
  "DirectMessageIncoming_deserialize bob_mail = Inr
     \<lparr>dmin_sender_login = ''alice'', dmin_message = ''hi'', dmin_timestamp = 950\<rparr>"
  using TokenVerifyRequest_roundtrip [of "\<lparr>tvreq_old_token = ''tb''\<rparr>" "[]"]
    DirectMessageIncoming_roundtrip [of
      "\<lparr>dmin_sender_login = ''alice'', dmin_message = ''hi'', dmin_timestamp = 950\<rparr>" "[]"]
  by (simp_all add: bob_asks_def bob_mail_def TokenVerifyRequest_wf_def DirectMessageIncoming_wf_def
      wf_string_def fits32_def)

text \<open>The server delivers the message and answers.\<close>

definition demo_db :: store where
  "demo_db = database demo_started"

lemma demo_db_facts:
  "demo_db = demo_store\<lparr>clock_pos := 1, sessions := take 2 (sessions demo_store)\<rparr>"
  by (simp add: demo_db_def demo_started_def main_init_def schedule_def on_db_def cleaner_run prog_simps
      Server_def TOKEN_TTL_def demo_store_def)

lemma bob_facts:
  "token_login demo_env demo_db ''tb'' = Some ''bob''" "id_of_login demo_db ''bob'' = Some 2"
  "undelivered_rows 2 demo_db = direct_messages demo_store" "store_inv demo_db"
  "login_of_id demo_db 1 = Some ''alice''"
proof -
  show "store_inv demo_db"
    using server_inv_main_init [OF demo_inv, of demo_env Map.empty]
    by (simp add: demo_db_def demo_started_def server_inv_def)
  show "token_login demo_env demo_db ''tb'' = Some ''bob''"
    by (simp add: demo_db_facts token_login_def session_by_token_def demo_store_def TOKEN_TTL_def
        login_of_id_def user_by_id_def getText_def c_str_def)
  show "id_of_login demo_db ''bob'' = Some 2"
    by (simp add: demo_db_facts id_of_login_def user_by_login_def)
  show "undelivered_rows 2 demo_db = direct_messages demo_store"
    by (simp add: demo_db_facts undelivered_rows_def demo_store_def)
  show "login_of_id demo_db 1 = Some ''alice''"
    by (simp add: demo_db_facts login_of_id_def user_by_id_def getText_def c_str_def)
qed

lemma bob_run:
  assumes "clients S 0 \<noteq> None" and db: "database S = demo_db"
  shows "handle_packet demo_env 0 TOKEN_VERIFY bob_asks S =
    (Inr (), answered 0 TOKEN_VERIFY (error_reply TOKEN_VERIFY OK) (addUser ''bob'' 0
      ((send_to 0 DIRECT_MESSAGE bob_mail (entered 0 ''bob''
         (tokened 0 ''tb'' (note_error 0 OK (tick (cleared 0 S))))))
       \<lparr>database := marked [1] (database (tick S))\<rparr>)))"
proof -
  let ?S1 = "tokened 0 ''tb'' (note_error 0 OK (tick (cleared 0 S)))"
  have d: "dispatch demo_env 0 TOKEN_VERIFY bob_asks (cleared 0 S) =
      (Inr (error_reply TOKEN_VERIFY OK, ''bob'', True), ?S1)"
    using dispatch_token_verify [OF bob_parse(1), of demo_env "cleared 0 S" "''bob''" 0] bob_facts db by simp
  have "handle_packet demo_env 0 TOKEN_VERIFY bob_asks S =
      (Inr (), authenticated 0 TOKEN_VERIFY ''bob'' 2 (error_reply TOKEN_VERIFY OK) ?S1)"
    by (rule handle_packet_auth [OF d])
      (use assms bob_facts error_reply_nonempty [of TOKEN_VERIFY OK] in \<open>simp_all add: demo_store_def\<close>)
  moreover have "incoming_of demo_db r = bob_mail" if "r \<in> set (direct_messages demo_store)" for r
    using that bob_facts by (simp add: demo_store_def incoming_of_def bob_mail_def getText_def c_str_def)
  ultimately show ?thesis using bob_facts db
    by (simp add: authenticated_def Let_def send_dms_def demo_store_def incoming_of_def)
qed

text \<open>From the start of Bob's client to the signal.\<close>

definition bob_session :: "messenger_event list" where
  "bob_session = [Join bob_files, ClientEvent 0 (Act (Command CheckSavedToken)),
     ClientEvent 0 (Act ThreadStep), ClientEvent 0 (Act ThreadStep), ClientEvent 0 (Act ClientRunPost),
     ClientEvent 0 (Upload 14), ClientEvent 0 (ReachServer 14), ServerEvent (ReadComplete 0),
     ServerEvent (ReadComplete 0), ServerEvent (RunPost 0), ClientEvent 0 (Download 31),
     ClientEvent 0 (ReachClient 31), ClientEvent 0 (Act ClientRead), ClientEvent 0 (Act ClientRead),
     ClientEvent 0 (Act Signal)]"

lemma bob_reads: "load demo_qt bob_files = qascii ''tb''"
  by (simp add: load_def bob_files_def qascii_def ucast_chars)

lemma bob_command:
  "run_command demo_qt demo_env CheckSavedToken (ClientHandlerQml bob_files) =
     (Inr (), (ClientHandlerQml bob_files)\<lparr>thread_steps := send_request TOKEN_VERIFY bob_asks\<rparr>)"
proof -
  have "toStdString demo_qt (qascii ''tb'') = ''tb''"
    by (rule token_conversions(3) [OF demo_qt_contract]) (simp add: graphic_def)
  moreover have "checkSavedToken demo_qt (ClientHandlerQml bob_files) = (Inr True, (ClientHandlerQml bob_files)
      \<lparr>thread_steps := thread_steps (ClientHandlerQml bob_files) @ send_request TOKEN_VERIFY
        (TokenVerifyRequest_serialize \<lparr>tvreq_old_token = toStdString demo_qt (qascii ''tb'')\<rparr>)\<rparr>)"
    by (rule check_saved_run) (simp_all add: ClientHandlerQml_def bob_reads, simp add: qascii_def)
  ultimately show ?thesis
    unfolding bob_asks_def by (simp only: run_command.simps) (simp add: prog_simps ClientHandlerQml_def)
qed

lemma bob_starts: "accept_handler False demo_started = (Inr (), demo_accepted)"
  by (simp add: demo_accepted_def accept_handler_def prog_simps)

lemma demo_db_accepted [simp]: "database demo_accepted = demo_db"
  by (simp add: demo_db_def demo_accepted_def accept_handler_def prog_simps)

lemma bob_idle: "thread_steps (ClientHandlerQml fs) = []"
  by (simp add: ClientHandlerQml_def)

lemmas bob_steps = connected_pair_def client_main_def on_adapter_def bob_starts bob_command
  send_request_def thread_handler_def client_net_def run_posted_def new_net_def do_write_def headers_fit_def
  accepted_def fits32_def send_packet_def client_net_of_def handed_def take_bytes_def Let_def
  start_reader_def arrive_def read_complete_def new_client_def read_step_def
  parse_header_and_read_body_def all_fit_def session_fits_def side_def server_state_def outcome_def
  read_handler_def bob_run net_handler_def client_arrive_def client_read_def on_handler_def
  set_reader_def send_to_def deliver_signal_def entered_def tokened_def note_error_def cleared_def
  bob_idle bob_parse handle_packet_async_def handle_switch_def invoke_def push_line_def NetworkBridge_def
  invokeMethod_def

lemma bob_session_run:
  "\<exists>W c. messenger_run demo_qt demo_env bob_session demo_alone = Some W \<and> sides W 0 = Some c \<and>
     shown (client_side c) = [directMessageReceived (qascii ''alice'') (qascii ''hi'') 950]"
  by (simp add: bob_session_def demo_alone_def bob_steps prog_simps del: run_command.simps)

text \<open>The same request at the server alone, with the history of authentications.\<close>

definition bob_served :: "event list" where
  "bob_served = [Accept False, Arrive 0 (full_packet TOKEN_VERIFY bob_asks), ReadComplete 0, ReadComplete 0]"

lemma user_added: "(l, x) \<in> set (online_users (addUser l x S))"
proof -
  have "(l, x) \<in> set (AList.update l x us)" for us by (induction us) auto
  then show ?thesis by (simp add: addUser_def)
qed

lemma bob_served_run:
  "\<exists>S c. run demo_env bob_served demo_started = Some (Running S) \<and> clients S 0 = Some c \<and> (''bob'', 0) \<in> set (online_users S) \<and>
     accepted (net c) = frames [(DIRECT_MESSAGE, bob_mail),
       (RESULT, TokenVerifyResponse_serialize \<lparr>tvres_error = OK\<rparr>)]"
  by (simp add: bob_served_def bob_steps prog_simps user_added del: run_command.simps)

lemma bob_recorded:
  "\<exists>S H c. recorded demo_env demo_store Map.empty S H \<and> clients S 0 = Some c \<and> (''bob'', 0) \<in> set (online_users S) \<and>
     accepted (net c) = frames [(DIRECT_MESSAGE, bob_mail),
       (RESULT, TokenVerifyResponse_serialize \<lparr>tvres_error = OK\<rparr>)]"
proof -
  have "main_init demo_env (Server demo_store Map.empty) = (Inr (), demo_started)"
    by (simp add: demo_started_def main_init_def schedule_def on_db_def cleaner_run prog_simps)
  from recorded.started [OF this] bob_served_run run_recorded show ?thesis by blast
qed

text \<open>Bob's client alone, from the start of the program to its end, with the answer to the token.\<close>

definition bob_program :: "main_event list" where
  "bob_program = map Happens [Command CheckSavedToken, ThreadStep, ThreadStep, ClientRunPost] @
     BytesArrive (full_packet RESULT (TokenVerifyResponse_serialize \<lparr>tvres_error = OK\<rparr>)) #
     map Happens [ClientRead, ClientRead, Signal]"

lemma bob_verified:
  "TokenVerifyResponse_deserialize (TokenVerifyResponse_serialize \<lparr>tvres_error = OK\<rparr>) =
     Inr \<lparr>tvres_error = OK\<rparr>"
  using TokenVerifyResponse_roundtrip [of "\<lparr>tvres_error = OK\<rparr>" "[]"]
  by simp

lemma bob_loads: "storage (ClientHandlerQml fs) = fs" "load demo_qt bob_files = qascii ''tb''"
  by (simp_all add: ClientHandlerQml_def bob_reads)

lemma bob_program_run:
  "\<exists>B. client_exec demo_qt demo_env 0 bob_program (client_main demo_qt bob_files) = Some (Returned 0, B) \<and>
     token (adapter B) = ''tb''"
proof -
  have "toStdString demo_qt (qascii ''tb'') = ''tb''"
    by (rule token_conversions(3) [OF demo_qt_contract]) (simp add: graphic_def)
  then show ?thesis
    by (simp add: bob_program_def bob_steps bob_verified prog_simps setToken_run bob_loads
        del: run_command.simps demo_qt_sel(2))
qed

end
