(* ===== verification/ClientProperties.thy ===== *)
theory ClientProperties
  imports MailDemo
begin

text \<open>
  The properties of the client, and of the client and the server together.
\<close>

section \<open>The conversation\<close>

text \<open>C2: Whatever the order in which the threads of the client, the connection and the server take
  their steps, and whatever other sessions do: the answer that the client reads belongs to the
  request at the front of its queue of pending requests. There is such a request, and the body
  is the response message that the client will parse for it.\<close>

theorem answers_meet_their_requests:
  assumes "store_inv s0" and "conversing Q E s0 fs qfs sid s"
    and "read_step (base_reader (handler (client_side s))) = Some (Some (RESULT, b), r)"
  shows "\<exists>t rest. pending_of s = t # rest \<and> answers t b"
  using conversing_inv [OF assms(1,2)] assms(3) by (rule next_answer)

theorem answers_meet_their_requests_witness:
  "\<exists>s. conversing demo_qt demo_env demo_store Map.empty Map.empty 0 s \<and>
     read_step (base_reader (handler (client_side s))) = Some (Some (RESULT, demo_reply), start_reader) \<and>
     (\<exists>t rest. pending_of s = t # rest \<and> answers t demo_reply)"
proof -
  obtain s where run: "link_run demo_qt demo_env 0 demo_talk
      (connected_pair demo_qt Map.empty demo_accepted) = Some s"
    and rd: "read_step (base_reader (handler (client_side s))) = Some (Some (RESULT, demo_reply), start_reader)"
    using demo_talk_run by blast
  note c = demo_conversing [OF run]
  from answers_meet_their_requests [OF demo_inv c rd] c rd show ?thesis by blast
qed

text \<open>C3: No packet that the server sends ends the client: in a conversation no completion handler
  of the client throws or runs into undefined behaviour, so the client's process never faults.\<close>

theorem server_packets_never_fault_the_client:
  assumes "store_inv s0" and "conversing Q E s0 fs qfs sid s"
  shows "client_fault s = None \<and>
    (client_step Q E e (client_side s) = Some (x, B) \<and> headers_fit (base_net (handler B)) \<longrightarrow> x = Inr ())"
proof -
  note inv = conversing_inv [OF assms]
  then have "client_fault s = None" by (simp add: conversation_inv_def steady_def)
  with act_keeps [OF inv, of Q E e x B] show ?thesis by blast
qed

theorem server_packets_never_fault_the_client_witness:
  "\<exists>s B. conversing demo_qt demo_env demo_store Map.empty Map.empty 0 s \<and> client_fault s = None \<and>
     read_step (base_reader (handler (client_side s))) = Some (Some (RESULT, demo_reply), start_reader) \<and>
     client_step demo_qt demo_env ClientRead (client_side s) = Some (Inr (), B)"
proof -
  obtain s x B where run: "link_run demo_qt demo_env 0 demo_talk
      (connected_pair demo_qt Map.empty demo_accepted) = Some s"
    and rd: "read_step (base_reader (handler (client_side s))) = Some (Some (RESULT, demo_reply), start_reader)"
    and step: "client_step demo_qt demo_env ClientRead (client_side s) = Some (x, B)"
      "headers_fit (base_net (handler B))"
    using demo_talk_run by blast
  note c = demo_conversing [OF run]
  from server_packets_never_fault_the_client [OF demo_inv c, of ClientRead x B] step c rd
  show ?thesis by blast
qed

text \<open>No request is lost while the session lives: once everything that was sent has been read
  and nothing is on the way, every request of the client has been answered.\<close>

theorem every_request_gets_its_answer:
  assumes "store_inv s0" and "conversing Q E s0 fs qfs sid s" and "at_rest sid s"
  shows "pending_of s = []"
  using conversing_inv [OF assms(1,2)] assms(3) by (rule at_rest_answered)

theorem every_request_gets_its_answer_witness:
  "\<exists>s. at_rest 0 s \<and> shown (client_side s) = [chatListReceived []] \<and> pending_of s = []"
proof -
  obtain s where run: "link_run demo_qt demo_env 0 demo_end
      (connected_pair demo_qt Map.empty demo_accepted) = Some s"
    and rest: "at_rest 0 s" "shown (client_side s) = [chatListReceived []]"
    using demo_end_run by blast
  from every_request_gets_its_answer [OF demo_inv demo_conversing [OF run] rest(1)] rest
  show ?thesis by blast
qed

text \<open>C5: The whole system comes to rest: however many clients there are, when no new command is given,
  no client joins and the timer does not fire, the threads of the clients, the connections and the
  server can go on for finitely many steps only, whatever their order and whatever fails.\<close>

theorem system_comes_to_rest:
  assumes "store_inv s0" and "messenger_reachable Q E s0 fs (f 0)"
  shows "\<exists>n. \<forall>e. calm e (f n) \<longrightarrow> messenger_do Q E e (f n) \<noteq> Some (f (Suc n))"
  using calm_run_ends [where f = f, OF assms] unfolding calm_step_def by blast

theorem system_comes_to_rest_witness:
  "\<exists>W. messenger_run demo_qt demo_env demo_settled demo_alone = Some W \<and>
     (\<exists>n :: nat. \<not> calm_step demo_qt demo_env (if n = 0 then demo_alone else W) W)"
proof -
  obtain W where W: "messenger_run demo_qt demo_env demo_settled demo_alone = Some W"
    using demo_settled_run by blast
  let ?f = "\<lambda>n :: nat. if n = 0 then demo_alone else W"
  have "messenger_reachable demo_qt demo_env demo_store Map.empty (?f 0)"
    using demo_alone_reachable by simp
  from system_comes_to_rest [where f = ?f, OF demo_inv this] obtain n where
    "\<forall>e. calm e (?f n) \<longrightarrow> messenger_do demo_qt demo_env e (?f n) \<noteq> Some (?f (Suc n))" by blast
  then have "\<not> calm_step demo_qt demo_env (?f n) W" unfolding calm_step_def by simp
  with W show ?thesis by blast
qed

text \<open>C6: A system that has come to rest has done its work: when nothing can happen any more without a
  new command, a client, the timer or a failure, then at every client whose session is intact all
  commands are done, every request has its answer and every signal has been shown.\<close>

theorem settled_system_has_answered:
  assumes "store_inv s0" and "messenger_reachable Q E s0 fs W" and "settled Q E W"
    and "sides W i = Some c" and "server_process W = Running S" and "clients S i = Some k"
    and "reading k" and "sock_open (net k)"
    and "base_reading (handler (client_side c))" and "sock_open (base_net (handler (client_side c)))"
  shows "pending_of c = [] \<and> thread_steps (adapter (client_side c)) = [] \<and>
    world (handler (client_side c)) = []"
proof -
  note rest = settled_at_rest [OF assms]
  from messenger_refines [OF assms(2)] assms(4) obtain qfs
    where "conversing Q E s0 fs qfs i (side W c)" by (rule refinesE)
  from at_rest_answered [OF conversing_inv [OF assms(1) this] rest] have "pending_of c = []"
    by (simp add: pending_of_def)
  moreover have "thread_steps (adapter (client_side c)) = []"
    using rest by (simp add: at_rest_def steps_of_def)
  ultimately show ?thesis using settled_idle [OF assms(3,4)] by simp
qed

theorem settled_system_has_answered_witness:
  "\<exists>W c. messenger_run demo_qt demo_env demo_settled demo_alone = Some W \<and> sides W 0 = Some c \<and>
     shown (client_side c) = [chatListReceived []] \<and> pending_of c = []"
proof -
  obtain W c S k where run: "messenger_run demo_qt demo_env demo_settled demo_alone = Some W"
    and c: "dom (sides W) = {0}" "sides W 0 = Some c" and S: "server_process W = Running S"
    and k: "\<forall>j. clients S j \<noteq> None \<longrightarrow> j = 0" "clients S 0 = Some k" and parts: "settled_parts c k"
    and live: "reading k" "sock_open (net k)" "base_reading (handler (client_side c))"
      "sock_open (base_net (handler (client_side c)))"
    and shown: "shown (client_side c) = [chatListReceived []]"
    using demo_settled_run by (elim exE conjE) (rule that)
  note reach = messenger_run_sound [OF run demo_alone_reachable]
  from settled_system_has_answered [OF demo_inv reach settled_alone [OF c S k parts] c(2) S k(2) live]
  show ?thesis using run c(2) shown by blast
qed

text \<open>C4: Clients do not disturb each other: however many clients use the server at the same time, the
  system seen from any one of them is a conversation of this client with the server alone, as if
  there were only foreign sessions. Its process has not faulted and the answer it reads next
  belongs to its own oldest request.\<close>

theorem clients_do_not_interfere:
  assumes "store_inv s0" and "messenger_reachable Q E s0 fs W" and "sides W i = Some c"
  shows "(\<exists>qfs. conversing Q E s0 fs qfs i (side W c)) \<and> client_fault c = None \<and>
    (\<forall>b r. read_step (base_reader (handler (client_side c))) = Some (Some (RESULT, b), r) \<longrightarrow>
       (\<exists>t rest. pending_of c = t # rest \<and> answers t b))"
proof -
  from messenger_refines [OF assms(2)] assms(3) obtain qfs
    where c: "conversing Q E s0 fs qfs i (side W c)" by (rule refinesE)
  note inv = conversing_inv [OF assms(1) c]
  then have "client_fault c = None" by (simp add: conversation_inv_def steady_def side_def)
  moreover have "\<exists>t rest. pending_of c = t # rest \<and> answers t b"
    if "read_step (base_reader (handler (client_side c))) = Some (Some (RESULT, b), r)" for b r
    using next_answer [OF inv, of b r] that by (simp add: side_def pending_of_def steps_of_def)
  ultimately show ?thesis using c by blast
qed

theorem clients_do_not_interfere_witness:
  "\<exists>W c d qfs. sides W 0 = Some c \<and> sides W 1 = Some d \<and> pending_of d = [CHAT_LIST] \<and>
     conversing demo_qt demo_env demo_store Map.empty qfs 0 (side W c) \<and>
     (\<exists>t rest. pending_of c = t # rest \<and> answers t demo_reply)"
proof -
  obtain W c d where run: "messenger_run demo_qt demo_env demo_party demo_alone = Some W"
    and c: "sides W 0 = Some c" and d: "sides W 1 = Some d" "pending_of d = [CHAT_LIST]"
    and rd: "read_step (base_reader (handler (client_side c))) = Some (Some (RESULT, demo_reply), start_reader)"
    using demo_party_run by blast
  note reach = messenger_run_sound [OF run demo_alone_reachable]
  from clients_do_not_interfere [OF demo_inv reach c] rd c d show ?thesis by blast
qed

text \<open>C7: No message is forged on the way: every direct message that any client has shown as received
  (the signal \<^verbatim>\<open>directMessageReceived\<close>, for a message that the server pushed) is a message that is
  stored in the server's database, under the login of the user who wrote it and with its text
  (cut at a zero byte where it was read back from the database). What the other clients, the
  connections and the clock do makes no difference. The entries of a history, the previews of the
  chat list and the signal \<^verbatim>\<open>messageSent\<close> for the own messages are not covered.\<close>

theorem no_message_is_forged:
  assumes "store_inv s0" and "messenger_reachable Q E s0 fs W" and "sides W i = Some c"
    and "directMessageReceived author shown_text time \<in> set (shown (client_side c))"
  shows "\<exists>r l m. r \<in> set (direct_messages (database (server_state (server_process W)))) \<and>
    login_of_id (database (server_state (server_process W))) (m_sender r) = Some l \<and>
    m \<in> {m_message r, getText (m_message r)} \<and>
    author = fromStdString Q l \<and> shown_text = fromStdString Q m"
proof -
  from messenger_refines [OF assms(2)] assms(3) obtain qfs
    where "conversing Q E s0 fs qfs i (side W c)" by (rule refinesE)
  from conversing_traced [OF assms(1) this] assms(4)
  have "honest Q (db_of (side W c)) (directMessageReceived author shown_text time)"
    by (auto simp: traced_def signals_def list_all_iff side_def)
  moreover have "db_of (side W c) = database (server_state (server_process W))"
    by (simp add: db_of_def side_def server_state_def split: process.split)
  ultimately show ?thesis
    by (fastforce simp: honest_def attributed_def posted_to_def)
qed

theorem no_message_is_forged_witness:
  "\<exists>(W::messenger) c r l. sides W 0 = Some c \<and>
     shown (client_side c) = [directMessageReceived (qascii ''alice'') (qascii ''hi'') 950] \<and>
     r \<in> set (direct_messages (database (server_state (server_process W)))) \<and>
     login_of_id (database (server_state (server_process W))) (m_sender r) = Some l \<and>
     qascii ''alice'' = fromStdString demo_qt l"
proof -
  obtain W c where run: "messenger_run demo_qt demo_env bob_session demo_alone = Some W"
    and c: "sides W 0 = Some c"
    and shown: "shown (client_side c) = [directMessageReceived (qascii ''alice'') (qascii ''hi'') 950]"
    using bob_session_run by blast
  note reach = messenger_run_sound [OF run demo_alone_reachable]
  have "directMessageReceived (qascii ''alice'') (qascii ''hi'') 950 \<in> set (shown (client_side c))"
    by (simp add: shown)
  from no_message_is_forged [OF demo_inv reach c this] obtain r l where r:
    "r \<in> set (direct_messages (database (server_state (server_process W))))"
    "login_of_id (database (server_state (server_process W))) (m_sender r) = Some l"
    "qascii ''alice'' = fromStdString demo_qt l" by (elim exE conjE) (rule that)
  show ?thesis
    by (intro exI [of _ W] exI [of _ c] exI [of _ r] exI [of _ l] conjI c shown r)
qed

section \<open>The server's half\<close>

text \<open>C15: A request that is served without an exception is answered by exactly one \<^verbatim>\<open>RESULT\<close> packet,
  to the session that asked, whose body is the response message of that request; a packet that
  is no request and a logout get none. Whatever else is sent, to any session, is a chat message,
  a direct message or one of the three notices about friend requests.\<close>

theorem every_request_is_answered_once:
  assumes "handle_packet E this t b S = (Inr u, S')"
  shows "\<exists>reply. (expects_answer t \<longrightarrow> answers t reply) \<and>
    (\<forall>sid. \<exists>pushed. list_all is_note pushed \<and>
       outbox S' sid = outbox S sid @ frames (pushed @
         (if sid = this \<and> clients S sid \<noteq> None \<and> expects_answer t then [(RESULT, reply)] else [])))"
proof -
  from handle_packet_says [OF assms] obtain S1 where g: "\<forall>sid. grown sid (view sid S) S1"
    and S': "if expects_answer t then \<exists>reply. answers t reply \<and> S' = answered this t reply S1
      else S' = S1" by blast
  obtain reply where reply: "expects_answer t \<longrightarrow> answers t reply"
    and S': "S' = (if expects_answer t then answered this t reply S1 else S1)"
    using S' by (cases "expects_answer t") auto
  have S1: "\<exists>pushed. list_all is_note pushed \<and> outbox S1 sid = outbox S sid @ frames pushed \<and>
      (clients S1 sid = None \<longleftrightarrow> clients S sid = None)" for sid
    by (rule grown_outbox [OF spec [OF g]])
  have "\<exists>pushed. list_all is_note pushed \<and>
       outbox S' sid = outbox S sid @ frames (pushed @
         (if sid = this \<and> clients S sid \<noteq> None \<and> expects_answer t then [(RESULT, reply)] else []))" for sid
  proof -
    obtain pushed where p: "list_all is_note pushed"
      "outbox S1 sid = outbox S sid @ frames pushed" "clients S1 sid = None \<longleftrightarrow> clients S sid = None"
      using S1 [of sid] by (elim exE conjE) (rule that)
    show ?thesis unfolding S'
      by (intro exI [of _ pushed] conjI p(1) outbox_after_answer p(2,3))
  qed
  with reply show ?thesis by blast
qed

theorem every_request_is_answered_once_witness:
  "\<exists>S' reply pushed. handle_packet demo_env 0 CHAT_LIST demo_question demo_accepted = (Inr (), S') \<and>
     answers CHAT_LIST reply \<and> list_all is_note pushed \<and>
     outbox S' 0 = frames (pushed @ [(RESULT, reply)])"
proof -
  obtain S' where run: "handle_packet demo_env 0 CHAT_LIST demo_question demo_accepted = (Inr (), S')"
    using demo_question_run ..
  have "outbox demo_accepted 0 = []" by (simp add: outbox_def new_client_def new_net_def)
  moreover obtain reply where reply: "expects_answer CHAT_LIST \<longrightarrow> answers CHAT_LIST reply"
    and all: "\<forall>sid. \<exists>pushed. list_all is_note pushed \<and> outbox S' sid = outbox demo_accepted sid @
      frames (pushed @ (if sid = 0 \<and> clients demo_accepted sid \<noteq> None \<and> expects_answer CHAT_LIST
        then [(RESULT, reply)] else []))"
    using every_request_is_answered_once [OF run] by (elim exE conjE) (rule that)
  ultimately show ?thesis using run reply spec [OF all, of 0] by auto
qed

text \<open>C16: The log tells what the client was told: a request that is served leaves exactly one line of
  the logger, with its type and with the code that the answer carries, and the answer is the last
  packet to the session. A logout leaves none and a packet that is no request one line that says
  that it was lost. All other lines are plain ones about the broadcast of a message.\<close>

theorem every_request_is_logged_with_its_code:
  assumes "clients S this \<noteq> None" and "handle_packet E this t b S = (Inr u, S')"
  shows "\<exists>e printed. console S' = console S @ map Printed printed @
      (if expects_answer t then [LoggedPacket t e ''''] else if t = LOGOUT then []
       else [LoggedPacket t OK lost_text]) \<and>
    (expects_answer t \<longrightarrow> (\<exists>reply sofar. tells t e reply \<and>
       outbox S' this = outbox S this @ sofar @ [full_packet RESULT reply]))"
  using handle_packet_logs [OF assms] unfolding log_entry_def .

theorem every_request_is_logged_with_its_code_witness:
  "\<exists>S' e printed. handle_packet demo_env 0 CHAT_LIST demo_question demo_accepted = (Inr (), S') \<and>
     console S' = console demo_accepted @ map Printed printed @ [LoggedPacket CHAT_LIST e '''']"
proof -
  obtain S' where run: "handle_packet demo_env 0 CHAT_LIST demo_question demo_accepted = (Inr (), S')"
    using demo_question_run ..
  have "clients demo_accepted 0 \<noteq> None" by simp
  from every_request_is_logged_with_its_code [OF this run] run show ?thesis by auto
qed

text \<open>C8: Direct messages are confidential: the history has every session with the logins as which it
  has authenticated, by registering, with the password or with a valid token. In every run each
  direct message that the server sends to a session is a stored one, under the login of its
  author, and its recipient is a login of that session. A session that has not authenticated is
  sent nothing but answers, and the registry has no session under a login that is not its own.\<close>

theorem direct_messages_reach_only_their_recipient:
  assumes "store_inv s0" and "recorded E s0 fs S H" and "clients S sid = Some c"
  shows "(\<forall>l. (l, sid) \<in> set (online_users S) \<longrightarrow> (sid, l) \<in> H) \<and>
    (\<exists>ps. accepted (net c) = frames ps \<and> (\<forall>(t, b) \<in> set ps.
       (t \<noteq> RESULT \<longrightarrow> (\<exists>l. (sid, l) \<in> H)) \<and>
       (t = DIRECT_MESSAGE \<longrightarrow> (\<exists>k r l m time. (sid, k) \<in> H \<and> r \<in> set (direct_messages (database S)) \<and>
          id_of_login (database S) k = Some (m_recipient r) \<and>
          login_of_id (database S) (m_sender r) = Some l \<and> m \<in> {m_message r, getText (m_message r)} \<and>
          b = DirectMessageIncoming_serialize
            \<lparr>dmin_sender_login = l, dmin_message = m, dmin_timestamp = time\<rparr>))))"
proof -
  have B: "backed (authenticated_as H sid) sid [] S" by (rule recorded_backed [OF assms(1,2)])
  then obtain ps where ps: "accepted (net c) = frames ps"
    "list_all (trusted (authenticated_as H sid) (database S)) ps"
    using assms(3) by (auto simp: backed_def)
  moreover have "\<exists>l. (sid, l) \<in> H" if "(t, b) \<in> set ps" "t \<noteq> RESULT" for t b
    using ps(2) that by (auto simp: list_all_iff trusted_def authenticated_as_def)
  moreover have "\<exists>k r l m time. (sid, k) \<in> H \<and> r \<in> set (direct_messages (database S)) \<and>
      id_of_login (database S) k = Some (m_recipient r) \<and>
      login_of_id (database S) (m_sender r) = Some l \<and> m \<in> {m_message r, getText (m_message r)} \<and>
      b = DirectMessageIncoming_serialize \<lparr>dmin_sender_login = l, dmin_message = m, dmin_timestamp = time\<rparr>"
    if "(DIRECT_MESSAGE, b) \<in> set ps" for b
  proof -
    have "genuine (authenticated_as H sid) (database S) b"
      using ps(2) that by (auto simp: list_all_iff trusted_def)
    then show ?thesis unfolding genuine_def posted_to_def authenticated_as_def by blast
  qed
  moreover have "\<forall>l. (l, sid) \<in> set (online_users S) \<longrightarrow> (sid, l) \<in> H"
    using B by (simp add: backed_def authenticated_as_def)
  ultimately show ?thesis by (intro conjI exI [of _ ps]) auto
qed

theorem direct_messages_reach_only_their_recipient_witness:
  "\<exists>S H c ps. recorded demo_env demo_store Map.empty S H \<and> clients S 0 = Some c \<and> (0, ''bob'') \<in> H \<and>
     accepted (net c) = frames ps \<and> ps \<noteq> [] \<and>
     (\<forall>(t, b) \<in> set ps. t = DIRECT_MESSAGE \<longrightarrow> (\<exists>k. (0, k) \<in> H))"
proof -
  obtain S H c where run: "recorded demo_env demo_store Map.empty S H" "clients S 0 = Some c"
    and bob: "(''bob'', 0) \<in> set (online_users S)"
    and out: "accepted (net c) = frames [(DIRECT_MESSAGE, bob_mail),
      (RESULT, TokenVerifyResponse_serialize \<lparr>tvres_error = OK\<rparr>)]"
    using bob_recorded by blast
  from direct_messages_reach_only_their_recipient [OF demo_inv run] bob obtain ps
    where H: "(0, ''bob'') \<in> H" and ps: "accepted (net c) = frames ps"
      and told: "\<forall>(t, b) \<in> set ps. t \<noteq> RESULT \<longrightarrow> (\<exists>l. (0, l) \<in> H)" by fast
  from ps out have "ps \<noteq> []" by auto
  moreover have "\<forall>(t, b) \<in> set ps. t = DIRECT_MESSAGE \<longrightarrow> (\<exists>k. (0, k) \<in> H)"
    using told by fastforce
  ultimately show ?thesis using run H ps by blast
qed

section \<open>The client's half\<close>

text \<open>C19: The client's handler with the callbacks of the bridge is equivalent to a reference that
  turns packets into signals directly: for every sequence of packets the same signals are
  queued in the same order, the same requests keep waiting, the same fault ends it, and of
  the lines the last two hundred are kept.\<close>

theorem client_equals_reference:
  assumes "callbacks H = NetworkBridge Q" and "length (messages H) \<le> 200"
  shows "case reference Q ps (pending_requests H) of
      Inl f \<Rightarrow> fst (handle_all ps H) = Inl f
    | Inr (sigs, waiting) \<Rightarrow>
        handle_all ps H = (Inr (), H\<lparr>pending_requests := waiting, world := world H @ sigs,
          messages := recent (messages H @ replicate (length ps) '''')\<rparr>)"
  using handle_all_reference [OF assms, of ps] unfolding advance_def .

theorem client_equals_reference_witness:
  "handle_all [(FRIEND_NEW_REQUEST, []), (RESULT, demo_reply)]
     ((handler (client_main demo_qt Map.empty))\<lparr>pending_requests := [CHAT_LIST]\<rparr>) =
   (Inr (), (handler (client_main demo_qt Map.empty))\<lparr>
      world := [friendNewRequest, chatListReceived []], messages := ['''', '''']\<rparr>)"
  using client_equals_reference [of "(handler (client_main demo_qt Map.empty))\<lparr>pending_requests := [CHAT_LIST]\<rparr>"
      demo_qt "[(FRIEND_NEW_REQUEST, []), (RESULT, demo_reply)]"]
  by (simp add: client_main_def recent_def numeral_2_eq_2)

text \<open>The client comes to rest: without new commands and new bytes its two threads can take only
  as many steps as the work in hand allows, in whatever order: steps of the running command,
  posted closures, writes, failures, packets to read and signals to show.\<close>

theorem client_comes_to_rest:
  assumes "callbacks (handler A) = NetworkBridge Q" and "length (messages (handler A)) \<le> 200"
    and "client_run Q E es A = Some B" and "list_all (\<lambda>e. \<not> is_command e) es"
  shows "length es + work B \<le> work A"
  using client_run_work [OF _ assms(3,4)] assms(1,2) by (simp add: client_ok_def)

theorem client_comes_to_rest_witness:
  "\<exists>A B. client_run demo_qt demo_env [ThreadStep, ThreadStep, ClientRunPost, ClientWriteDone False] A = Some B \<and>
     4 + work B \<le> work A"
proof -
  define A where "A = (client_main demo_qt Map.empty)
    \<lparr>adapter := (ClientHandlerQml Map.empty)\<lparr>thread_steps := send_request CHAT_LIST demo_question\<rparr>\<rparr>"
  let ?es = "[ThreadStep, ThreadStep, ClientRunPost, ClientWriteDone False]"
  obtain B where run: "client_run demo_qt demo_env ?es A = Some B"
    by (simp add: A_def demo_steps)
  have "callbacks (handler A) = NetworkBridge demo_qt" "length (messages (handler A)) \<le> 200"
    by (simp_all add: A_def client_main_def)
  from client_comes_to_rest [OF this run] have "4 + work B \<le> work A" by simp
  with run show ?thesis by blast
qed

text \<open>C21: A login survives a restart of the client and ends with a logout: when a login has been
  answered with a token, the token is kept and saved, and a client started later with the same
  files sends exactly this token to be verified, in a request that the server reads back. After
  a logout a client that is started has no token to send.\<close>

theorem saved_token_survives_a_restart:
  assumes "storage_ready Q" and "graphic t" and "t \<noteq> ''''" and "wf_string t"
    and "world (handler A) = authResult (fromStdString Q t) (code_value OK) # queue"
    and "handler_alive (adapter A)"
  shows "\<exists>B body. deliver_signal Q A = Some (Inr (), B) \<and> token (adapter B) = t \<and>
    checkSavedToken Q (ClientHandlerQml (storage (adapter B))) =
      (Inr True, (ClientHandlerQml (storage (adapter B)))
         \<lparr>thread_steps := send_request TOKEN_VERIFY body\<rparr>) \<and>
    TokenVerifyRequest_deserialize body = Inr \<lparr>tvreq_old_token = t\<rparr> \<and>
    checkSavedToken Q (ClientHandlerQml (storage (snd (logout_qml Q (adapter B))))) =
      (Inr False, ClientHandlerQml (storage (snd (logout_qml Q (adapter B)))))"
proof -
  have contract: "qt_contract Q" and remove: "may_remove Q (filePath Q)"
    using assms(1) by (simp_all add: storage_ready_def)
  have "ok (ErrorCode (code_value OK))" by simp
  from deliver_auth [OF assms(5) this, of Q] token_conversions [OF contract assms(2)] obtain B
    where B: "deliver_signal Q A = Some (Inr (), B)" "token (adapter B) = t"
      "storage (adapter B) = save Q (fromStdString Q t) (storage (adapter A))"
      "handler_alive (adapter B)" using assms(6) by auto
  let ?a = "ClientHandlerQml (storage (adapter B))"
  have saved: "toStdString Q (load Q (storage ?a)) = t"
    using token_file.get_put [OF assms(1,2)] B by (simp add: ClientHandlerQml_def)
  moreover have "load Q (storage ?a) \<noteq> []"
    using saved assms(3) toStdString_qascii [OF contract, of "[]"] by (auto simp: qascii_def graphic_def)
  moreover have "handler_alive ?a" "thread_steps ?a = []" by (simp_all add: ClientHandlerQml_def)
  ultimately have "checkSavedToken Q ?a = (Inr True, ?a\<lparr>thread_steps :=
      send_request TOKEN_VERIFY (TokenVerifyRequest_serialize \<lparr>tvreq_old_token = t\<rparr>)\<rparr>)"
    using check_saved_run by simp
  moreover have "TokenVerifyRequest_deserialize (TokenVerifyRequest_serialize \<lparr>tvreq_old_token = t\<rparr>) =
      Inr \<lparr>tvreq_old_token = t\<rparr>"
    using TokenVerifyRequest_roundtrip [of "\<lparr>tvreq_old_token = t\<rparr>" "[]"] assms(4)
    by (simp add: TokenVerifyRequest_wf_def)
  moreover have "load Q (storage (snd (logout_qml Q (adapter B)))) = []"
    using load_clear [OF remove] by (simp add: logout_qml_run [OF B(4)])
  ultimately show ?thesis
    using B(1,2) check_saved_none by (auto simp: ClientHandlerQml_def)
qed

theorem saved_token_survives_a_restart_witness:
  "\<exists>B body. deliver_signal demo_qt ((client_main demo_qt Map.empty)
       \<lparr>handler := (handler (client_main demo_qt Map.empty))\<lparr>world := [authResult (qascii ''a1'') 1]\<rparr>\<rparr>) =
       Some (Inr (), B) \<and> token (adapter B) = ''a1'' \<and>
     TokenVerifyRequest_deserialize body = Inr \<lparr>tvreq_old_token = ''a1''\<rparr>"
proof -
  have "storage_ready demo_qt" by (simp add: storage_ready_def demo_qt_contract)
  from saved_token_survives_a_restart [OF this, of "''a1''" "(client_main demo_qt Map.empty)
       \<lparr>handler := (handler (client_main demo_qt Map.empty))\<lparr>world := [authResult (qascii ''a1'') 1]\<rparr>\<rparr>" "[]"]
  show ?thesis
    by (auto simp: graphic_def wf_string_def fits32_def OK_def client_main_def ClientHandlerQml_def)
qed

text \<open>C22: However the client program ends, by its exit code or by an exception, and whatever the
  interface and the server did before: the file of the token holds the token in use, or there is
  none in use and the file is as it was at the start, or gone. The program changes no other file.\<close>

theorem program_leaves_the_token_in_use:
  assumes "open_write Q (filePath Q)" and "may_remove Q (filePath Q)"
    and "client_exec Q E n es (client_main Q fs) = Some (x, B)"
  shows "\<exists>fs'. client_program Q E None False n es fs = Some (x, fs') \<and>
    (fs' (filePath Q) = Some (toUtf8 Q (fromStdString Q (token (adapter B)))) \<or>
     token (adapter B) = '''' \<and> fs' (filePath Q) \<in> {fs (filePath Q), None}) \<and>
    (\<forall>p. p \<noteq> filePath Q \<longrightarrow> fs' p = fs p)"
proof -
  have "kept Q fs (adapter (client_main Q fs))" by (simp add: client_main_def kept_start)
  from kept_exec [OF assms this] show ?thesis
    using assms(3) by (simp add: client_program_def kept_def)
qed

theorem program_leaves_the_token_in_use_witness:
  "\<exists>fs'. client_program demo_qt demo_env None False 0 bob_program bob_files = Some (Returned 0, fs') \<and>
     fs' (filePath demo_qt) = Some (map byte_of_char ''tb'')"
proof -
  obtain B where run: "client_exec demo_qt demo_env 0 bob_program (client_main demo_qt bob_files) =
      Some (Returned 0, B)" and tok: "token (adapter B) = ''tb''"
    using bob_program_run by blast
  have "toUtf8 demo_qt (qascii ''tb'') = map byte_of_char ''tb''"
    using demo_qt_contract by (simp add: qt_contract_def ascii_def)
  with program_leaves_the_token_in_use [OF _ _ run] tok show ?thesis by auto
qed

text \<open>C36: A direct message is shown as sent at once, and nothing that the server answers changes that:
  the answer is taken off the queue, even one that refuses the message, and no signal tells the
  interface.\<close>

theorem refused_message_is_shown_as_sent:
  assumes "handler_alive a" and "pending_requests H = DIRECT_MESSAGE # rest"
  shows "emitted (snd (run_command Q E (SendDirectMessage now l m) a)) =
      emitted a @ [messageSent l m (word_of_int now)] \<and>
    (\<exists>H'. handle_packet_async RESULT (DirectMessageResponse_serialize \<lparr>dmres_error = e\<rparr>) H = (Inr (), H') \<and>
       world H' = world H \<and> pending_requests H' = rest)"
  using assms
  by (simp add: sendDirectMessage_def locked_def emit_def p_send_request_def prog_simps Let_def
      handle_packet_async_def handle_switch_def push_line_def)

theorem refused_message_is_shown_as_sent_witness:
  "emitted (snd (run_command demo_qt demo_env (SendDirectMessage 7 (qascii ''bob'') (qascii ''hi''))
     (ClientHandlerQml Map.empty))) = [messageSent (qascii ''bob'') (qascii ''hi'') 7]"
  using refused_message_is_shown_as_sent [of "ClientHandlerQml Map.empty"
      "(handler (client_main demo_qt Map.empty))\<lparr>pending_requests := [DIRECT_MESSAGE]\<rparr>" "[]"
      demo_qt demo_env 7 "qascii ''bob''" "qascii ''hi''"]
  by (simp add: ClientHandlerQml_def)

section \<open>The log\<close>

text \<open>C40: A line of the packet log can be read back: its columns give the local time and the
  milliseconds of the moment, and its colour is green exactly when the code is \<open>OK\<close>.\<close>

theorem log_line_reads_back:
  assumes "0 \<le> now" and "localtime (to_time_t now) = Some t" and "calendar t"
  shows "\<exists>line. logPacket localtime now type e msg out = (Inr (), out @ line @ [CHR 0x0A]) \<and>
    parse_time (take 23 (drop 6 line)) = (t, milliseconds now) \<and>
    (take 5 line = colour ''32'' \<longleftrightarrow> ok e)"
proof -
  let ?time = "format_time t (milliseconds now)"
  have ms: "0 \<le> milliseconds now" "milliseconds now \<le> 999" using milliseconds_range [OF assms(1)] by auto
  have "take 23 (drop 6 (log_line ?time type e msg)) = ?time"
    using log_line_time length_format [OF assms(3) ms] by blast
  with format_parses [OF assms(3) ms] logPacket_run [of localtime now, OF assms(2)] log_line_colour show ?thesis
    by (intro exI [of _ "log_line ?time type e msg"]) simp
qed

theorem log_line_reads_back_witness:
  "\<exists>line. logPacket (\<lambda>_. Some \<lparr>tm_mday = 9, tm_mon = 11, tm_year = 124, tm_hour = 0, tm_min = 5, tm_sec = 59\<rparr>)
      1733702759007000000 LOGIN OK '''' '''' = (Inr (), line @ [CHR 0x0A]) \<and>
    take 5 line = colour ''32''"
  using log_line_reads_back [of 1733702759007000000
      "\<lambda>_. Some \<lparr>tm_mday = 9, tm_mon = 11, tm_year = 124, tm_hour = 0, tm_min = 5, tm_sec = 59\<rparr>"
      "\<lparr>tm_mday = 9, tm_mon = 11, tm_year = 124, tm_hour = 0, tm_min = 5, tm_sec = 59\<rparr>" LOGIN OK "''''" "''''"]
  by (auto simp: calendar_def)

end
