(* ===== verification/Spec2Isabelle.thy ===== *)
theory Spec2Isabelle
  imports ComponentProperties ClientProperties Effects
begin

text \<open>
  A verification development for practice-messenger, a messenger of a C++ server over
  Boost.Asio, SQLite and OpenSSL and a Qt client. Paths are relative to \<^verbatim>\<open>src/\<close>.

  \<^bold>\<open>The program.\<close> The server (\<^verbatim>\<open>server/main.cpp\<close>) accepts connections and keeps one
  \<^verbatim>\<open>ClientSession\<close> per client (\<^verbatim>\<open>include/client_session.hpp\<close>), which inherits framing and the
  sending queue from \<^verbatim>\<open>NetworkSession\<close> (\<^verbatim>\<open>include/network_session.hpp\<close>). A received packet
  goes to \<^verbatim>\<open>handle_packet\<close>, which parses the body (\<^verbatim>\<open>include/messages.hpp\<close>), works on the
  database through three repositories (\<^verbatim>\<open>include/repositories\<close>), may send packets to other
  sessions through the registry of online users (\<^verbatim>\<open>include/services/session_manager\<close>), and
  answers with one packet of type \<^verbatim>\<open>RESULT\<close>. Uploaded files are encrypted
  (\<^verbatim>\<open>include/crypto.hpp\<close>, \<^verbatim>\<open>include/cast.hpp\<close>). A timer deletes expired tokens
  (\<^verbatim>\<open>include/token_cleaner.hpp\<close>). The client (\<^verbatim>\<open>client/main.cpp\<close>) has the same framing below a
  handler (\<^verbatim>\<open>include/client_async_handler.hpp\<close>) that keeps the types of the requests not answered
  yet and parses each \<^verbatim>\<open>RESULT\<close> as the answer to the oldest. Commands of the interface
  (\<^verbatim>\<open>client/client_handler_qml.hpp\<close>) send requests from one thread; callbacks
  (\<^verbatim>\<open>client/network_bridge.hpp\<close>) queue signals for it from the network thread.

  \<^bold>\<open>The theories\<close>, each importing those it uses:
  \<^item> \<open>Prelude\<close>: bytes and characters, C strings, programs over a state that may fail
    (\<open>('f, 's, 'a) prog\<close> with \<open>ret\<close>, \<open>throw\<close>, \<open>bnd\<close>), the collections \<open>prog_simps\<close> (equations that
    run programs) and \<open>preserves_intros\<close> (rules that show that a program keeps a predicate).
  \<^item> \<open>Codes\<close>: \<^verbatim>\<open>include/codes.hpp\<close>, the faults of the model (exceptions and undefined behaviour)
    and \<^verbatim>\<open>std::expected\<close>.
  \<^item> \<open>Wire\<close>, \<open>Serializer\<close>, \<open>Messages\<close>: \<^verbatim>\<open>include/messages.hpp\<close>. Bytes of a body are read by the
    unchecked accesses of the code (\<open>memcpy_from\<close>, \<open>iterator_range\<close>, \<open>byte_at\<close>), for which a read past
    the end is an outcome, \<open>Undefined\<close>; a reader that is \<open>checked\<close> fails only by an exception of its
    own tests (\<open>bounds_fault\<close>), and the parsers of all requests are (\<open>request_fault\<close>). The locale \<open>codec\<close> is the contract of
    a writer and a reader (reading a written value gives it back), \<open>strict_codec\<close> adds that
    only written values are accepted; both are interpreted on the serialisers of the code, and
    every message struct has its round trip from them.
  \<^item> \<open>Protocol\<close>: \<^verbatim>\<open>include/protocol.hpp\<close>, packet types, frames, blocking transfer.
  \<^item> \<open>Network\<close>: \<^verbatim>\<open>include/network_session.hpp\<close>. The reader is a machine over the bytes received; the
    writer has the closures posted to the executor, \<^verbatim>\<open>write_queue\<close> and the outstanding writes.
  \<^item> \<open>Crypto\<close>: \<^verbatim>\<open>include/crypto.hpp\<close> over the record \<open>env\<close> of everything outside the program:
    clock readings, UUIDs, random blocks, OpenSSL calls, SQLite's limit of parameters, file
    permissions. \<open>sha_contract\<close>, \<open>rand_contract\<close> and \<open>evp_contract\<close> state what the libraries document.
  \<^item> \<open>Store\<close>: \<^verbatim>\<open>include/database.hpp\<close>, the four tables with their constraints, and the invariant
    \<open>store_inv\<close>. The locale \<open>autoincrement\<close> is interpreted on the three tables that number rows.
  \<^item> \<open>UserRepository\<close>, \<open>FriendRepository\<close>, \<open>MessageRepository\<close>: the operations of the repositories,
    the result of each on each branch, and that each keeps \<open>store_inv\<close>. \<open>FriendRepository\<close> has the
    specification of a friendship (\<open>relation\<close>, \<open>request_spec\<close>, \<open>accept_spec\<close>, \<open>reject_spec\<close>) and the
    refinement; \<open>UserRepository\<close> the locale \<open>user_directory\<close>, on logins without zero bytes.
  \<^item> \<open>Files\<close>, \<open>SessionManager\<close>: \<^verbatim>\<open>include/cast.hpp\<close>; the record \<open>server\<close> of the whole process state,
    with the lines written to the console (\<open>console\<close>, of the type \<open>output_line\<close> of \<open>Logger\<close>), and the
    registry, with the locale \<open>registry\<close>.
  \<^item> \<open>ClientSession\<close>: one definition per handler, \<open>dispatch\<close> and \<open>handle_packet\<close>.
  \<^item> \<open>ServerMain\<close>: the process as a machine over events (\<open>server_step\<close>), \<open>process_step\<close> and
    \<open>reachable\<close>. Any order of arrivals, completions, failures and timer events is possible.
  \<^item> \<open>ServerInvariant\<close>, \<open>SessionBehaviour\<close>, \<open>Authentication\<close>, \<open>MessageSafety\<close>: the invariant of the
    process, the behaviour of the handlers branch by branch, and the safety of stored messages.
  \<^item> \<open>Lasting\<close>: the locale \<open>lasting\<close> of the predicates of the database that the operations of the
    repositories keep, and \<open>lasting_always\<close>, with the step of the server. Both are interpreted, in
    \<open>MessageSafety\<close> and in \<open>MessageOrigin\<close>.
  \<^item> \<open>Effects\<close>: what a request of each type can change (\<open>bounded\<close>), on every branch of its handler.
  \<^item> \<open>DefinedBehaviour\<close>: the collection \<open>defined_intros\<close>, with which every handler is shown free of
    undefined behaviour while no stored login holds a zero byte.
  \<^item> \<open>Logger\<close>: \<^verbatim>\<open>include/logger.hpp\<close>, the time stamp and the lines of the log, and a parser of the
    columns (\<open>parse_time\<close>) that gives the time back.
  \<^item> \<open>ClientAsyncHandler\<close>: the client's handler. A callback is an optional function on the world \<open>'w\<close> of
    its closure; \<open>send_request\<close> is two steps (\<open>thread_step\<close>), between which the other thread can run.
  \<^item> \<open>TokenStorage\<close>, \<open>ClientHandlerQml\<close>, \<open>NetworkBridge\<close>, \<open>ClientMain\<close>: \<^verbatim>\<open>client/\<close>. The record \<open>qt\<close> holds what
    the code uses of Qt, with the contract \<open>qt_contract\<close>; the world of the bridge's callbacks is
    the queue of signals; \<open>client_step\<close> is one step of either thread, \<open>client_program\<close> the whole of \<^verbatim>\<open>main\<close>.
  \<^item> \<open>ClientBehaviour\<close>: the handler against a reference without callbacks (\<open>reference\<close>), the measure \<open>work\<close>
    under which the client comes to rest, and the file of the token (\<open>kept\<close>).
  \<^item> \<open>Answers\<close>: what a session of the server sends. \<open>returns\<close> shows that each handler returns the
    response message of its request (\<open>answers\<close>), \<open>grown\<close> that all else it sends is a notification
    (\<open>is_note\<close>). \<open>AnswerDecoding\<close>: the client parses whatever the server serialises in less than 4 GiB.
  \<^item> \<open>Conversation\<close>, \<open>ConversationInvariant\<close>: a client and the server joined by a connection
    (\<open>conversation_step\<close>, \<open>conversing\<close>), and the invariant: the pending requests of the client are
    those whose answers are on the way back, then those that are on the way to the server, then
    the one that the interface's thread has in hand (\<open>flowing\<close>). \<open>feeds\<close> says what a reader will read.
  \<^item> \<open>ManyClients\<close>: any number of such clients at one server (\<open>messenger_step\<close>), and that the whole
    refines the conversation of each of them (\<open>refines\<close>).
  \<^item> \<open>Settling\<close>: without new commands, clients and timer ticks the system comes to rest: the pair of the
    sizes \<open>upward\<close> and \<open>downward\<close> of what is on its way decreases with every event (\<open>calm\<close>). What is
    true when nothing more can happen (\<open>settled\<close>).
  \<^item> \<open>ServerLog\<close>: the line of the logger that a request leaves has the code that its answer carries
    (\<open>coded\<close> follows \<^verbatim>\<open>errorCode\<close> through the handlers, \<open>tells\<close> is the code in an answer).
  \<^item> \<open>Verdicts\<close>: a reference for the codes of the answers (\<open>verdict\<close>), computed from the tables alone, with
    which every handler agrees (\<open>agrees\<close>), and that a refused request changes nothing
    (\<open>untouched\<close>); the login that a request proves (\<open>credential\<close>).
  \<^item> \<open>MessageOrigin\<close>, \<open>Confidentiality\<close>, \<open>ConversationOrigin\<close>: every direct message that a session of the
    server sends is backed by a row of the database whose recipient is one of the logins of the
    session (\<open>backed\<close>); runs with the history of the authentications (\<open>recorded\<close>); every message on
    the way to a client, queued in it or shown by it is backed too (\<open>traced\<close>).
  \<^item> \<open>Demo\<close>, \<open>ClientDemo\<close>, \<open>MailDemo\<close>: a concrete environment, server and conversation for the witnesses.
    \<open>ComponentProperties\<close>, \<open>ClientProperties\<close> and this theory: the properties, \<open>C1\<close> and so on, each with a
    witness where it has hypotheses, and some more theorems about single components.

  \<^bold>\<open>Conventions.\<close> A \<^verbatim>\<open>uint8_t\<close> is an \<open>8 word\<close>, \<^verbatim>\<open>uint32_t\<close> a \<open>32 word\<close>, \<^verbatim>\<open>int64_t\<close> on the wire a
  \<open>64 word\<close>; database integers are \<open>int\<close>, with the bound of a row id tested where one is given
  out. Every throw of the code, and every use that C++ leaves undefined, is a value of \<open>fault\<close>;
  what happened before it stays. One handler of the \<^verbatim>\<open>io_context\<close> runs at a time, as in the
  code, where one thread calls \<^verbatim>\<open>run\<close>, so the mutexes of the server have no effect on the results.
  In the client two threads interleave at the granularity of the locked sections and posts. The
  loops of the code are structural recursions or, in \<open>read_all\<close>, a recursion with a measure; no
  fuel is used. A conversation is followed as long as no packet reaches 4 GiB, which its header
  could not tell (\<open>headers_fit\<close>).

  \<^bold>\<open>Not modelled\<close>: the text of the system for an error of Asio and the line that \<^verbatim>\<open>main\<close> of the server
  prints for the exception that ends it, debug output of the client, the QML engine beyond the
  commands and signals, \<^verbatim>\<open>TokenCleaner::stop\<close>, which is never called, the 482 lines of
  \<^verbatim>\<open>client/main.cpp\<close> that are commented out, running out of memory, and SQLite's journal. In a group
  with several latest messages SQLite may choose any of them for the chat list; the model takes
  the first.

  \<^bold>\<open>Not stated.\<close> The origin of the signals other than direct messages: \<open>every_request_is_answered_once\<close>
  and \<open>answers_follow_the_reference\<close> say what the server sends for each request, and
  \<open>answers_meet_their_requests\<close> that the client takes it for that request.
\<close>

section \<open>The server process\<close>

text \<open>C1: Whatever clients, network and clock do, the server keeps its invariant from start to
  exit: the database satisfies its constraints, only registered users are in the registry of
  online sessions, and no session ever has two writes outstanding.\<close>

theorem server_invariant:
  assumes "store_inv s0" and "reachable E s0 fs p"
  shows "case p of Running S \<Rightarrow> server_inv S | Exited f S \<Rightarrow> server_inv S"
  using assms by (rule reachable_inv)

theorem server_invariant_witness:
  "case outcome (main_init demo_env (Server demo_store Map.empty)) of
     Running S \<Rightarrow> server_inv S | Exited f S \<Rightarrow> server_inv S"
  using server_invariant [OF demo_inv reachable.start] .

text \<open>Only the handling of a received packet can end the server process: accepting,
  writing, failed reads and writes, the end of a session and the token cleaner never do.\<close>

theorem only_packets_end_the_server:
  assumes "store_inv s0" and "reachable E s0 fs (Running S)"
    and "server_step E e S = Some (Inl f, S')"
  shows "\<exists>sid. e = ReadComplete sid"
proof -
  have inv: "server_inv S" using reachable_inv [OF assms(1,2)] by simp
  show ?thesis
    using assms(3) server_inv_net_handler(2) [OF inv] server_inv_read_failed(2) [OF inv]
    by (cases e) (fastforce simp: accept_handler_def prog_simps timer_handler_def on_db_def
        cleaner_run schedule_def release_def split: if_splits option.splits)+
qed

lemma read_step_frame:
  assumes "proper_type t" and "fits32 (length b)"
  shows "read_step \<lparr>inbuf = full_packet t b @ rest, rstate = ReadHeader\<rparr> =
    Some (None, \<lparr>inbuf = b @ rest, rstate = ReadBody t (length b)\<rparr>)"
  using assms header_of_full_packet [of t b rest]
  by (simp add: read_step_def parse_header_and_read_body_def del: header_of_full_packet)

lemma packet_type_5: "packet_type_of 5 = MESSAGE"
  using packet_type_of_u32 [of MESSAGE] by simp

text \<open>The server after a client connected and sent a general-chat packet with an empty body.\<close>

definition crash_server :: server where
  "crash_server = (put_line (Printed joined_text)
     (snd (main_init demo_env (Server create_tables Map.empty))))
     \<lparr>clients := [0 \<mapsto> new_client\<lparr>reader := \<lparr>inbuf = [], rstate = ReadBody MESSAGE 0\<rparr>\<rparr>],
      next_client := 1\<rparr>"

lemma crash_server_run:
  "run demo_env [Accept False, Arrive 0 (full_packet MESSAGE []), ReadComplete 0]
     (snd (main_init demo_env (Server create_tables Map.empty))) = Some (Running crash_server)"
  by (simp add: main_init_def prog_simps on_db_def cleaner_run schedule_def Server_def
      accept_handler_def read_complete_def new_client_def start_reader_def arrive_def
      update_client_def read_step_def parse_header_and_read_body_def crash_server_def
      full_packet_def header_type_def header_length_def packet_type_5 put_line_def fun_eq_iff)

lemma crash_server_reachable:
  "reachable demo_env create_tables Map.empty (Running crash_server)"
proof (rule run_reachable [OF crash_server_run])
  have "outcome (main_init demo_env (Server create_tables Map.empty)) =
      Running (snd (main_init demo_env (Server create_tables Map.empty)))"
    by (simp add: main_init_def prog_simps on_db_def cleaner_run schedule_def outcome_def)
  then show "reachable demo_env create_tables Map.empty
      (Running (snd (main_init demo_env (Server create_tables Map.empty))))"
    using reachable.start [of demo_env create_tables Map.empty] by simp
qed

text \<open>C34: Any connected client can end the server: a request that does not parse, of any of the
  fourteen types and before any login, makes its handler throw, and nothing between the handler
  and \<^verbatim>\<open>main\<close> catches the exception.\<close>

theorem malformed_request_ends_server:
  assumes "clients S sid = Some c" and "reading c"
    and "reader c = \<lparr>inbuf = full_packet type body @ rest, rstate = ReadHeader\<rparr>"
    and "proper_type type" and "fits32 (length body)"
    and "request_fault type body = Some f"
  shows "\<exists>S'. run E [ReadComplete sid, ReadComplete sid] S = Some (Exited f S')"
proof -
  let ?r = "\<lparr>inbuf = body @ rest, rstate = ReadBody type (length body)\<rparr>"
  let ?S = "update_client sid (\<lambda>c. c\<lparr>reader := ?r\<rparr>) S"
  have one: "server_step E (ReadComplete sid) S = Some (Inr (), ?S)"
    using assms(1-5) by (simp add: read_complete_def read_step_frame prog_simps)
  have "handle_packet E sid type body ?S = (Inl f, cleared sid ?S)"
    by (rule handle_packet_malformed [OF assms(6)])
  then have "server_step E (ReadComplete sid) ?S = Some (Inl f, cleared sid ?S)"
    using assms(1,2) by (simp add: read_complete_def read_step_def read_handler_def prog_simps)
  then show ?thesis using one by simp
qed

lemma empty_requests:
  "request_fault MESSAGE [] = Some (RuntimeError ''unpack: out of bounds'')"
  "request_fault LOGIN [] = Some (RuntimeError ''unpack: out of bounds'')"
  by (simp_all add: ChatSendRequest_deserialize_def AuthRequest_deserialize_def deserialize_def
      rd_pair_def rd_string_def unpack_def)

theorem malformed_request_ends_server_witness:
  "\<exists>S'. run demo_env [ReadComplete 0, ReadComplete 0] (demo_server\<lparr>clients := [0 \<mapsto> new_client\<lparr>reader :=
      \<lparr>inbuf = full_packet LOGIN [] @ [], rstate = ReadHeader\<rparr>\<rparr>]\<rparr>)
    = Some (Exited (RuntimeError ''unpack: out of bounds'') S')"
  by (rule malformed_request_ends_server [where type = LOGIN and body = "[]" and rest = "[]"
        and c = "new_client\<lparr>reader :=
          \<lparr>inbuf = full_packet LOGIN [] @ [], rstate = ReadHeader\<rparr>\<rparr>"])
    (simp_all add: new_client_def fits32_def empty_requests del: request_fault.simps)

lemma crash_server_step:
  "server_step demo_env (ReadComplete 0) crash_server =
    Some (Inl (RuntimeError ''unpack: out of bounds''), cleared 0 crash_server)"
proof -
  have "handle_packet demo_env 0 MESSAGE [] crash_server =
      (Inl (RuntimeError ''unpack: out of bounds''), cleared 0 crash_server)"
    by (rule handle_packet_malformed [OF empty_requests(1)])
  then show ?thesis
    by (simp add: read_complete_def read_step_def read_handler_def prog_simps crash_server_def
        new_client_def)
qed

theorem only_packets_end_the_server_witness:
  "\<exists>f S'. server_step demo_env (ReadComplete 0) crash_server = Some (Inl f, S') \<and>
     (\<exists>sid. ReadComplete 0 = ReadComplete sid)"
  using only_packets_end_the_server [OF store_inv_create_tables crash_server_reachable
      crash_server_step] crash_server_step by blast



section \<open>What a request can change\<close>

text \<open>C14: A request changes its own part of the state and nothing else, whatever its body is and even
  when its handler throws: only a registration changes the users, only the three requests about
  friends the friendships, only an upload the files, only a login or a registration can add a token,
  and only these and a verified token touch the registry. No session appears or disappears, and of
  another session nothing but its sending queue changes.\<close>

theorem requests_change_only_their_part:
  assumes "S' = snd (handle_packet E this t body S)"
  shows "(t = REGISTER \<or> users (database S') = users (database S)) \<and>
    (t \<in> {FRIEND_REQUEST, FRIEND_ACCEPT, FRIEND_REJECT} \<or>
      friendships (database S') = friendships (database S)) \<and>
    (t \<in> {DIRECT_MESSAGE, REGISTER, LOGIN, TOKEN_VERIFY} \<or>
      direct_messages (database S') = direct_messages (database S)) \<and>
    (t \<in> {REGISTER, LOGIN} \<or> set (sessions (database S')) \<subseteq> set (sessions (database S))) \<and>
    (t = UPLOAD \<or> files S' = files S \<and> rand_pos S' = rand_pos S) \<and>
    (t \<in> {REGISTER, LOGIN, TOKEN_VERIFY} \<or> online_users S' = online_users S) \<and>
    (\<forall>sid. clients S' sid = None \<longleftrightarrow> clients S sid = None) \<and>
    (\<forall>sid c. sid \<noteq> this \<and> clients S sid = Some c \<longrightarrow> (\<exists>n. clients S' sid = Some (c\<lparr>net := n\<rparr>)))"
proof -
  have "bounded t this S S'" unfolding assms by (rule preservesD [OF bounded_handle_packet bounded_refl])
  then show ?thesis unfolding bounded_def db_bounded_def by (elim conjE) (intro conjI)
qed

theorem requests_change_only_their_part_witness:
  "users (database (snd (handle_packet demo_env 0 CHAT_LIST [] demo_server))) = users demo_store \<and>
   files (snd (handle_packet demo_env 0 CHAT_LIST [] demo_server)) = files demo_server"
proof -
  define S' where "S' = snd (handle_packet demo_env 0 CHAT_LIST [] demo_server)"
  from requests_change_only_their_part [OF S'_def] have "users (database S') = users (database demo_server)"
    "files S' = files demo_server" by blast+
  then show ?thesis unfolding S'_def by simp
qed

section \<open>Direct messages\<close>

text \<open>C9: No request removes or rewrites a stored message (only its delivered flag may
  change), and the only way a new one comes into being is an authorised user's direct message
  to a user who is a friend.\<close>

theorem messages_only_between_friends:
  assumes "store_inv (database S)" and "S' = snd (handle_packet E this type body S)"
  shows "map core (direct_messages (database S')) = map core (direct_messages (database S)) \<or>
    type = DIRECT_MESSAGE \<and>
    (\<exists>req l a b r. DirectMessageRequest_deserialize body = Inr req \<and>
       token_login E (database S) (dmreq_token req) = Some l \<and>
       id_of_login (database S) l = Some a \<and>
       id_of_login (database S) (dmreq_recipient_login req) = Some b \<and>
       relation (database S) a b = Friends \<and>
       direct_messages (database S') = direct_messages (database S) @ [r] \<and>
       m_sender r = a \<and> m_recipient r = b \<and> m_message r = dmreq_message req \<and> m_delivered r = 0)"
proof (cases "type = DIRECT_MESSAGE")
  case True
  then show ?thesis using direct_message_rows [OF assms(1), of S' E this body] assms(2) by simp
next
  case False
  then show ?thesis
    using preservesD [OF rows.packet_but_messages, of type _ S E this body] assms(2)
    by (simp add: within_def keeps_rows_def)
qed

definition demo_dm :: "string \<Rightarrow> string \<Rightarrow> DirectMessageRequest" where
  "demo_dm t r = \<lparr>dmreq_token = t, dmreq_recipient_login = r, dmreq_message = ''yo''\<rparr>"

lemma demo_dm_parse:
  "length t < 100 \<Longrightarrow> length r < 100 \<Longrightarrow>
    DirectMessageRequest_deserialize (DirectMessageRequest_serialize (demo_dm t r)) = Inr (demo_dm t r)"
  using DirectMessageRequest_roundtrip [of "demo_dm t r" "[]"]
  by (simp add: DirectMessageRequest_wf_def demo_dm_def wf_string_def fits32_def)

theorem messages_only_between_friends_witness:
  "let S' = snd (handle_packet demo_env 0 LOGOUT [] demo_server)
   in map core (direct_messages (database S')) = map core (direct_messages demo_store)"
  using messages_only_between_friends [of demo_server _ demo_env 0 LOGOUT "[]", OF _ refl]
  by (simp add: demo_inv Let_def)

lemma direct_message_packet:
  assumes "DirectMessageRequest_deserialize body = Inr req"
    and "token_login E (database S) (dmreq_token req) = Some l"
    and "id_of_login (database S) l = Some a"
    and "id_of_login (database S) (dmreq_recipient_login req) = Some b"
    and "store_inv (database S)" and "relation (database S) a b = Friends"
    and "messages_seq (database S) < max_rowid" and "clients S this \<noteq> None"
  shows "\<exists>S'. handle_packet E this DIRECT_MESSAGE body S = (Inr (), S') \<and>
    direct_messages (database S') = direct_messages (database S) @
      [\<lparr>m_id = messages_seq (database S) + 1, m_sender = a, m_recipient = b,
        m_create_at = clock E (Suc (clock_pos (database S))), m_message = dmreq_message req,
        m_delivered = 0\<rparr>] \<and>
    (\<forall>x. outbox S' x = outbox S x @
       (if getSession (dmreq_recipient_login req) S = Some x
        then [full_packet DIRECT_MESSAGE (DirectMessageIncoming_serialize
          \<lparr>dmin_sender_login = l, dmin_message = dmreq_message req,
           dmin_timestamp = word_of_int (messages_seq (database S) + 1)\<rparr>)] else []) @
       (if x = this
        then [full_packet RESULT (DirectMessageResponse_serialize \<lparr>dmres_error = OK\<rparr>)] else []))"
proof -
  let ?C = "cleared this S"
  have "handle_direct_message E this body ?C = (Inr (DirectMessageResponse_serialize \<lparr>dmres_error = OK\<rparr>),
     (case getSession (dmreq_recipient_login req) ?C of None \<Rightarrow> id
      | Some s \<Rightarrow> send_to s DIRECT_MESSAGE (DirectMessageIncoming_serialize
          \<lparr>dmin_sender_login = l, dmin_message = dmreq_message req,
           dmin_timestamp = word_of_int (messages_seq (database ?C) + 1)\<rparr>))
     (?C\<lparr>database := message_saved E a b (dmreq_message req) (database (tick ?C))\<rparr>))"
    using assms by (intro handle_direct_message_friends) (simp_all add: store_inv_def)
  note answer = handle_packet_answer [where type = DIRECT_MESSAGE and h = handle_direct_message,
      OF _ this]
  show ?thesis
    using assms(8) answer error_reply_nonempty [of DIRECT_MESSAGE OK]
    by (auto simp: message_saved_def outbox_send_to getSession_def lock_def
        split: option.splits if_splits)
qed

text \<open>C10: A direct message to a friend is appended to the stored messages as undelivered, with
  the ids of both users and the time of the clock; the recipient's session gets it at once when
  there is a live one, and the sender is answered OK. Nobody else is sent anything.\<close>

theorem direct_message_delivered:
  assumes "DirectMessageRequest_deserialize body = Inr req"
    and "token_login E (database S) (dmreq_token req) = Some l"
    and "id_of_login (database S) l = Some a"
    and "id_of_login (database S) (dmreq_recipient_login req) = Some b"
    and "store_inv (database S)" and "relation (database S) a b = Friends"
    and "messages_seq (database S) < max_rowid" and "clients S this \<noteq> None"
  shows "\<exists>S'. handle_packet E this DIRECT_MESSAGE body S = (Inr (), S') \<and>
    direct_messages (database S') = direct_messages (database S) @
      [\<lparr>m_id = messages_seq (database S) + 1, m_sender = a, m_recipient = b,
        m_create_at = clock E (Suc (clock_pos (database S))), m_message = dmreq_message req,
        m_delivered = 0\<rparr>] \<and>
    (\<forall>x. outbox S' x = outbox S x @
       (if getSession (dmreq_recipient_login req) S = Some x
        then [full_packet DIRECT_MESSAGE (DirectMessageIncoming_serialize
          \<lparr>dmin_sender_login = l, dmin_message = dmreq_message req,
           dmin_timestamp = word_of_int (messages_seq (database S) + 1)\<rparr>)] else []) @
       (if x = this
        then [full_packet RESULT (DirectMessageResponse_serialize \<lparr>dmres_error = OK\<rparr>)] else []))"
  using assms by (rule direct_message_packet)

theorem direct_message_delivered_witness:
  "\<exists>S'. handle_packet demo_env 0 DIRECT_MESSAGE
      (DirectMessageRequest_serialize (demo_dm ''ta'' ''bob'')) demo_server = (Inr (), S') \<and>
    length (direct_messages (database S')) = 2"
  using direct_message_delivered [of _ "demo_dm ''ta'' ''bob''" demo_env demo_server "''alice''" 1 2 0,
      OF demo_dm_parse]
  by (auto simp: demo_dm_def demo_tokens demo_ids demo_inv demo_relations max_rowid_def)
    (simp add: demo_store_def)

text \<open>C11: From one user's keyboard to another's screen: the direct message that the interface sends is
  serialised with the saved token, the server stores it and puts exactly one packet on the way
  to the session of the friend, and the friend's client turns this packet into the signal that
  shows the author's login and the text unchanged. The sender's interface shows it as sent.\<close>

theorem direct_message_reaches_the_screen:
  assumes "qt_contract Q" and "ascii m" and "ascii r" and "ascii l"
    and "wf_string m" and "wf_string r" and "wf_string l" and "wf_string (token a)"
    and "handler_alive a" and "thread_steps a = []"
    and "token_login E (database S) (token a) = Some l"
    and "id_of_login (database S) l = Some u" and "id_of_login (database S) r = Some v"
    and "store_inv (database S)" and "relation (database S) u v = Friends"
    and "messages_seq (database S) < max_rowid" and "clients S this \<noteq> None"
    and "getSession r S = Some peer" and "callbacks H = NetworkBridge Q"
  shows "\<exists>a' body S' note tail H'.
    run_command Q E (SendDirectMessage now (qascii r) (qascii m)) a = (Inr (), a') \<and>
    emitted a' = emitted a @ [messageSent (qascii r) (qascii m) (word_of_int now)] \<and>
    thread_steps a' = send_request DIRECT_MESSAGE body \<and>
    handle_packet E this DIRECT_MESSAGE body S = (Inr (), S') \<and>
    outbox S' peer = outbox S peer @ full_packet DIRECT_MESSAGE note # tail \<and>
    handle_packet_async DIRECT_MESSAGE note H = (Inr (), H') \<and>
    world H' = world H @ [directMessageReceived (qascii l) (qascii m)
      (word_of_int (messages_seq (database S) + 1))] \<and>
    pending_requests H' = pending_requests H"
proof -
  let ?req = "\<lparr>dmreq_token = token a, dmreq_recipient_login = r, dmreq_message = m\<rparr>"
  let ?body = "DirectMessageRequest_serialize ?req"
  let ?note = "DirectMessageIncoming_serialize \<lparr>dmin_sender_login = l, dmin_message = m,
    dmin_timestamp = word_of_int (messages_seq (database S) + 1)\<rparr>"
  from assms(1-4) have Q: "toStdString Q (qascii m) = m" "toStdString Q (qascii r) = r"
    "fromStdString Q l = qascii l" "fromStdString Q m = qascii m"
    by (simp_all add: qt_contract_def)
  have "DirectMessageRequest_deserialize ?body = Inr ?req"
    using DirectMessageRequest_roundtrip [of ?req "[]"] assms(5,6,8)
    by (simp add: DirectMessageRequest_wf_def)
  from direct_message_packet [OF this, of E S l u v this] assms(11-18) obtain S' where
    "handle_packet E this DIRECT_MESSAGE ?body S = (Inr (), S')"
    "\<exists>tail. outbox S' peer = outbox S peer @ full_packet DIRECT_MESSAGE ?note # tail" by auto
  moreover have "DirectMessageIncoming_deserialize ?note = Inr \<lparr>dmin_sender_login = l, dmin_message = m,
    dmin_timestamp = word_of_int (messages_seq (database S) + 1)\<rparr>"
    using DirectMessageIncoming_roundtrip [where junk = "[]" and
        r = "\<lparr>dmin_sender_login = l, dmin_message = m,
          dmin_timestamp = word_of_int (messages_seq (database S) + 1)\<rparr>"] assms(5,7)
    by (simp add: DirectMessageIncoming_wf_def)
  moreover from this have "\<exists>H'. handle_packet_async DIRECT_MESSAGE ?note H = (Inr (), H') \<and>
    world H' = world H @ [directMessageReceived (qascii l) (qascii m)
      (word_of_int (messages_seq (database S) + 1))] \<and> pending_requests H' = pending_requests H"
    using assms(19) by (simp add: handle_packet_async_def handle_switch_def prog_simps invoke_def
        NetworkBridge_def invokeMethod_def push_line_run Q)
  moreover have "\<exists>a'. run_command Q E (SendDirectMessage now (qascii r) (qascii m)) a = (Inr (), a') \<and>
    emitted a' = emitted a @ [messageSent (qascii r) (qascii m) (word_of_int now)] \<and>
    thread_steps a' = send_request DIRECT_MESSAGE ?body"
    using assms(9,10) by (simp add: sendDirectMessage_def locked_def emit_def p_send_request_def prog_simps Let_def Q)
  ultimately show ?thesis by blast
qed

theorem direct_message_reaches_the_screen_witness:
  "\<exists>S' note tail H'.
    outbox S' 1 = outbox demo_server 1 @ full_packet DIRECT_MESSAGE note # tail \<and>
    handle_packet_async DIRECT_MESSAGE note (handler (client_main demo_qt Map.empty)) = (Inr (), H') \<and>
    world H' = [directMessageReceived (qascii ''alice'') (qascii ''hi'')
      (word_of_int (messages_seq demo_store + 1))]"
proof -
  have ascii: "ascii ''hi''" "ascii ''bob''" "ascii ''alice''" by (auto simp: ascii_def)
  have space: "messages_seq demo_store < max_rowid" by (simp add: demo_store_def max_rowid_def)
  note screen = direct_message_reaches_the_screen [OF demo_qt_contract ascii, of
      "(ClientHandlerQml Map.empty)\<lparr>token := ''ta''\<rparr>" demo_env demo_server 1 2 0 1
      "handler (client_main demo_qt Map.empty)"]
  have "world (handler (client_main demo_qt Map.empty)) = []"
    "callbacks (handler (client_main demo_qt Map.empty)) = NetworkBridge demo_qt"
    by (simp_all add: client_main_def)
  with screen space show ?thesis
    by (simp add: wf_string_def fits32_def ClientHandlerQml_def demo_tokens demo_ids demo_inv
        demo_relations demo_sessions) blast
qed

section \<open>Authorisation\<close>

lemma auth_reply_nonempty: "AuthResponse_serialize r \<noteq> []"
  by (simp add: AuthResponse_serialize_def serialize_def ser_error_def pack_ui32_def net_bytes_def)

lemma undelivered_of_new_user:
  assumes "store_inv s"
  shows "filter (\<lambda>r. m_recipient r = users_seq s + 1 \<and> m_delivered r = 0) (direct_messages s) = []"
proof -
  have "m_recipient r \<noteq> users_seq s + 1" if "r \<in> set (direct_messages s)" for r
    using assms that
    by (fastforce simp: store_inv_def messages_inv_def users_inv_def ids_ok_def user_ids_def)
  then show ?thesis by (simp add: filter_empty_conv)
qed

text \<open>C12: The code of an answer is the one that a reference computes from the tables alone: from the
  token and its age, from the logins and the passwords, from what two users are to each other. A
  request is served only if the reference has a code for it; the answer and the one line of the
  log carry that code, and an error is answered with nothing but the code. A request for which the
  reference has a fault throws it, and one for which it has an error is always answered.\<close>

theorem answers_follow_the_reference:
  assumes "clients S this \<noteq> None" and "store_inv (database S)" and "expects_answer t"
  shows "(\<forall>f. verdict E (database S) t b = Inl f \<longrightarrow> fst (handle_packet E this t b S) = Inl f) \<and>
    (\<forall>e. verdict E (database S) t b = Inr e \<and> e \<noteq> OK \<longrightarrow> (\<exists>S'. handle_packet E this t b S = (Inr (), S'))) \<and>
    (\<forall>S'. handle_packet E this t b S = (Inr (), S') \<longrightarrow>
      (\<exists>e reply printed sofar. verdict E (database S) t b = Inr e \<and> tells t e reply \<and>
         (e \<noteq> OK \<longrightarrow> reply = error_reply t e) \<and>
         console S' = console S @ map Printed printed @ [LoggedPacket t e ''''] \<and>
         outbox S' this = outbox S this @ sofar @ [full_packet RESULT reply]))"
proof -
  note rules = verdict_fault [OF assms(2,3)] verdict_ok [OF assms] verdict_refused [OF assms]
  have "\<exists>e reply printed sofar. verdict E (database S) t b = Inr e \<and> tells t e reply \<and>
      (e \<noteq> OK \<longrightarrow> reply = error_reply t e) \<and>
      console S' = console S @ map Printed printed @ [LoggedPacket t e ''''] \<and>
      outbox S' this = outbox S this @ sofar @ [full_packet RESULT reply]"
    if run: "handle_packet E this t b S = (Inr (), S')" for S'
  proof (cases "verdict E (database S) t b")
    case (Inl f)
    from rules(1) [OF this, of this] run show ?thesis by simp
  next
    case v: (Inr e)
    show ?thesis
    proof (cases "e = OK")
      case True
      with rules(2) [of E b "()" S'] v run show ?thesis by blast
    next
      case False
      from rules(3) [OF v False] run obtain S0 printed where S0: "untouched S S0" "clients S0 this \<noteq> None"
        and S': "S' = answered this t (error_reply t e) S0"
        and log: "console S' = console S @ map Printed printed @ [LoggedPacket t e '''']" by auto
      have "outbox S' this = outbox S this @ [] @ [full_packet RESULT (error_reply t e)]"
        using S0 by (simp add: S' outbox_send_to untouched_def)
      with v log tells_error_reply [OF assms(3), of e] show ?thesis by blast
    qed
  qed
  with rules(1,3) show ?thesis by blast
qed

definition demo_chat :: "string \<Rightarrow> ChatSendRequest" where
  "demo_chat t = \<lparr>csreq_token = t, csreq_message = ''yo''\<rparr>"

lemma demo_chat_parse:
  "length t < 100 \<Longrightarrow> ChatSendRequest_deserialize (ChatSendRequest_serialize (demo_chat t)) = Inr (demo_chat t)"
  using ChatSendRequest_roundtrip [of "demo_chat t" "[]"]
  by (simp add: ChatSendRequest_wf_def demo_chat_def wf_string_def fits32_def)

lemma demo_chat_token [simp]: "csreq_token (demo_chat t) = t"
  by (simp add: demo_chat_def)

definition demo_again :: FriendRequest where
  "demo_again = \<lparr>freq_token = ''ta'', freq_target_login = ''bob''\<rparr>"

lemma demo_again_parse:
  "FriendRequest_deserialize (FriendRequest_serialize demo_again) = Inr demo_again"
  using FriendRequest_roundtrip [of demo_again "[]"]
  by (simp add: FriendRequest_wf_def demo_again_def wf_string_def fits32_def)

lemma demo_again_fields: "freq_token demo_again = ''ta''" "freq_target_login demo_again = ''bob''"
  by (simp_all add: demo_again_def)

lemma demo_token_error: "token_error demo_env demo_store ''old'' = TokenExpired"
  by (simp add: token_error_def session_by_token_def demo_store_def TOKEN_TTL_def)

lemma demo_verdicts:
  "verdict demo_env demo_store MESSAGE (ChatSendRequest_serialize (demo_chat ''old'')) = Inr TokenExpired"
  "verdict demo_env demo_store FRIEND_REQUEST (FriendRequest_serialize demo_again) = Inr AlreadyFriends"
  by (simp_all add: demo_chat_parse demo_again_parse demo_again_fields demo_token_error demo_tokens demo_ids
    demo_relations about_def)

theorem answers_follow_the_reference_witness:
  "\<exists>S' printed. handle_packet demo_env 0 MESSAGE (ChatSendRequest_serialize (demo_chat ''old'')) demo_server =
      (Inr (), S') \<and>
     console S' = console demo_server @ map Printed printed @ [LoggedPacket MESSAGE TokenExpired '''']"
proof -
  have "store_inv (database demo_server)" "expects_answer MESSAGE" "clients demo_server 0 \<noteq> None"
    using demo_inv by (simp_all add: expects_answer_def)
  from answers_follow_the_reference [OF this(3,1,2), of demo_env
      "ChatSendRequest_serialize (demo_chat ''old'')"] demo_verdicts(1)
  show ?thesis by simp blast
qed

text \<open>C13: A request that is answered with an error has no effect, whatever the error is, an unknown
  or expired token, a wrong password, a login that is taken or unknown, or what the two users are
  to each other: no user, friendship, message or file changes, no session of the database is
  added, the registry stays as it is, and nobody else is sent anything.\<close>

theorem refused_requests_have_no_effect:
  assumes "clients S this \<noteq> None" and "store_inv (database S)" and "expects_answer t"
    and "verdict E (database S) t b = Inr e" and "e \<noteq> OK"
  shows "\<exists>S'. handle_packet E this t b S = (Inr (), S') \<and>
    (\<forall>x. outbox S' x = outbox S x @
       (if x = this then [full_packet RESULT (error_reply t e)] else [])) \<and>
    users (database S') = users (database S) \<and>
    friendships (database S') = friendships (database S) \<and>
    direct_messages (database S') = direct_messages (database S) \<and>
    set (sessions (database S')) \<subseteq> set (sessions (database S)) \<and>
    online_users S' = online_users S \<and> files S' = files S"
proof -
  from verdict_refused [OF assms] obtain S0 where run: "handle_packet E this t b S =
      (Inr (), answered this t (error_reply t e) S0)"
    and S0: "untouched S S0" "clients S0 this \<noteq> None" by blast
  have "outbox (answered this t (error_reply t e) S0) x = outbox S x @
      (if x = this then [full_packet RESULT (error_reply t e)] else [])" for x
    using S0 by (simp add: outbox_send_to untouched_def)
  with run S0(1) show ?thesis
    by (intro exI [of _ "answered this t (error_reply t e) S0"]) (simp add: untouched_def)
qed

theorem refused_requests_have_no_effect_witness:
  "\<exists>S'. handle_packet demo_env 0 FRIEND_REQUEST (FriendRequest_serialize demo_again) demo_server
      = (Inr (), S') \<and> friendships (database S') = friendships demo_store \<and> outbox S' 1 = outbox demo_server 1"
proof -
  have "store_inv (database demo_server)" "expects_answer FRIEND_REQUEST" "clients demo_server 0 \<noteq> None"
    using demo_inv by (simp_all add: expects_answer_def)
  from refused_requests_have_no_effect [OF this(3,1,2), of demo_env "FriendRequest_serialize demo_again"
      AlreadyFriends] demo_verdicts(2)
  show ?thesis by auto
qed

text \<open>C18: With the right password a login opens a session under a fresh token and enters the
  user in the registry. The client is sent the messages that waited for it, oldest first, then
  the token; none of them is undelivered afterwards, and no other session is sent anything.\<close>

theorem login_succeeds:
  assumes parse: "AuthRequest_deserialize body = Inr req"
    and pw: "password_ok E (database S) (areq_login req) (areq_password req)"
    and i: "id_of_login (database S) (areq_login req) = Some i"
    and inv: "store_inv (database S)" and live: "clients S this \<noteq> None"
    and t: "t = uuid E (uuid_pos (database S))"
    and fresh: "t \<notin> s_token ` set (sessions (database S))"
    and few: "length (undelivered_rows i (database S)) \<le> max_variables E"
  shows "\<exists>S'. handle_packet E this LOGIN body S = (Inr (), S') \<and>
    online S' (areq_login req) = Some this \<and>
    session_by_token t (database S') =
      Some \<lparr>s_token = t, s_id = i, s_created_at = clock E (clock_pos (database S))\<rparr> \<and>
    undelivered_rows i (database S') = [] \<and>
    outbox S' this = outbox S this @
      map (\<lambda>r. full_packet DIRECT_MESSAGE (incoming_of (database S) r))
        (undelivered_rows i (database S)) @
      [full_packet RESULT (AuthResponse_serialize \<lparr>ares_token = t, ares_error = OK\<rparr>)] \<and>
    (\<forall>x. x \<noteq> this \<longrightarrow> outbox S' x = outbox S x)"
proof -
  let ?s = "with_session E (database S) t i"
  let ?S1 = "note_error this OK (tokened this t ((cleared this S)\<lparr>database := ?s\<rparr>))"
  let ?reply = "AuthResponse_serialize \<lparr>ares_token = t, ares_error = OK\<rparr>"
  have d: "dispatch E this LOGIN body (cleared this S) = (Inr (?reply, areq_login req, True), ?S1)"
    using dispatch_login [of body req E "cleared this S" i this] parse pw i fresh t by simp
  have "verifyUser E (areq_login req) (areq_password req) (database S) = (Inr (Inr t), ?s)"
    using verifyUser_right [OF pw _ i] fresh t by simp
  from store_inv_verifyUser [OF inv this] have inv1: "store_inv (database ?S1)" by simp
  have live1: "clients ?S1 this \<noteq> None" using live by simp
  have run: "handle_packet E this LOGIN body S =
      (Inr (), authenticated this LOGIN (areq_login req) i ?reply ?S1)"
    using handle_packet_auth [OF d inv1 _ live1, of i] i few auth_reply_nonempty by simp
  have minv: "messages_inv (database ?S1)" using inv1 by (simp add: store_inv_def)
  have "find (\<lambda>r. s_token r = t) (sessions (database S)) = None"
    using fresh session_by_token_None [of t "database S"] by (simp add: session_by_token_def)
  then have sess: "session_by_token t (database (authenticated this LOGIN (areq_login req) i ?reply ?S1)) =
      Some \<lparr>s_token = t, s_id = i, s_created_at = clock E (clock_pos (database S))\<rparr>"
    using authenticated_facts(7) [OF live1 minv] by (simp add: session_by_token_def find_append)
  have incoming: "incoming_of (database ?S1) = incoming_of (database S)"
    by (simp add: incoming_of_def [abs_def])
  show ?thesis
    using run sess authenticated_facts(1,3,5,6) [OF live1 minv] incoming by simp
qed

lemma demo_auth_parse:
  "length l < 100 \<Longrightarrow> length p < 100 \<Longrightarrow> AuthRequest_deserialize
    (AuthRequest_serialize \<lparr>areq_login = l, areq_password = p\<rparr>) =
    Inr \<lparr>areq_login = l, areq_password = p\<rparr>"
  using AuthRequest_roundtrip [of "\<lparr>areq_login = l, areq_password = p\<rparr>" "[]"]
  by (simp add: AuthRequest_wf_def wf_string_def fits32_def)

theorem login_succeeds_witness:
  "\<exists>S'. handle_packet demo_env 0 LOGIN (AuthRequest_serialize
      \<lparr>areq_login = ''bob'', areq_password = ''pw''\<rparr>) demo_server = (Inr (), S') \<and>
    online S' ''bob'' = Some 0 \<and> undelivered_rows 2 (database S') = []"
  using login_succeeds [where E = demo_env and S = demo_server and i = 2 and this = 0 and
      t = "''u''", OF demo_auth_parse [of "''bob''" "''pw''"]]
  by (auto simp: demo_password demo_ids demo_inv demo_undelivered)
    (auto simp: demo_store_def)

text \<open>A wrong login or password is answered \<^verbatim>\<open>IncorrectCredentials\<close>, which does not tell the
  two apart; no session is opened and nothing else changes.\<close>

theorem login_refused:
  assumes "AuthRequest_deserialize body = Inr req" and "clients S this \<noteq> None"
    and "\<not> password_ok E (database S) (areq_login req) (areq_password req)"
  shows "\<exists>S'. handle_packet E this LOGIN body S = (Inr (), S') \<and>
    database S' = database S \<and> online_users S' = online_users S \<and>
    (\<forall>x. outbox S' x = outbox S x @ (if x = this then [full_packet RESULT
       (AuthResponse_serialize \<lparr>ares_token = '''', ares_error = IncorrectCredentials\<rparr>)] else []))"
proof -
  have d: "dispatch E this LOGIN body (cleared this S) = (Inr (error_reply LOGIN IncorrectCredentials,
      '''', False), note_error this IncorrectCredentials (cleared this S))"
    using dispatch_login_wrong [OF assms(1), of E "cleared this S" this] assms(3) by simp
  show ?thesis
    using assms(2) d error_reply_nonempty [of LOGIN IncorrectCredentials]
    by (auto simp: handle_packet_cleared prog_simps outbox_send_to)
qed

theorem login_refused_witness:
  "\<exists>S'. handle_packet demo_env 1 LOGIN (AuthRequest_serialize
      \<lparr>areq_login = ''dave'', areq_password = ''pw''\<rparr>) demo_server = (Inr (), S') \<and>
    database S' = demo_store"
  using login_refused [OF demo_auth_parse [of "''dave''" "''pw''"], of demo_server 1 demo_env]
  by (auto simp: password_ok_def user_by_login_def)

text \<open>C20: Registering a free login creates the user, whose password then verifies, opens a
  session for it and enters it in the registry; the client is answered with the token.\<close>

theorem register_creates_a_user:
  assumes parse: "AuthRequest_deserialize body = Inr req"
    and new: "id_of_login (database S) (areq_login req) = None"
    and room: "users_seq (database S) < max_rowid"
    and salt: "nul_free (uuid E (uuid_pos (database S)))"
    and t: "t = uuid E (Suc (uuid_pos (database S)))"
    and fresh: "t \<notin> s_token ` set (sessions (database S))"
    and inv: "store_inv (database S)" and live: "clients S this \<noteq> None"
  shows "\<exists>S'. handle_packet E this REGISTER body S = (Inr (), S') \<and>
    id_of_login (database S') (areq_login req) = Some (users_seq (database S) + 1) \<and>
    password_ok E (database S') (areq_login req) (areq_password req) \<and>
    online S' (areq_login req) = Some this \<and>
    outbox S' this = outbox S this @
      [full_packet RESULT (AuthResponse_serialize \<lparr>ares_token = t, ares_error = OK\<rparr>)]"
proof -
  let ?l = "areq_login req" and ?p = "areq_password req" and ?i = "users_seq (database S) + 1"
  let ?s = "registered E ?l ?p (database S)"
  let ?S1 = "note_error this OK (tokened this t ((cleared this S)\<lparr>database := with_session E ?s t ?i\<rparr>))"
  let ?reply = "AuthResponse_serialize \<lparr>ares_token = t, ares_error = OK\<rparr>"
  have d: "dispatch E this REGISTER body (cleared this S) = (Inr (?reply, ?l, True), ?S1)"
    using dispatch_register [of body req "cleared this S" E this] assms by simp
  have "preserves store_inv (bnd (registerUser E ?l ?p) (\<lambda>_. verifyUser E ?l ?p))"
    by (intro preserves_intros)
  moreover have "bnd (registerUser E ?l ?p) (\<lambda>_. verifyUser E ?l ?p) (database S) =
      (Inr (Inr t), with_session E ?s t ?i)"
    using registerUser_new [OF new room] verifyUser_right [of E ?s ?l ?p ?i] fresh t
      registered_password [OF new salt] registered_id [OF new]
    by (simp add: prog_simps registered_def)
  ultimately have inv1: "store_inv (database ?S1)" using preservesD inv by fastforce
  then have minv: "messages_inv (database ?S1)" by (simp add: store_inv_def)
  have live1: "clients ?S1 this \<noteq> None" using live by simp
  have none: "undelivered_rows ?i (database ?S1) = []"
    using undelivered_of_new_user [OF inv] by (simp add: registered_def undelivered_rows_def)
  have run: "handle_packet E this REGISTER body S = (Inr (), authenticated this REGISTER ?l ?i ?reply ?S1)"
    using handle_packet_auth [OF d inv1 _ live1, of ?i] none registered_id [OF new]
      auth_reply_nonempty by simp
  have "users (database (authenticated this REGISTER ?l ?i ?reply ?S1)) = users ?s"
    using authenticated_facts(8) [OF live1 minv] by simp
  then have "id_of_login (database (authenticated this REGISTER ?l ?i ?reply ?S1)) ?l = Some ?i"
    "password_ok E (database (authenticated this REGISTER ?l ?i ?reply ?S1)) ?l ?p"
    using registered_id [OF new] registered_password [OF new salt]
    by (simp_all add: id_of_login_def password_ok_def user_by_login_def)
  then show ?thesis
    using run none authenticated_facts(1,5) [OF live1 minv] by simp
qed

theorem register_creates_a_user_witness:
  "\<exists>S'. handle_packet demo_env 1 REGISTER (AuthRequest_serialize
      \<lparr>areq_login = ''dave'', areq_password = ''pw''\<rparr>) demo_server = (Inr (), S') \<and>
    id_of_login (database S') ''dave'' = Some 4 \<and> online S' ''dave'' = Some 1"
  using register_creates_a_user [where E = demo_env and S = demo_server and this = 1 and
      t = "''ux''", OF demo_auth_parse [of "''dave''" "''pw''"]]
  by (auto simp: demo_ids demo_inv max_rowid_def nul_free_def) (auto simp: demo_store_def)

text \<open>A client that comes back with a token it kept is let in again as the token's user,
  without a password, as long as the token is valid.\<close>

theorem token_verify_succeeds:
  assumes parse: "TokenVerifyRequest_deserialize body = Inr req"
    and tok: "token_login E (database S) (tvreq_old_token req) = Some l"
    and i: "id_of_login (database S) l = Some i"
    and inv: "store_inv (database S)" and live: "clients S this \<noteq> None"
    and few: "length (undelivered_rows i (database S)) \<le> max_variables E"
  shows "\<exists>S'. handle_packet E this TOKEN_VERIFY body S = (Inr (), S') \<and>
    online S' l = Some this \<and> undelivered_rows i (database S') = [] \<and>
    sessions (database S') = sessions (database S) \<and>
    outbox S' this = outbox S this @
      map (\<lambda>r. full_packet DIRECT_MESSAGE (incoming_of (database S) r))
        (undelivered_rows i (database S)) @
      [full_packet RESULT (TokenVerifyResponse_serialize \<lparr>tvres_error = OK\<rparr>)]"
proof -
  let ?S1 = "tokened this (tvreq_old_token req) (note_error this OK (tick (cleared this S)))"
  let ?reply = "error_reply TOKEN_VERIFY OK"
  have d: "dispatch E this TOKEN_VERIFY body (cleared this S) = (Inr (?reply, l, True), ?S1)"
    using dispatch_token_verify [of body req E "cleared this S" l this] parse tok by simp
  have inv1: "store_inv (database ?S1)" using inv by simp
  then have minv: "messages_inv (database ?S1)" by (simp add: store_inv_def)
  have live1: "clients ?S1 this \<noteq> None" using live by simp
  have run: "handle_packet E this TOKEN_VERIFY body S = (Inr (), authenticated this TOKEN_VERIFY l i ?reply ?S1)"
    using handle_packet_auth [OF d inv1 _ live1, of i] i few
      error_reply_nonempty [of TOKEN_VERIFY OK] by simp
  have "incoming_of (database ?S1) = incoming_of (database S)"
    by (simp add: incoming_of_def [abs_def])
  then show ?thesis
    using run authenticated_facts(1,3,5,7) [OF live1 minv] by simp
qed

definition demo_verify :: TokenVerifyRequest where
  "demo_verify = \<lparr>tvreq_old_token = ''tb''\<rparr>"

theorem token_verify_succeeds_witness:
  "\<exists>S'. handle_packet demo_env 0 TOKEN_VERIFY (TokenVerifyRequest_serialize demo_verify) demo_server
      = (Inr (), S') \<and> online S' ''bob'' = Some 0"
proof -
  have "TokenVerifyRequest_deserialize (TokenVerifyRequest_serialize demo_verify @ []) =
      Inr demo_verify"
    by (rule TokenVerifyRequest_roundtrip)
      (simp add: TokenVerifyRequest_wf_def demo_verify_def wf_string_def fits32_def)
  then show ?thesis
    using token_verify_succeeds [of "TokenVerifyRequest_serialize demo_verify" demo_verify demo_env
        demo_server "''bob''" 2 0]
    by (auto simp: demo_verify_def demo_tokens demo_ids demo_inv demo_undelivered)
      (auto simp: demo_store_def)
qed

section \<open>Friendships\<close>

lemma friendships_inv_tick: "store_inv (database S) \<Longrightarrow> friendships_inv (database (tick (cleared this S)))"
  by (simp add: store_inv_def)

lemma changes_only_tick:
  "changes_only a b R (database (tick S)) s \<Longrightarrow> changes_only a b R (database S) s"
  by (simp add: changes_only_def)

lemma not_ok_OK: "ok e \<Longrightarrow> e = OK"
  by (simp add: ok_iff)

text \<open>What a run of one of the three handlers leaves, from its outcome.\<close>

lemma friend_packet:
  assumes "plain_handler type = Some h"
    and "h E this body (cleared this S) =
      friend_outcome this target news err ((cleared this S)\<lparr>database := s\<rparr>)"
    and "clients S this \<noteq> None"
  shows "\<exists>S'. handle_packet E this type body S = (Inr (), S') \<and> database S' = s \<and>
    (\<forall>x. outbox S' x = outbox S x @
      (if ok err \<and> getSession target S = Some x then [full_packet news []] else []) @
      (if x = this then [full_packet RESULT (FriendResponse_serialize \<lparr>fres_error = err\<rparr>)] else []))"
proof (cases "ok err")
  case True
  then have "err = OK" by (rule not_ok_OK)
  have "handle_packet E this type body S = (Inr (), answered this type
      (error_reply FRIEND_REQUEST OK) (notified target news ((cleared this S)\<lparr>database := s\<rparr>)))"
    using handle_packet_answer [OF assms(1)] assms(2) True error_reply_nonempty [of FRIEND_REQUEST OK]
    by (simp add: friend_outcome_def)
  then show ?thesis
    using assms(3) True \<open>err = OK\<close>
    by (auto simp: notified_def outbox_send_to getSession_def lock_def split: option.splits if_splits)
next
  case False
  then have "handle_packet E this type body S = (Inr (), answered this type
      (error_reply FRIEND_REQUEST err) (note_error this err ((cleared this S)\<lparr>database := s\<rparr>)))"
    using handle_packet_answer [OF assms(1)] assms(2)
      error_reply_nonempty [of FRIEND_REQUEST err] by (simp add: friend_outcome_def)
  then show ?thesis
    using assms(3) False by (auto simp: outbox_send_to)
qed

text \<open>C17: The three friend requests follow the specification of a friendship between two users:
  the answer and the new relation are those of the specification, no other pair of users is
  touched, and on success a live session of the other user is told.\<close>

theorem friend_requests_follow_the_specification:
  assumes parse: "FriendRequest_deserialize body = Inr req"
    and tok: "token_login E (database S) (freq_token req) = Some l"
    and a: "id_of_login (database S) l = Some a"
    and b: "id_of_login (database S) (freq_target_login req) = Some b"
    and inv: "store_inv (database S)" and "a \<noteq> b"
    and room: "friendships_seq (database S) < max_rowid" and live: "clients S this \<noteq> None"
    and kind: "(type, spec, news) \<in> {(FRIEND_REQUEST, request_spec, FRIEND_NEW_REQUEST),
      (FRIEND_ACCEPT, accept_spec, FRIEND_REQUEST_ACCEPTED),
      (FRIEND_REJECT, reject_spec, FRIEND_REQUEST_REJECTED)}"
    and spec: "spec a (relation (database S) a b) = (answer, R)"
  shows "\<exists>S'. handle_packet E this type body S = (Inr (), S') \<and>
    changes_only a b R (database S) (database S') \<and>
    (\<forall>x. outbox S' x = outbox S x @
      (if ok answer \<and> getSession (freq_target_login req) S = Some x
       then [full_packet news []] else []) @
      (if x = this
       then [full_packet RESULT (FriendResponse_serialize \<lparr>fres_error = answer\<rparr>)] else []))"
proof -
  let ?C = "cleared this S"
  note fr = friendships_inv_tick [OF inv, of this]
  have ids: "a \<in> user_ids (database (tick ?C))" "b \<in> user_ids (database (tick ?C))"
    using id_of_login_user [OF a] id_of_login_user [OF b] by simp_all
  note runs = handle_friend_runs [of body req E ?C l a b, unfolded cleared_simps, OF parse tok a b]
  from kind consider (req) "type = FRIEND_REQUEST" "spec = request_spec" "news = FRIEND_NEW_REQUEST"
    | (acc) "type = FRIEND_ACCEPT" "spec = accept_spec" "news = FRIEND_REQUEST_ACCEPTED"
    | (rej) "type = FRIEND_REJECT" "spec = reject_spec" "news = FRIEND_REQUEST_REJECTED" by auto
  then obtain h s where h: "plain_handler type = Some h"
    and run: "h E this body ?C = friend_outcome this (freq_target_login req) news answer (?C\<lparr>database := s\<rparr>)"
    and s: "changes_only a b R (database (tick ?C)) s"
  proof cases
    case req
    from sendRequest_refines [OF fr \<open>a \<noteq> b\<close> ids] room spec req obtain s where
      "sendRequest a b (database (tick ?C)) = (Inr answer, s)"
      "changes_only a b R (database (tick ?C)) s" by auto
    with runs(1) [of answer s this] req that show ?thesis by simp
  next
    case acc
    from acceptRequest_refines [OF fr, of a b] spec acc obtain s where
      "acceptRequest a b (database (tick ?C)) = (Inr answer, s)"
      "changes_only a b R (database (tick ?C)) s" by auto
    with runs(2) [of answer s this] acc that show ?thesis by simp
  next
    case rej
    from rejectRequest_refines [OF fr, of a b] spec rej obtain s where
      "rejectRequest a b (database (tick ?C)) = (Inr answer, s)"
      "changes_only a b R (database (tick ?C)) s" by auto
    with runs(3) [of answer s this] rej that show ?thesis by simp
  qed
  have "changes_only a b R (database S) s" using changes_only_tick [OF s] by simp
  with friend_packet [OF h run live] show ?thesis by blast
qed

definition demo_friend :: "string \<Rightarrow> FriendRequest" where
  "demo_friend l = \<lparr>freq_token = ''tb'', freq_target_login = l\<rparr>"

lemma demo_friend_parse:
  "length l < 100 \<Longrightarrow>
    FriendRequest_deserialize (FriendRequest_serialize (demo_friend l)) = Inr (demo_friend l)"
  using FriendRequest_roundtrip [of "demo_friend l" "[]"]
  by (simp add: FriendRequest_wf_def demo_friend_def wf_string_def fits32_def)

lemma demo_friend_sel [simp]:
  "freq_token (demo_friend l) = ''tb''" "freq_target_login (demo_friend l) = l"
  by (simp_all add: demo_friend_def)

theorem friend_requests_follow_the_specification_witness:
  "\<exists>S'. handle_packet demo_env 1 FRIEND_ACCEPT (FriendRequest_serialize (demo_friend ''carol''))
      demo_server = (Inr (), S') \<and> changes_only 2 3 Friends demo_store (database S')"
  using friend_requests_follow_the_specification [where E = demo_env and S = demo_server and
      this = 1 and l = "''bob''" and a = 2 and b = 3 and type = FRIEND_ACCEPT and
      spec = accept_spec and news = FRIEND_REQUEST_ACCEPTED and answer = OK and R = Friends,
      OF demo_friend_parse [of "''carol''"]]
  by (auto simp: demo_tokens demo_ids demo_inv demo_relations max_rowid_def)

text \<open>C25: The friend list of a user names exactly the users with an accepted friendship, and as
  pending exactly those whose request the user has not answered.\<close>

theorem friend_list_is_exact:
  assumes "FriendListRequest_deserialize body = Inr req"
    and "token_login E (database S) (flreq_token req) = Some l"
    and "id_of_login (database S) l = Some a" and "store_inv (database S)"
    and "clients S this \<noteq> None"
  shows "\<exists>S' fs ps. handle_packet E this FRIEND_LIST body S = (Inr (), S') \<and>
    outbox S' this = outbox S this @ [full_packet RESULT (FriendListResponse_serialize
      \<lparr>flres_friends = map (\<lambda>i. the (login_of_id (database S) i)) fs,
       flres_pending_incoming = map (\<lambda>i. the (login_of_id (database S) i)) ps,
       flres_error = OK\<rparr>)] \<and>
    set fs = {b. relation (database S) a b = Friends} \<and>
    set ps = {b. b \<noteq> a \<and> relation (database S) a b = Requested b}"
proof -
  obtain fs ps where run: "handle_friend_list E this body (cleared this S) =
    (Inr (FriendListResponse_serialize
      \<lparr>flres_friends = map (\<lambda>i. the (login_of_id (database S) i)) fs,
       flres_pending_incoming = map (\<lambda>i. the (login_of_id (database S) i)) ps,
       flres_error = OK\<rparr>), tick (cleared this S))"
    and sets: "set fs = {b. relation (database S) a b = Friends}"
      "set ps = {b. b \<noteq> a \<and> relation (database S) a b = Requested b}"
    using handle_friend_list_run [of body req E "cleared this S" l a this] assms by auto
  have "FriendListResponse_serialize r \<noteq> []" for r
    by (simp add: FriendListResponse_serialize_def serialize_def ser_error_def pack_ui32_def
        net_bytes_def)
  with handle_packet_answer [where h = handle_friend_list, OF _ run] assms(5) sets show ?thesis
    by (intro exI [of _ "answered this FRIEND_LIST (FriendListResponse_serialize
      \<lparr>flres_friends = map (\<lambda>i. the (login_of_id (database S) i)) fs,
       flres_pending_incoming = map (\<lambda>i. the (login_of_id (database S) i)) ps,
       flres_error = OK\<rparr>) (tick (cleared this S))"] exI [of _ fs] exI [of _ ps])
      (simp add: outbox_send_to)
qed

definition demo_list :: FriendListRequest where
  "demo_list = \<lparr>flreq_token = ''tb''\<rparr>"

theorem friend_list_is_exact_witness:
  "\<exists>S' fs ps. handle_packet demo_env 1 FRIEND_LIST (FriendListRequest_serialize demo_list) demo_server
      = (Inr (), S') \<and> outbox S' 1 = outbox demo_server 1 @ [full_packet RESULT
        (FriendListResponse_serialize
          \<lparr>flres_friends = map (\<lambda>i. the (login_of_id demo_store i)) fs,
           flres_pending_incoming = map (\<lambda>i. the (login_of_id demo_store i)) ps,
           flres_error = OK\<rparr>)] \<and>
    set fs = {b. relation demo_store 2 b = Friends}"
proof -
  have "FriendListRequest_deserialize (FriendListRequest_serialize demo_list @ []) = Inr demo_list"
    by (rule FriendListRequest_roundtrip)
      (simp add: FriendListRequest_wf_def demo_list_def wf_string_def fits32_def)
  then show ?thesis
    using friend_list_is_exact [of "FriendListRequest_serialize demo_list" demo_list demo_env
        demo_server "''bob''" 2 1]
    by (simp add: demo_list_def demo_tokens demo_ids demo_inv) blast
qed

section \<open>Reading messages back\<close>

lemma history_reply_nonempty: "HistoryResponse_serialize r \<noteq> []"
  by (simp add: HistoryResponse_serialize_def serialize_def ser_error_def pack_ui32_def
      net_bytes_def)

lemma chat_list_reply_nonempty: "ChatListResponse_serialize r \<noteq> []"
  by (simp add: ChatListResponse_serialize_def serialize_def ser_error_def pack_ui32_def
      net_bytes_def)

text \<open>C26: A history request is answered with messages between the two users only, in the order
  of their time, at most a hundred; a message that is left out is not older than any that is
  shown, so it is the oldest hundred that a client sees.\<close>

theorem history_is_the_oldest_hundred:
  assumes "HistoryRequest_deserialize body = Inr req"
    and "token_login E (database S) (hreq_token req) = Some l"
    and "id_of_login (database S) l = Some a"
    and "id_of_login (database S) (hreq_peer_login req) = Some b"
    and "store_inv (database S)" and "clients S this \<noteq> None"
  shows "\<exists>S' rs. handle_packet E this MESSAGE_HISTORY body S = (Inr (), S') \<and>
    outbox S' this = outbox S this @ [full_packet RESULT (HistoryResponse_serialize
      \<lparr>hres_messages = map (entry_of (database S)) rs, hres_error = OK\<rparr>)] \<and>
    length rs = min 100 (length (filter (between a b) (direct_messages (database S)))) \<and>
    sorted (map m_create_at rs) \<and>
    (\<forall>r \<in> set rs. r \<in> set (direct_messages (database S)) \<and> between a b r) \<and>
    (\<forall>r \<in> set rs. \<forall>q \<in> set (direct_messages (database S)). between a b q \<and> q \<notin> set rs \<longrightarrow>
       m_create_at r \<le> m_create_at q)"
proof -
  let ?rs = "history_rows a b 100 (database S)"
  have "handle_message_history E this body (cleared this S) = (Inr (HistoryResponse_serialize
      \<lparr>hres_messages = map (entry_of (database S)) ?rs, hres_error = OK\<rparr>), tick (cleared this S))"
    using handle_message_history_run [of body req E "cleared this S" l a b this] assms by simp
  from handle_packet_answer [where h = handle_message_history, OF _ this history_reply_nonempty]
  have run: "handle_packet E this MESSAGE_HISTORY body S = (Inr (), answered this MESSAGE_HISTORY
      (HistoryResponse_serialize \<lparr>hres_messages = map (entry_of (database S)) ?rs, hres_error = OK\<rparr>)
      (tick (cleared this S)))" by simp
  have "length ?rs = min 100 (length (filter (between a b) (direct_messages (database S))))"
    by (simp add: history_rows_length)
  moreover have "\<forall>r \<in> set ?rs. r \<in> set (direct_messages (database S)) \<and> between a b r"
    using history_rows_between by blast
  moreover have "\<forall>r \<in> set ?rs. \<forall>q \<in> set (direct_messages (database S)).
      between a b q \<and> q \<notin> set ?rs \<longrightarrow> m_create_at r \<le> m_create_at q"
    using history_rows_oldest by blast
  ultimately show ?thesis
    using run assms(6) history_rows_sorted [of a b 100 "database S"]
    by (intro exI [of _ "snd (handle_packet E this MESSAGE_HISTORY body S)"] exI [of _ ?rs] conjI)
      (simp_all add: outbox_send_to)
qed

definition demo_history :: "string \<Rightarrow> HistoryRequest" where
  "demo_history p = \<lparr>hreq_token = ''tb'', hreq_peer_login = p\<rparr>"

lemma demo_history_parse:
  "length p < 100 \<Longrightarrow>
    HistoryRequest_deserialize (HistoryRequest_serialize (demo_history p)) = Inr (demo_history p)"
  using HistoryRequest_roundtrip [of "demo_history p" "[]"]
  by (simp add: HistoryRequest_wf_def demo_history_def wf_string_def fits32_def)

lemma demo_history_sel [simp]:
  "hreq_token (demo_history p) = ''tb''" "hreq_peer_login (demo_history p) = p"
  by (simp_all add: demo_history_def)

lemma demo_between: "filter (between 2 1) (direct_messages demo_store) = direct_messages demo_store"
  "length (direct_messages demo_store) = 1"
  by (simp_all add: demo_store_def between_def)

theorem history_is_the_oldest_hundred_witness:
  "\<exists>S' rs. handle_packet demo_env 1 MESSAGE_HISTORY
      (HistoryRequest_serialize (demo_history ''alice'')) demo_server = (Inr (), S') \<and>
    outbox S' 1 = outbox demo_server 1 @ [full_packet RESULT (HistoryResponse_serialize
      \<lparr>hres_messages = map (entry_of demo_store) rs, hres_error = OK\<rparr>)] \<and> length rs = 1"
  using history_is_the_oldest_hundred [of _ "demo_history ''alice''" demo_env demo_server
      "''bob''" 2 1 1, OF demo_history_parse]
  by (simp add: demo_history_parse demo_tokens demo_ids demo_inv demo_between) blast

text \<open>C27: The chat list shows, for every user with whom messages were exchanged and for nobody
  else, one message with the latest time among theirs, the latest of all first.\<close>

theorem chat_list_shows_the_latest:
  assumes "ChatListRequest_deserialize body = Inr req"
    and "token_login E (database S) (clreq_token req) = Some l"
    and "id_of_login (database S) l = Some a" and "clients S this \<noteq> None"
  shows "\<exists>S' rs. handle_packet E this CHAT_LIST body S = (Inr (), S') \<and>
    outbox S' this = outbox S this @ [full_packet RESULT (ChatListResponse_serialize
      \<lparr>clres_chats = map (chat_entry_of (database S) a) rs, clres_error = OK\<rparr>)] \<and>
    sorted (map (\<lambda>r. - m_create_at r) rs) \<and>
    (\<forall>r. r \<in> set rs \<longleftrightarrow> latest_row (with_peer a (peer_of a r) (database S)) = Some r) \<and>
    (\<forall>r \<in> set rs. \<forall>q \<in> set (with_peer a (peer_of a r) (database S)). m_create_at q \<le> m_create_at r)"
proof -
  let ?rs = "last_rows a (database S)"
  have "handle_chat_list E this body (cleared this S) = (Inr (ChatListResponse_serialize
      \<lparr>clres_chats = map (chat_entry_of (database S) a) ?rs, clres_error = OK\<rparr>),
      note_error this OK (tick (cleared this S)))"
    using handle_chat_list_run [of body req E "cleared this S" l a this] assms by simp
  from handle_packet_answer [where h = handle_chat_list, OF _ this chat_list_reply_nonempty]
  have run: "handle_packet E this CHAT_LIST body S = (Inr (), answered this CHAT_LIST
      (ChatListResponse_serialize
        \<lparr>clres_chats = map (chat_entry_of (database S) a) ?rs, clres_error = OK\<rparr>)
      (note_error this OK (tick (cleared this S))))" by simp
  have peer: "peer_of a r = p" if "latest_row (with_peer a p (database S)) = Some r" for p r
    using latest_row_max [OF that] by (simp add: with_peer_def)
  have rows: "r \<in> set ?rs \<longleftrightarrow> latest_row (with_peer a (peer_of a r) (database S)) = Some r" for r
    using last_rows_set [of r a "database S"] peer by auto
  then have "\<forall>r \<in> set ?rs. \<forall>q \<in> set (with_peer a (peer_of a r) (database S)).
      m_create_at q \<le> m_create_at r"
    using latest_row_max by blast
  then show ?thesis
    using run assms(4) rows last_rows_sorted [of a "database S"]
    by (intro exI [of _ "snd (handle_packet E this CHAT_LIST body S)"] exI [of _ ?rs] conjI)
      (simp_all add: outbox_send_to)
qed

definition demo_chats :: ChatListRequest where
  "demo_chats = \<lparr>clreq_token = ''tb''\<rparr>"

theorem chat_list_shows_the_latest_witness:
  "\<exists>S' rs. handle_packet demo_env 1 CHAT_LIST (ChatListRequest_serialize demo_chats) demo_server
      = (Inr (), S') \<and> outbox S' 1 = outbox demo_server 1 @ [full_packet RESULT
        (ChatListResponse_serialize
          \<lparr>clres_chats = map (chat_entry_of demo_store 2) rs, clres_error = OK\<rparr>)] \<and>
    (\<forall>r. r \<in> set rs \<longleftrightarrow> latest_row (with_peer 2 (peer_of 2 r) demo_store) = Some r)"
proof -
  have "ChatListRequest_deserialize (ChatListRequest_serialize demo_chats @ []) = Inr demo_chats"
    by (rule ChatListRequest_roundtrip)
      (simp add: ChatListRequest_wf_def demo_chats_def wf_string_def fits32_def)
  then show ?thesis
    using chat_list_shows_the_latest [of "ChatListRequest_serialize demo_chats" demo_chats demo_env
        demo_server "''bob''" 2 1]
    by (simp add: demo_chats_def demo_tokens demo_ids) metis
qed

section \<open>The general chat and files\<close>

text \<open>C28: A message to the general chat reaches every live session once for every other login
  under which it is registered, never the sender's own login, and the sender is answered OK.\<close>

theorem chat_message_reaches_the_others:
  assumes "ChatSendRequest_deserialize body = Inr req"
    and "token_login E (database S) (csreq_token req) = Some l" and "clients S this \<noteq> None"
    and "clients S x \<noteq> None"
  shows "\<exists>S'. handle_packet E this MESSAGE body S = (Inr (), S') \<and>
    outbox S' x = outbox S x @
      replicate (length (filter (\<lambda>(k, v). k \<noteq> l \<and> v = x) (online_users S)))
        (full_packet MESSAGE (ChatIncoming_serialize
          \<lparr>cin_sender_login = l, cin_message = csreq_message req\<rparr>)) @
      (if x = this then [full_packet RESULT (ChatResponse_serialize \<lparr>cres_error = OK\<rparr>)] else [])"
proof -
  let ?in = "ChatIncoming_serialize \<lparr>cin_sender_login = l, cin_message = csreq_message req\<rparr>"
  let ?S1 = "broadcast l MESSAGE ?in (tick (cleared this S))"
  have "handle_message E this body (cleared this S) =
      (Inr (error_reply MESSAGE OK), note_error this OK ?S1)"
    using assms(1,2)
    by (simp add: handle_message_def prog_simps authorised_run)
  from handle_packet_answer [where h = handle_message, OF _ this error_reply_nonempty]
  have run: "handle_packet E this MESSAGE body S =
      (Inr (), answered this MESSAGE (error_reply MESSAGE OK) (note_error this OK ?S1))" by simp
  have "clients (tick (cleared this S)) x \<noteq> None" using assms(4) by simp
  from broadcast_outbox [OF this, of l MESSAGE ?in] have "outbox ?S1 x = outbox S x @
      replicate (length (filter (\<lambda>(k, v). k \<noteq> l \<and> v = x) (online_users S))) (full_packet MESSAGE ?in)"
    by simp
  moreover have "clients ?S1 this \<noteq> None"
    using assms(3) by simp
  ultimately show ?thesis using run by (auto simp: outbox_send_to)
qed

theorem chat_message_reaches_the_others_witness:
  "\<exists>S'. handle_packet demo_env 0 MESSAGE (ChatSendRequest_serialize (demo_chat ''ta'')) demo_server
      = (Inr (), S') \<and> length (outbox S' 1) = Suc (length (outbox demo_server 1))"
  using chat_message_reaches_the_others [of "ChatSendRequest_serialize (demo_chat ''ta'')"
      "demo_chat ''ta''" demo_env demo_server "''alice''" 0 1]
  by (auto simp: demo_chat_parse demo_tokens)

text \<open>C29: A file that was uploaded is what a later download of the same name returns, to any
  user with a valid token, as long as nobody has written the file since.\<close>

theorem uploaded_file_comes_back:
  assumes libs: "evp_contract E" "rand_contract E"
    and up: "FileUploadRequest_deserialize ubody = Inr u"
    and down: "FileDownloadRequest_deserialize dbody = Inr d"
    and same: "fdreq_file_name d = fureq_file_name u"
    and tok: "token_login E (database S) (fureq_token u) = Some l"
    and iv: "RAND_bytes E (rand_pos S) 16 = Some iv"
    and size: "length (fureq_file_data u) + 16 < 2 ^ 31"
    and disk: "can_write E (c_str (fureq_file_name u))" "can_read E (c_str (fureq_file_name u))"
  shows "\<exists>S1. handle_packet E this UPLOAD ubody S = (Inr (), S1) \<and>
    (\<forall>S2 that l2. files S2 (c_str (fureq_file_name u)) = files S1 (c_str (fureq_file_name u)) \<and>
       token_login E (database S2) (fdreq_token d) = Some l2 \<and> clients S2 that \<noteq> None \<longrightarrow>
       (\<exists>S3. handle_packet E that DOWNLOAD dbody S2 = (Inr (), S3) \<and>
          outbox S3 that = outbox S2 that @ [full_packet RESULT (FileDownloadResponse_serialize
            \<lparr>fdres_file_data = fureq_file_data u, fdres_error = OK\<rparr>)]))"
proof -
  have key: "length SERVER_KEY = 32" by (simp add: SERVER_KEY_def)
  obtain ct where enc: "encryptAES E (fureq_file_data u) SERVER_KEY (rand_pos S) = (Inr ct, Suc (rand_pos S))"
    and dec: "decryptAES E ct SERVER_KEY = Inr (fureq_file_data u)"
    using decrypt_encrypt [OF libs key iv size] by blast
  let ?f = "c_str (fureq_file_name u)"
  let ?S1 = "note_error this OK ((tick (cleared this S))\<lparr>rand_pos := Suc (rand_pos S),
    files := (files S)(?f \<mapsto> ct)\<rparr>)"
  have "handle_upload E this ubody (cleared this S) = (Inr (error_reply UPLOAD OK), ?S1)"
    using up tok disk(1) enc
    by (simp add: handle_upload_def prog_simps authorised_run on_rand_run on_files_run)
  from handle_packet_answer [where h = handle_upload, OF _ this error_reply_nonempty]
  have run: "handle_packet E this UPLOAD ubody S =
      (Inr (), answered this UPLOAD (error_reply UPLOAD OK) ?S1)" by simp
  have "\<exists>S3. handle_packet E that DOWNLOAD dbody S2 = (Inr (), S3) \<and>
      outbox S3 that = outbox S2 that @ [full_packet RESULT (FileDownloadResponse_serialize
        \<lparr>fdres_file_data = fureq_file_data u, fdres_error = OK\<rparr>)]"
    if "files S2 ?f = Some ct" "token_login E (database S2) (fdreq_token d) = Some l2"
      "clients S2 that \<noteq> None" for S2 that l2
  proof -
    let ?r = "FileDownloadResponse_serialize \<lparr>fdres_file_data = fureq_file_data u, fdres_error = OK\<rparr>"
    have "on_files (fileToBytes E (fdreq_file_name d)) (tick (cleared that S2)) =
        (Inr ct, tick (cleared that S2))"
      using fileToBytes_present [of "files S2" "fureq_file_name u" ct E] that(1) disk(2) same
      by (simp add: on_files_def)
    then have "handle_download E that dbody (cleared that S2) =
        (Inr ?r, note_error that OK (tick (cleared that S2)))"
      using down that(2) dec by (simp add: handle_download_def prog_simps authorised_run)
    moreover have "?r \<noteq> []"
      by (simp add: FileDownloadResponse_serialize_def serialize_def ser_error_def pack_ui32_def
          net_bytes_def)
    ultimately show ?thesis
      using handle_packet_answer [where h = handle_download and type = DOWNLOAD] that(3)
      by (simp add: outbox_send_to)
  qed
  note returned = this
  obtain S1 where S1: "handle_packet E this UPLOAD ubody S = (Inr (), S1)" "files S1 ?f = Some ct"
    using run by simp
  show ?thesis unfolding S1(1)
    by (intro exI [of _ S1] conjI allI impI refl returned) (auto simp: S1(2))
qed

definition demo_upload :: FileUploadRequest where
  "demo_upload = \<lparr>fureq_token = ''ta'', fureq_file_name = ''f'', fureq_file_data = [1, 2]\<rparr>"

definition demo_download :: "string \<Rightarrow> FileDownloadRequest" where
  "demo_download f = \<lparr>fdreq_token = ''tb'', fdreq_file_name = f\<rparr>"

lemma demo_file_parse:
  "FileUploadRequest_deserialize (FileUploadRequest_serialize demo_upload) = Inr demo_upload"
  "length f < 100 \<Longrightarrow>
    FileDownloadRequest_deserialize (FileDownloadRequest_serialize (demo_download f)) = Inr (demo_download f)"
  using FileUploadRequest_roundtrip [of demo_upload "[]"]
    FileDownloadRequest_roundtrip [of "demo_download f" "[]"]
  by (simp_all add: FileUploadRequest_wf_def FileDownloadRequest_wf_def demo_upload_def
      demo_download_def wf_string_def wf_bytes_def fits32_def)

theorem uploaded_file_comes_back_witness:
  "\<exists>S1. handle_packet demo_env 0 UPLOAD (FileUploadRequest_serialize demo_upload) demo_server
    = (Inr (), S1)"
  using uploaded_file_comes_back [where E = demo_env and S = demo_server and this = 0 and
      l = "''alice''" and u = demo_upload and d = "demo_download ''f''" and iv = "replicate 16 0",
      OF demo_contracts(3,2) demo_file_parse(1) demo_file_parse(2)]
  by (auto simp: demo_upload_def demo_download_def demo_tokens c_str_def)

section \<open>What ends the server or surprises its users\<close>

text \<open>A download of a file that does not exist is not answered with an error: the exception
  of the file system leaves the handler, with a valid token and any name.\<close>

theorem download_of_a_missing_file_throws:
  assumes "FileDownloadRequest_deserialize body = Inr req"
    and "token_login E (database S) (fdreq_token req) = Some l"
    and "files S (c_str (fdreq_file_name req)) = None"
  shows "fst (handle_packet E this DOWNLOAD body S) = Inl (FilesystemError (fdreq_file_name req))"
proof -
  have "on_files (fileToBytes E (fdreq_file_name req)) (tick (cleared this S)) =
      (Inl (FilesystemError (fdreq_file_name req)), tick (cleared this S))"
    using fileToBytes_missing [of "files S" "fdreq_file_name req" E] assms(3)
    by (simp add: on_files_def)
  then have "handle_download E this body (cleared this S) =
      (Inl (FilesystemError (fdreq_file_name req)), tick (cleared this S))"
    using assms(1,2) by (simp add: handle_download_def prog_simps authorised_run)
  from handle_packet_plain_fault [where h = handle_download, OF _ this] show ?thesis by simp
qed

theorem download_of_a_missing_file_throws_witness:
  "fst (handle_packet demo_env 0 DOWNLOAD (FileDownloadRequest_serialize (demo_download ''g''))
    demo_server) = Inl (FilesystemError ''g'')"
  using download_of_a_missing_file_throws [OF demo_file_parse(2) [of "''g''"], of demo_env
      demo_server "''bob''" 0]
  by (simp add: demo_download_def demo_tokens)

text \<open>A history request that names no user is not answered with an error either: the id is
  taken from an empty \<^verbatim>\<open>std::expected\<close>, which throws.\<close>

theorem history_of_nobody_throws:
  assumes "HistoryRequest_deserialize body = Inr req"
    and "token_login E (database S) (hreq_token req) = Some l"
    and "id_of_login (database S) l = Some a"
    and "id_of_login (database S) (hreq_peer_login req) = None"
  shows "fst (handle_packet E this MESSAGE_HISTORY body S) = Inl (BadExpectedAccess NotFound)"
  using handle_packet_plain_fault [where h = handle_message_history and type = MESSAGE_HISTORY]
    handle_message_history_no_peer [of body req E "cleared this S" l a this] assms
  by simp

theorem history_of_nobody_throws_witness:
  "fst (handle_packet demo_env 0 MESSAGE_HISTORY (HistoryRequest_serialize (demo_history ''dave''))
    demo_server) = Inl (BadExpectedAccess NotFound)"
  using history_of_nobody_throws [OF demo_history_parse [of "''dave''"], of demo_env demo_server
      "''bob''" 2 0]
  by (simp add: demo_tokens demo_ids)

text \<open>C35: A user for whom more messages wait than SQLite allows parameters cannot log in: the
  statement that marks them delivered is refused and its exception ends the server.\<close>

theorem too_many_pending_messages_throw:
  assumes "AuthRequest_deserialize body = Inr req"
    and "password_ok E (database S) (areq_login req) (areq_password req)"
    and "id_of_login (database S) (areq_login req) = Some i"
    and "store_inv (database S)" and "clients S this \<noteq> None"
    and "uuid E (uuid_pos (database S)) \<notin> s_token ` set (sessions (database S))"
    and "length (undelivered_rows i (database S)) > max_variables E"
  shows "fst (handle_packet E this LOGIN body S) = Inl (SQLiteException ''too many SQL variables'')"
proof -
  let ?t = "uuid E (uuid_pos (database S))"
  let ?s = "with_session E (database S) ?t i"
  have d: "dispatch E this LOGIN body (cleared this S) =
      (Inr (AuthResponse_serialize \<lparr>ares_token = ?t, ares_error = OK\<rparr>, areq_login req, True),
       note_error this OK (tokened this ?t ((cleared this S)\<lparr>database := ?s\<rparr>)))"
    using dispatch_login [of body req E "cleared this S" i this] assms by simp
  have "verifyUser E (areq_login req) (areq_password req) (database S) = (Inr (Inr ?t), ?s)"
    using verifyUser_right [OF assms(2,6,3)] .
  from store_inv_verifyUser [OF assms(4) this] show ?thesis
    using handle_packet_auth_overflow [OF d, of i] assms(3,5,7) by simp
qed

definition demo_crowded :: server where
  "demo_crowded = demo_server\<lparr>database := demo_store\<lparr>direct_messages :=
     map (\<lambda>k. \<lparr>m_id = k, m_sender = 1, m_recipient = 2, m_create_at = 950, m_message = ''hi'',
       m_delivered = 0\<rparr>) [1, 2, 3], messages_seq := 3\<rparr>\<rparr>"

theorem too_many_pending_messages_throw_witness:
  "fst (handle_packet demo_env 1 LOGIN (AuthRequest_serialize
      \<lparr>areq_login = ''bob'', areq_password = ''pw''\<rparr>) demo_crowded) =
    Inl (SQLiteException ''too many SQL variables'')"
proof -
  have "store_inv (database demo_crowded)"
    using demo_inv unfolding store_inv_def store_inv_defs
    by (simp add: demo_crowded_def user_ids_def ids_ok_def max_rowid_def)
  moreover have "password_ok demo_env (database demo_crowded) ''bob'' ''pw''"
    "id_of_login (database demo_crowded) ''bob'' = Some 2"
    using demo_password demo_ids(2)
    by (simp_all add: demo_crowded_def password_ok_def id_of_login_def user_by_login_def)
  ultimately show ?thesis
    using too_many_pending_messages_throw [OF demo_auth_parse [of "''bob''" "''pw''"], of demo_env
        demo_crowded 2 1]
    by (simp add: demo_crowded_def undelivered_rows_def) (simp add: demo_store_def)
qed

text \<open>C37: A direct message that is pushed to an online friend stays undelivered, so the friend
  is sent it again at the next login; and the time it is pushed with is its row number, not the
  time that the history shows.\<close>

theorem pushed_message_stays_undelivered:
  assumes "DirectMessageRequest_deserialize body = Inr req"
    and "token_login E (database S) (dmreq_token req) = Some l"
    and "id_of_login (database S) l = Some a"
    and "id_of_login (database S) (dmreq_recipient_login req) = Some b"
    and "store_inv (database S)" and "relation (database S) a b = Friends"
    and "messages_seq (database S) < max_rowid" and "clients S this \<noteq> None"
    and "getSession (dmreq_recipient_login req) S = Some s"
  shows "\<exists>S' r. handle_packet E this DIRECT_MESSAGE body S = (Inr (), S') \<and>
    r \<in> set (undelivered_rows b (database S')) \<and> m_message r = dmreq_message req \<and>
    m_create_at r = clock E (Suc (clock_pos (database S))) \<and>
    full_packet DIRECT_MESSAGE (DirectMessageIncoming_serialize
      \<lparr>dmin_sender_login = l, dmin_message = dmreq_message req,
       dmin_timestamp = word_of_int (m_id r)\<rparr>) \<in> set (outbox S' s)"
proof -
  obtain S' where run: "handle_packet E this DIRECT_MESSAGE body S = (Inr (), S')"
    and rows: "direct_messages (database S') = direct_messages (database S) @
      [\<lparr>m_id = messages_seq (database S) + 1, m_sender = a, m_recipient = b,
        m_create_at = clock E (Suc (clock_pos (database S))), m_message = dmreq_message req,
        m_delivered = 0\<rparr>]"
    and out: "\<forall>x. outbox S' x = outbox S x @
       (if getSession (dmreq_recipient_login req) S = Some x
        then [full_packet DIRECT_MESSAGE (DirectMessageIncoming_serialize
          \<lparr>dmin_sender_login = l, dmin_message = dmreq_message req,
           dmin_timestamp = word_of_int (messages_seq (database S) + 1)\<rparr>)] else []) @
       (if x = this
        then [full_packet RESULT (DirectMessageResponse_serialize \<lparr>dmres_error = OK\<rparr>)] else [])"
    using direct_message_packet [OF assms(1-8)] by blast
  have "last (direct_messages (database S')) \<in> set (undelivered_rows b (database S'))"
    by (simp add: rows undelivered_rows_def)
  then show ?thesis
    using run out assms(9)
    by (intro exI [of _ S'] exI [of _ "last (direct_messages (database S'))"]) (simp add: rows)
qed

theorem pushed_message_stays_undelivered_witness:
  "\<exists>S' r. handle_packet demo_env 0 DIRECT_MESSAGE
      (DirectMessageRequest_serialize (demo_dm ''ta'' ''bob'')) demo_server = (Inr (), S') \<and>
    r \<in> set (undelivered_rows 2 (database S')) \<and> m_message r = ''yo''"
  using pushed_message_stays_undelivered [of _ "demo_dm ''ta'' ''bob''" demo_env demo_server
      "''alice''" 1 2 0 1, OF demo_dm_parse]
  by (simp add: demo_dm_def demo_tokens demo_ids demo_inv demo_relations max_rowid_def demo_sessions)
    blast

text \<open>C38: A logout ends the token, but the session stays in the registry, so it goes on
  receiving what is sent to the user.\<close>

theorem logout_ends_the_token_only:
  assumes "LogoutRequest_deserialize body = Inr req" and "clients S this \<noteq> None"
  shows "\<exists>S'. handle_packet E this LOGOUT body S = (Inr (), S') \<and>
    token_login E (database S') (lreq_old_token req) = None \<and>
    login_of S' this = '''' \<and> (\<forall>l. getSession l S' = getSession l S) \<and>
    (\<forall>x. outbox S' x = outbox S x)"
proof -
  let ?t = "lreq_old_token req"
  let ?db = "(database S)\<lparr>sessions := filter (\<lambda>r. s_token r \<noteq> ?t) (sessions (database S))\<rparr>"
  let ?S' = "tokened this '''' (entered this '''' ((cleared this S)\<lparr>database := ?db\<rparr>))"
  have out: "on_db (logout ?t) (cleared this S) = (Inr (), (cleared this S)\<lparr>database := ?db\<rparr>)"
    by (simp add: on_db_def logout_run)
  have run: "handle_packet E this LOGOUT body S = (Inr (), ?S')"
    using assms(1) out
    by (simp add: handle_packet_cleared dispatch_def handle_logout_def prog_simps)
  have "session_by_token ?t ?db = None" by (auto simp: session_by_token_None)
  then have "token_login E (database ?S') ?t = None" by (simp add: token_login_def)
  moreover have "login_of ?S' this = ''''"
    by (simp add: login_of_def tokened_def entered_def split: option.split)
  moreover have "getSession l ?S' = getSession l S" for l
    by (simp add: getSession_def lock_def split: option.split)
  ultimately show ?thesis using run by simp
qed

definition demo_logout :: LogoutRequest where
  "demo_logout = \<lparr>lreq_old_token = ''ta''\<rparr>"

theorem logout_ends_the_token_only_witness:
  "\<exists>S'. handle_packet demo_env 0 LOGOUT (LogoutRequest_serialize demo_logout) demo_server
      = (Inr (), S') \<and> token_login demo_env (database S') ''ta'' = None \<and>
    getSession ''alice'' S' = Some 0"
proof -
  have "LogoutRequest_deserialize (LogoutRequest_serialize demo_logout @ []) = Inr demo_logout"
    by (rule LogoutRequest_roundtrip)
      (simp add: LogoutRequest_wf_def demo_logout_def wf_string_def fits32_def)
  then show ?thesis
    using logout_ends_the_token_only [of "LogoutRequest_serialize demo_logout" demo_logout
        demo_server 0 demo_env]
    by (auto simp: demo_logout_def demo_sessions)
qed

text \<open>C39: When a user logs in from a second place the registry points to the new session; the
  end of the old one removes that entry, and the user is offline with a session alive.\<close>

theorem old_session_removes_the_new_one:
  assumes "clients S old = Some c" and "current_login c = l" and "l \<noteq> ''''"
    and "online S l = Some new" and "new \<noteq> old"
  shows "getSession l (destroy_session old S) = None \<and>
    clients (destroy_session old S) new = clients S new"
proof -
  have "online (removeUser l S) l = None" by (simp add: users_online.lookup_remove)
  then show ?thesis
    using assms
    by (simp add: destroy_session_def Let_def getSession_def online_def removeUser_def)
qed

definition demo_twice :: server where
  "demo_twice = addUser ''alice'' 1 demo_server"

theorem old_session_removes_the_new_one_witness:
  "getSession ''alice'' demo_twice = Some 1 \<and>
   getSession ''alice'' (destroy_session 0 demo_twice) = None"
proof -
  have on: "online demo_twice ''alice'' = Some 1"
    by (simp add: demo_twice_def users_online.lookup_add)
  then have "getSession ''alice'' demo_twice = Some 1"
    by (simp add: getSession_def online_def lock_def demo_twice_def)
  moreover have "getSession ''alice'' (destroy_session 0 demo_twice) = None"
    using old_session_removes_the_new_one [of demo_twice 0 "new_client\<lparr>current_login := ''alice''\<rparr>"
        "''alice''" 1] on
    by (simp add: demo_twice_def demo_server_def)
  ultimately show ?thesis ..
qed

text \<open>A login with a zero byte is read back only up to it. A user who registers such a login
  acts with its token as the user whose login stops there.\<close>

theorem zero_byte_login_acts_as_another:
  assumes "session_by_token t s = Some r" and "clock E (clock_pos s) - s_created_at r \<le> TOKEN_TTL"
    and "user_by_id (s_id r) s = Some u" and "u_login u = x @ CHR 0x00 # y" and "nul_free x"
  shows "token_login E s t = Some x"
  using assms by (simp add: token_login_def login_of_id_def getText_def)

definition demo_forged :: store where
  "demo_forged = demo_store\<lparr>users := users demo_store @ [demo_user 4 (''alice'' @ CHR 0x00 # ''z'')],
     sessions := [\<lparr>s_token = ''tz'', s_id = 4, s_created_at = 950\<rparr>], users_seq := 4\<rparr>"

theorem zero_byte_login_acts_as_another_witness:
  "token_login demo_env demo_forged ''tz'' = Some ''alice''"
  using zero_byte_login_acts_as_another [of "''tz''" demo_forged
      "\<lparr>s_token = ''tz'', s_id = 4, s_created_at = 950\<rparr>" demo_env
      "demo_user 4 (''alice'' @ CHR 0x00 # ''z'')" "''alice''" "''z''"]
  by (simp add: demo_forged_def session_by_token_def user_by_id_def TOKEN_TTL_def nul_free_def)

end
